(* ===== verification/Prelude.thy ===== *)
theory Prelude
  imports Main "HOL-Library.Monad_Syntax" "HOL-Library.Char_ord" "HOL-Library.List_Lexorder"
begin

text \<open>
  The part of Python's core and standard library that the build scripts use on strings and
  lists: character classes, \<open>str\<close> methods, list indexing, and decimal output, with the lemmas
  that the component theories share.

  A Python string is a HOL \<open>string\<close>: a list of code points below 256. The character
  predicates are those of Python 3 on that range (not only on ASCII). Code points from 256
  upwards are outside the model.
\<close>

named_theorems len_le \<open>length bounds of the string and line operations\<close>
named_theorems line_count \<open>operations that keep the number of lines\<close>

section \<open>Characters\<close>

abbreviation DQ :: char where "DQ \<equiv> CHR 0x22"
abbreviation SQ :: char where "SQ \<equiv> CHR 0x27"
abbreviation BSL :: char where "BSL \<equiv> CHR 0x5C"
abbreviation LF :: char where "LF \<equiv> CHR 0x0A"
abbreviation CR :: char where "CR \<equiv> CHR 0x0D"
abbreviation TAB :: char where "TAB \<equiv> CHR 0x09"
abbreviation NUL :: char where "NUL \<equiv> CHR 0x00"

definition code_point :: "char \<Rightarrow> nat" where
  "code_point c = of_char c"

text \<open>\<open>isalnum\<close> or an underscore: the class \<open>\w\<close> of a \<open>str\<close> pattern.\<close>

definition py_word :: "char \<Rightarrow> bool" where
  "py_word c = (let n = code_point c in
     48 \<le> n \<and> n \<le> 57 \<or> 65 \<le> n \<and> n \<le> 90 \<or> n = 95 \<or> 97 \<le> n \<and> n \<le> 122
     \<or> n = 170 \<or> n = 178 \<or> n = 179 \<or> n = 181 \<or> n = 185 \<or> n = 186
     \<or> 188 \<le> n \<and> n \<le> 190 \<or> 192 \<le> n \<and> n \<noteq> 215 \<and> n \<noteq> 247)"

text \<open>\<open>isspace\<close>, which is also the class \<open>\s\<close>.\<close>

definition py_space :: "char \<Rightarrow> bool" where
  "py_space c = (let n = code_point c in
     9 \<le> n \<and> n \<le> 13 \<or> 28 \<le> n \<and> n \<le> 32 \<or> n = 133 \<or> n = 160)"

text \<open>The class \<open>\d\<close>; and the ASCII classes that patterns spell out.\<close>

definition py_digit :: "char \<Rightarrow> bool" where
  "py_digit c = (let n = code_point c in 48 \<le> n \<and> n \<le> 57)"

definition ascii_upper :: "char \<Rightarrow> bool" where
  "ascii_upper c = (let n = code_point c in 65 \<le> n \<and> n \<le> 90)"

definition ascii_lower :: "char \<Rightarrow> bool" where
  "ascii_lower c = (let n = code_point c in 97 \<le> n \<and> n \<le> 122)"

definition ascii_alnum :: "char \<Rightarrow> bool" where
  "ascii_alnum c = (ascii_upper c \<or> ascii_lower c \<or> py_digit c)"

text \<open>\<open>str.lower\<close> and (on ASCII letters) \<open>str.upper\<close>.\<close>

definition py_lower_char :: "char \<Rightarrow> char" where
  "py_lower_char c = (let n = code_point c in
     if 65 \<le> n \<and> n \<le> 90 \<or> 192 \<le> n \<and> n \<le> 222 \<and> n \<noteq> 215 then char_of (n + 32) else c)"

definition ascii_upper_char :: "char \<Rightarrow> char" where
  "ascii_upper_char c = (if ascii_lower c then char_of (code_point c - 32) else c)"

text \<open>The same classes read off the bits of the character, for evaluation.\<close>

lemma code_point_Char:
  "code_point (Char b0 b1 b2 b3 b4 b5 b6 b7) =
     of_bool b0 + 2 * (of_bool b1 + 2 * (of_bool b2 + 2 * (of_bool b3 + 2 * (of_bool b4 +
     2 * (of_bool b5 + 2 * (of_bool b6 + 2 * of_bool b7))))))"
  by (simp add: code_point_def of_char_def)

lemma py_word_code [code]:
  "py_word (Char b0 b1 b2 b3 b4 b5 b6 b7) =
    (if b7 then (if b6 then (\<not> b4 \<or> (b3 \<or> (\<not> b2 \<or> (\<not> b1 \<or> \<not> b0))))
       else (b5 \<and> (if b4 then (if b3 then (if b2 then (\<not> b1 \<or> \<not> b0) else (if b1 then \<not> b0 else b0))
         else (if b2 then (\<not> b1 \<and> b0) else b1)) else (b3 \<and> (\<not> b2 \<and> (b1 \<and> \<not> b0))))))
     else (if b6 then (if b5 then (if b4 then (\<not> b3 \<or> (\<not> b2 \<and> (\<not> b1 \<or> \<not> b0)))
         else (b3 \<or> (b2 \<or> (b1 \<or> b0))))
       else (if b4 then (\<not> b3 \<or> (if b2 then (b1 \<and> b0) else (\<not> b1 \<or> \<not> b0)))
         else (b3 \<or> (b2 \<or> (b1 \<or> b0)))))
       else (b5 \<and> (b4 \<and> (\<not> b3 \<or> (\<not> b2 \<and> \<not> b1))))))"
  by (cases b0; cases b1; cases b2; cases b3; cases b4; cases b5; cases b6; cases b7)
     (simp_all add: py_word_def code_point_Char)

lemma py_space_code [code]:
  "py_space (Char b0 b1 b2 b3 b4 b5 b6 b7) =
    (if b7 then (\<not> b6 \<and> (if b5 then (\<not> b4 \<and> (\<not> b3 \<and> (\<not> b2 \<and> (\<not> b1 \<and> \<not> b0))))
       else (\<not> b4 \<and> (\<not> b3 \<and> (b2 \<and> (\<not> b1 \<and> b0))))))
     else (\<not> b6 \<and> (if b5 then (\<not> b4 \<and> (\<not> b3 \<and> (\<not> b2 \<and> (\<not> b1 \<and> \<not> b0))))
       else (if b4 then (b3 \<and> b2) else (b3 \<and> (if b2 then \<not> b1 else (b1 \<or> b0)))))))"
  by (cases b0; cases b1; cases b2; cases b3; cases b4; cases b5; cases b6; cases b7)
     (simp_all add: py_space_def code_point_Char)

lemma py_digit_code [code]:
  "py_digit (Char b0 b1 b2 b3 b4 b5 b6 b7) =
    (\<not> b7 \<and> \<not> b6 \<and> b5 \<and> b4 \<and> (\<not> b3 \<or> \<not> b2 \<and> \<not> b1))"
  by (cases b0; cases b1; cases b2; cases b3; cases b4; cases b5; cases b6; cases b7)
     (simp_all add: py_digit_def code_point_Char)

lemma ascii_upper_code [code]:
  "ascii_upper (Char b0 b1 b2 b3 b4 b5 b6 b7) =
    (\<not> b7 \<and> b6 \<and> \<not> b5 \<and> (if b4 then \<not> b3 \<or> \<not> b2 \<and> (\<not> b1 \<or> \<not> b0) else b3 \<or> b2 \<or> b1 \<or> b0))"
  by (cases b0; cases b1; cases b2; cases b3; cases b4; cases b5; cases b6; cases b7)
     (simp_all add: ascii_upper_def code_point_Char)

lemma ascii_lower_code [code]:
  "ascii_lower (Char b0 b1 b2 b3 b4 b5 b6 b7) =
    (\<not> b7 \<and> b6 \<and> b5 \<and> (if b4 then \<not> b3 \<or> \<not> b2 \<and> (\<not> b1 \<or> \<not> b0) else b3 \<or> b2 \<or> b1 \<or> b0))"
  by (cases b0; cases b1; cases b2; cases b3; cases b4; cases b5; cases b6; cases b7)
     (simp_all add: ascii_lower_def code_point_Char)

lemma py_lower_char_code [code]:
  "py_lower_char (Char b0 b1 b2 b3 b4 b5 b6 b7) =
    (let u = b6 \<and> \<not> b5 \<and> (if b7 then \<not> (b4 \<and> (b3 \<and> b2 \<and> b1 \<and> b0 \<or> \<not> b3 \<and> b2 \<and> b1 \<and> b0))
        else (if b4 then \<not> b3 \<or> \<not> b2 \<and> (\<not> b1 \<or> \<not> b0) else b3 \<or> b2 \<or> b1 \<or> b0))
     in Char b0 b1 b2 b3 b4 (b5 \<or> u) b6 b7)"
  by (cases b0; cases b1; cases b2; cases b3; cases b4; cases b5; cases b6; cases b7)
     (simp_all add: py_lower_char_def code_point_Char char_of_def bit_0)

lemma ascii_upper_char_code [code]:
  "ascii_upper_char (Char b0 b1 b2 b3 b4 b5 b6 b7) =
    Char b0 b1 b2 b3 b4 (b5 \<and> \<not> ascii_lower (Char b0 b1 b2 b3 b4 b5 b6 b7)) b6 b7"
  by (cases b0; cases b1; cases b2; cases b3; cases b4; cases b5; cases b6; cases b7)
     (simp_all add: ascii_upper_char_def ascii_lower_def code_point_Char char_of_def bit_0)

lemma py_lower_char_idem [simp]: "py_lower_char (py_lower_char c) = py_lower_char c"
proof (cases c)
  case (Char b0 b1 b2 b3 b4 b5 b6 b7)
  then show ?thesis
    by (cases b0; cases b1; cases b2; cases b3; cases b4; cases b5; cases b6; cases b7)
       (simp_all add: py_lower_char_code)
qed

lemma py_word_not_space: "py_word c \<Longrightarrow> \<not> py_space c"
  by (auto simp: py_word_def py_space_def Let_def)

lemma ascii_alnum_word: "ascii_alnum c \<Longrightarrow> py_word c"
  by (auto simp: ascii_alnum_def ascii_upper_def ascii_lower_def py_digit_def py_word_def Let_def)

section \<open>Strings\<close>

fun starts_with :: "string \<Rightarrow> string \<Rightarrow> bool" where
  "starts_with s [] = True"
| "starts_with [] (y # ys) = False"
| "starts_with (x # xs) (y # ys) = (x = y \<and> starts_with xs ys)"

definition ends_with :: "string \<Rightarrow> string \<Rightarrow> bool" where
  "ends_with s suf = starts_with (rev s) (rev suf)"

text \<open>\<open>s.find(sub)\<close>: \<open>None\<close> stands for \<open>-1\<close>; and \<open>s.find(sub, i)\<close>.\<close>

fun find_sub :: "string \<Rightarrow> string \<Rightarrow> nat option" where
  "find_sub [] sub = (if sub = [] then Some 0 else None)"
| "find_sub (x # xs) sub =
     (if starts_with (x # xs) sub then Some 0 else map_option Suc (find_sub xs sub))"

definition find_from :: "string \<Rightarrow> string \<Rightarrow> nat \<Rightarrow> nat option" where
  "find_from s sub i = (if length s < i then None else map_option ((+) i) (find_sub (drop i s) sub))"

definition contains :: "string \<Rightarrow> string \<Rightarrow> bool" where
  "contains s sub = (find_sub s sub \<noteq> None)"

text \<open>\<open>s.rfind(c) + 1\<close> for a character: 0 when it does not occur.\<close>

definition rfind1 :: "char \<Rightarrow> string \<Rightarrow> nat" where
  "rfind1 c s = length (dropWhile (\<lambda>x. x \<noteq> c) (rev s))"

text \<open>
  \<open>s.count(sub)\<close>, \<open>s.replace(old, new)\<close> and \<open>s.split(sep)\<close> scan from the left without
  overlap. The scripts never call them with an empty pattern.
\<close>

function count_sub :: "string \<Rightarrow> string \<Rightarrow> nat" where
  "count_sub s sub =
     (case s of [] \<Rightarrow> 0
      | x # xs \<Rightarrow> if starts_with s sub \<and> sub \<noteq> [] then Suc (count_sub (drop (length sub) s) sub)
                 else count_sub xs sub)"
  by pat_completeness auto
termination by (relation "measure (\<lambda>(s, sub). length s)") auto

function replace_sub :: "string \<Rightarrow> string \<Rightarrow> string \<Rightarrow> string" where
  "replace_sub old new s =
     (case s of [] \<Rightarrow> []
      | x # xs \<Rightarrow> if starts_with s old \<and> old \<noteq> [] then new @ replace_sub old new (drop (length old) s)
                 else x # replace_sub old new xs)"
  by pat_completeness auto
termination by (relation "measure (\<lambda>(old, new, s). length s)") auto

function split_sub :: "string \<Rightarrow> string \<Rightarrow> string list" where
  "split_sub sep s =
     (case find_sub s sep of
        None \<Rightarrow> [s]
      | Some i \<Rightarrow> if sep = [] \<or> s = [] then [s]
                 else take i s # split_sub sep (drop (i + length sep) s))"
  by pat_completeness auto
termination by (relation "measure (\<lambda>(sep, s). length s)") auto

declare count_sub.simps [simp del] replace_sub.simps [simp del] split_sub.simps [simp del]

text \<open>\<open>strip\<close> and its one-sided forms, and \<open>split()\<close> on runs of white space.\<close>

definition lstrip :: "string \<Rightarrow> string" where
  "lstrip s = dropWhile py_space s"

definition rstrip :: "string \<Rightarrow> string" where
  "rstrip s = rev (dropWhile py_space (rev s))"

definition strip :: "string \<Rightarrow> string" where
  "strip s = rstrip (lstrip s)"

definition rstrip_char :: "char \<Rightarrow> string \<Rightarrow> string" where
  "rstrip_char c s = rev (dropWhile (\<lambda>x. x = c) (rev s))"

function split_ws :: "string \<Rightarrow> string list" where
  "split_ws s =
     (case dropWhile py_space s of
        [] \<Rightarrow> []
      | x # xs \<Rightarrow> (x # takeWhile (\<lambda>c. \<not> py_space c) xs)
                   # split_ws (dropWhile (\<lambda>c. \<not> py_space c) xs))"
  by pat_completeness auto
termination
proof (relation "measure length")
  fix s x xs assume "dropWhile py_space s = x # xs"
  then have "length (x # xs) \<le> length s" by (metis length_dropWhile_le)
  moreover have "length (dropWhile (\<lambda>c. \<not> py_space c) xs) \<le> length xs" by (rule length_dropWhile_le)
  ultimately show "(dropWhile (\<lambda>c. \<not> py_space c) xs, s) \<in> measure length" by simp
qed simp

declare split_ws.simps [simp del]

fun join :: "string \<Rightarrow> string list \<Rightarrow> string" where
  "join sep [] = []"
| "join sep [s] = s"
| "join sep (s # t # ts) = s @ sep @ join sep (t # ts)"

definition py_lower :: "string \<Rightarrow> string" where
  "py_lower s = map py_lower_char s"

text \<open>Decimal output, as by \<open>str\<close> and \<open>%d\<close>.\<close>

fun show_nat :: "nat \<Rightarrow> string" where
  "show_nat n = (if n < 10 then [char_of (48 + n)] else show_nat (n div 10) @ [char_of (48 + n mod 10)])"

declare show_nat.simps [simp del]

definition show_int :: "int \<Rightarrow> string" where
  "show_int i = (if i < 0 then ''-'' @ show_nat (nat (- i)) else show_nat (nat i))"

text \<open>
  \<open>xs[i]\<close>: a negative index counts from the end, and an index that is out of range raises
  IndexError, which is \<open>None\<close> here.
\<close>

definition py_nth :: "'a list \<Rightarrow> int \<Rightarrow> 'a option" where
  "py_nth xs i =
     (if 0 \<le> i \<and> i < int (length xs) then Some (xs ! nat i)
      else if i < 0 \<and> - int (length xs) \<le> i then Some (xs ! nat (int (length xs) + i))
      else None)"

section \<open>Lemmas on strings\<close>

lemma starts_with_iff: "starts_with s p \<longleftrightarrow> (\<exists>t. s = p @ t)"
  by (induction s p rule: starts_with.induct) auto

lemma starts_with_append [simp]: "starts_with (p @ t) p"
  by (auto simp: starts_with_iff)

lemma ends_with_iff: "ends_with s suf \<longleftrightarrow> (\<exists>t. s = t @ suf)"
  by (auto simp: ends_with_def starts_with_iff) (metis rev_append rev_rev_ident)+

lemma find_sub_Some:
  "find_sub s sub = Some i \<Longrightarrow> i + length sub \<le> length s \<and> s = take i s @ sub @ drop (i + length sub) s"
proof (induction s sub arbitrary: i rule: find_sub.induct)
  case (2 x xs sub)
  show ?case
  proof (cases "starts_with (x # xs) sub")
    case True
    then obtain t where "x # xs = sub @ t" by (auto simp: starts_with_iff)
    with True 2 show ?thesis by (metis append_Nil append_eq_conv_conj drop0 find_sub.simps(2) le_add1
      length_append option.inject add_0 take0)
  qed (use 2 in auto)
qed (auto split: if_splits)

lemma find_sub_None: "find_sub s sub = None \<longleftrightarrow> \<not> (\<exists>u v. s = u @ sub @ v)"
proof (induction s sub rule: find_sub.induct)
  case (2 x xs sub)
  have "(\<exists>u v. x # xs = u @ sub @ v) \<longleftrightarrow> starts_with (x # xs) sub \<or> (\<exists>u v. xs = u @ sub @ v)"
    unfolding starts_with_iff by (metis append_Cons append_Nil neq_Nil_conv list.inject)
  with 2 show ?case by auto
qed auto

lemma contains_iff: "contains s sub \<longleftrightarrow> (\<exists>u v. s = u @ sub @ v)"
  using find_sub_None [of s sub] by (auto simp: contains_def)

lemma find_sub_char_None [simp]: "find_sub s [c] = None \<longleftrightarrow> c \<notin> set s"
  by (auto simp: find_sub_None in_set_conv_decomp)

lemma find_sub_char_Some: "find_sub s [c] = Some i \<longleftrightarrow> i < length s \<and> s ! i = c \<and> c \<notin> set (take i s)"
proof (induction s arbitrary: i)
  case (Cons x xs)
  then show ?case by (cases i) auto
qed simp

lemma split_sub_not_Nil [simp]: "split_sub sep s \<noteq> []"
  by (subst split_sub.simps) (auto split: option.splits)

lemma strip_no_space: "strip s = [] \<longleftrightarrow> (\<forall>c \<in> set s. py_space c)"
proof
  assume "strip s = []"
  then have "\<forall>c \<in> set (dropWhile py_space s). py_space c"
    by (simp add: strip_def lstrip_def rstrip_def dropWhile_eq_Nil_conv)
  then have "dropWhile py_space s = []" by (metis hd_dropWhile hd_in_set)
  then show "\<forall>c \<in> set s. py_space c" by (simp add: dropWhile_eq_Nil_conv)
qed (auto simp: strip_def lstrip_def rstrip_def dropWhile_eq_Nil_conv dest: set_dropWhileD)

lemma length_lstrip [len_le]: "length (lstrip s) \<le> length s"
  by (simp add: lstrip_def length_dropWhile_le)

lemma length_rstrip [len_le]: "length (rstrip s) \<le> length s"
  unfolding rstrip_def by (metis length_dropWhile_le length_rev)

lemma length_strip [len_le]: "length (strip s) \<le> length s"
  unfolding strip_def using length_lstrip length_rstrip le_trans by blast

lemma set_replace_sub: "set (replace_sub old new s) \<subseteq> set s \<union> set new"
proof (induction old new s rule: replace_sub.induct)
  case (1 old new s)
  show ?case
    using "1.IH" set_drop_subset [of "length old" s]
    by (subst replace_sub.simps) (fastforce split: list.splits if_splits)
qed

lemma replace_sub_absent: "\<not> contains s old \<Longrightarrow> replace_sub old new s = s"
proof (induction s)
  case (Cons x xs)
  then have "\<not> starts_with (x # xs) old" "\<not> contains xs old"
    by (auto simp: contains_iff starts_with_iff Cons_eq_append_conv)
  with Cons.IH show ?case by (subst replace_sub.simps) simp
qed (subst replace_sub.simps, simp)

lemma replace_sub_char: "replace_sub [a] [b] s = map (\<lambda>c. if c = a then b else c) s"
proof (induction s)
  case (Cons x xs)
  then show ?case by (subst replace_sub.simps) simp
qed (subst replace_sub.simps, simp)

lemma py_nth_nat [simp]: "py_nth xs (int i) = (if i < length xs then Some (xs ! i) else None)"
  by (simp add: py_nth_def)

end
