(* ===== verification/PyRe.thy ===== *)
theory PyRe
  imports Prelude
begin

text \<open>
  Python's regular expressions, as far as the build scripts use them. A pattern is a value of
  \<open>re\<close>; \<open>rmatch\<close> lists the ways a pattern can match from a position, in the order in
  which the backtracking engine tries them, so the engine's match is the first of the list. A
  position is the pair of the text before it (reversed) and the text from it on.

  The relation \<open>re_rel\<close> says the same without the order and the groups, and
  \<open>rmatch_rel\<close> relates the two; the component theories reason with the relation and
  evaluate with \<open>rmatch\<close>.
\<close>

section \<open>Patterns\<close>

datatype re =
    Eps                          \<comment> \<open>the empty pattern\<close>
  | Cls "char \<Rightarrow> bool"            \<comment> \<open>one character of a class\<close>
  | Seq re re
  | Alt re re                    \<comment> \<open>\<open>r|s\<close>, the left one first\<close>
  | Star re                      \<comment> \<open>\<open>r*\<close>, greedy\<close>
  | Lazy re                      \<comment> \<open>\<open>r*?\<close>\<close>
  | Grp nat re                   \<comment> \<open>a group with its number\<close>
  | Bol                          \<comment> \<open>\<open>^\<close>\<close>
  | Eol                          \<comment> \<open>\<open>$\<close>: the end, or before a final newline\<close>
  | WordB                        \<comment> \<open>\<open>\b\<close>\<close>
  | LookA re                     \<comment> \<open>\<open>(?=r)\<close>\<close>
  | NegA re                      \<comment> \<open>\<open>(?!r)\<close>\<close>

fun rseq :: "re list \<Rightarrow> re" where
  "rseq [] = Eps"
| "rseq [r] = r"
| "rseq (r # rs) = Seq r (rseq rs)"

fun ralt :: "re list \<Rightarrow> re" where
  "ralt [] = Eps"
| "ralt [r] = r"
| "ralt (r # rs) = Alt r (ralt rs)"

definition rchr :: "char \<Rightarrow> re" where
  "rchr x = Cls (\<lambda>c. c = x)"

definition rlit :: "string \<Rightarrow> re" where
  "rlit s = rseq (map rchr s)"

definition ropt :: "re \<Rightarrow> re" where
  "ropt r = Alt r Eps"

definition rplus :: "re \<Rightarrow> re" where
  "rplus r = Seq r (Star r)"

definition rplus_lazy :: "re \<Rightarrow> re" where
  "rplus_lazy r = Seq r (Lazy r)"

text \<open>Classes: \<open>[...]\<close>, \<open>[^...]\<close>, and \<open>.\<close>, \<open>\s\<close>, \<open>\S\<close>, \<open>\w\<close>, \<open>\W\<close>, \<open>\d\<close>.\<close>

definition one_of :: "string \<Rightarrow> re" where
  "one_of cs = Cls (\<lambda>c. c \<in> set cs)"

definition none_of :: "string \<Rightarrow> re" where
  "none_of cs = Cls (\<lambda>c. c \<notin> set cs)"

definition rdot :: re where "rdot = Cls (\<lambda>c. c \<noteq> LF)"
definition rspace :: re where "rspace = Cls py_space"
definition rnonspace :: re where "rnonspace = Cls (\<lambda>c. \<not> py_space c)"
definition rword :: re where "rword = Cls py_word"
definition rnonword :: re where "rnonword = Cls (\<lambda>c. \<not> py_word c)"
definition rdigit :: re where "rdigit = Cls py_digit"

definition spaces :: re where "spaces = Star rspace"
definition spaces1 :: re where "spaces1 = rplus rspace"

section \<open>Matching\<close>

text \<open>A capture: the number of the group and the (reversed) texts before its start and its end.\<close>

type_synonym caps = "(nat \<times> string \<times> string) list"
type_synonym state = "string \<times> string \<times> caps"

text \<open>\<open>\b\<close> holds where exactly one of the two neighbouring characters is a word character.\<close>

definition at_word_boundary :: "string \<Rightarrow> string \<Rightarrow> bool" where
  "at_word_boundary p q =
     ((case p of [] \<Rightarrow> False | x # _ \<Rightarrow> py_word x) \<noteq> (case q of [] \<Rightarrow> False | x # _ \<Rightarrow> py_word x))"

text \<open>
  A repetition that has matched the empty text is not repeated again: the engine goes on with
  what follows it.
\<close>

function (sequential) rmatch :: "re \<Rightarrow> string \<Rightarrow> string \<Rightarrow> caps \<Rightarrow> state list" where
  "rmatch Eps p q c = [(p, q, c)]"
| "rmatch (Cls f) p q c =
     (case q of [] \<Rightarrow> [] | x # q' \<Rightarrow> if f x then [(x # p, q', c)] else [])"
| "rmatch (Seq r s) p q c =
     concat (map (\<lambda>(p', q', c'). rmatch s p' q' c') (rmatch r p q c))"
| "rmatch (Alt r s) p q c = rmatch r p q c @ rmatch s p q c"
| "rmatch (Star r) p q c =
     concat (map (\<lambda>(p', q', c'). if length q' < length q then rmatch (Star r) p' q' c'
                                else [(p', q', c')]) (rmatch r p q c)) @ [(p, q, c)]"
| "rmatch (Lazy r) p q c =
     (p, q, c) # concat (map (\<lambda>(p', q', c'). if length q' < length q then rmatch (Lazy r) p' q' c'
                                else [(p', q', c')]) (rmatch r p q c))"
| "rmatch (Grp n r) p q c = map (\<lambda>(p', q', c'). (p', q', (n, p, p') # c')) (rmatch r p q c)"
| "rmatch Bol p q c = (if p = [] then [(p, q, c)] else [])"
| "rmatch Eol p q c = (if q = [] \<or> q = [LF] then [(p, q, c)] else [])"
| "rmatch WordB p q c = (if at_word_boundary p q then [(p, q, c)] else [])"
| "rmatch (LookA r) p q c = (case rmatch r p q c of [] \<Rightarrow> [] | (_, _, c') # _ \<Rightarrow> [(p, q, c')])"
| "rmatch (NegA r) p q c = (if rmatch r p q c = [] then [(p, q, c)] else [])"
  by pat_completeness auto
termination
  by (relation "measures [\<lambda>(r, p, q, c). size r, \<lambda>(r, p, q, c). length q]") auto

text \<open>A match object. \<open>m_group m 0\<close> is the text of the match.\<close>

record match_obj =
  m_before :: string   \<comment> \<open>the text before the match, reversed\<close>
  m_upto :: string     \<comment> \<open>the text up to the end of the match, reversed\<close>
  m_rest :: string     \<comment> \<open>the text after the match\<close>
  m_caps :: caps

definition text_between :: "string \<Rightarrow> string \<Rightarrow> string" where
  "text_between p p' = rev (take (length p' - length p) p')"

definition m_group :: "match_obj \<Rightarrow> nat \<Rightarrow> string option" where
  "m_group m n = (if n = 0 then Some (text_between (m_before m) (m_upto m))
     else map_option (\<lambda>(p, p'). text_between p p') (map_of (m_caps m) n))"

definition group_text :: "match_obj \<Rightarrow> nat \<Rightarrow> string" where
  \<comment> \<open>for a group that takes part in every match, or where \<open>None\<close> and the empty text are treated alike\<close>
  "group_text m n = (case m_group m n of None \<Rightarrow> [] | Some s \<Rightarrow> s)"

definition m_start :: "match_obj \<Rightarrow> nat" where
  "m_start m = length (m_before m)"

definition m_end :: "match_obj \<Rightarrow> nat" where
  "m_end m = length (m_upto m)"

definition first_match :: "re \<Rightarrow> string \<Rightarrow> string \<Rightarrow> match_obj option" where
  "first_match r p q = (case rmatch r p q [] of [] \<Rightarrow> None
     | (p', q', c) # _ \<Rightarrow> Some \<lparr>m_before = p, m_upto = p', m_rest = q', m_caps = c\<rparr>)"

fun search_from :: "re \<Rightarrow> string \<Rightarrow> string \<Rightarrow> match_obj option" where
  "search_from r p [] = first_match r p []"
| "search_from r p (x # q) =
     (case first_match r p (x # q) of Some m \<Rightarrow> Some m | None \<Rightarrow> search_from r (x # p) q)"

text \<open>\<open>re.match\<close> and \<open>re.search\<close>, and whether they find anything.\<close>

definition re_match :: "re \<Rightarrow> string \<Rightarrow> match_obj option" where
  "re_match r s = first_match r [] s"

definition re_search :: "re \<Rightarrow> string \<Rightarrow> match_obj option" where
  "re_search r s = search_from r [] s"

definition matches :: "re \<Rightarrow> string \<Rightarrow> bool" where
  "matches r s = (re_match r s \<noteq> None)"

definition found :: "re \<Rightarrow> string \<Rightarrow> bool" where
  "found r s = (re_search r s \<noteq> None)"

text \<open>
  \<open>re.sub\<close> with a replacement computed from the match: after an empty match the next one
  must not be empty or must start later, as in Python 3.7 and after.
\<close>

definition sub_match :: "bool \<Rightarrow> re \<Rightarrow> string \<Rightarrow> string \<Rightarrow> match_obj option" where
  "sub_match moved r p q =
     (case (if moved then rmatch r p q [] else filter (\<lambda>(p', q', c). q' \<noteq> q) (rmatch r p q [])) of
        [] \<Rightarrow> None
      | (p', q', c) # _ \<Rightarrow> Some \<lparr>m_before = p, m_upto = p', m_rest = q', m_caps = c\<rparr>)"

function sub_from :: "bool \<Rightarrow> re \<Rightarrow> (match_obj \<Rightarrow> string) \<Rightarrow> string \<Rightarrow> string \<Rightarrow> string" where
  "sub_from moved r rep p q =
     (case sub_match moved r p q of
        Some m \<Rightarrow> if length (m_rest m) < length q then rep m @ sub_from True r rep (m_upto m) (m_rest m)
                  else if moved then rep m @ sub_from False r rep p q
                  else []
      | None \<Rightarrow> (case q of [] \<Rightarrow> [] | x # q' \<Rightarrow> x # sub_from True r rep (x # p) q'))"
  by pat_completeness auto
termination
  by (relation "measures [\<lambda>(moved, r, rep, p, q). length q, \<lambda>(moved, r, rep, p, q). of_bool moved]") auto

declare sub_from.simps [simp del]

definition re_sub :: "re \<Rightarrow> (match_obj \<Rightarrow> string) \<Rightarrow> string \<Rightarrow> string" where
  "re_sub r rep s = sub_from True r rep [] s"

section \<open>The relation of a pattern\<close>

type_synonym pos = "string \<times> string"

primrec re_rel :: "re \<Rightarrow> (pos \<times> pos) set" where
  "re_rel Eps = Id"
| "re_rel (Cls f) = {((p, x # q), (x # p, q)) | p x q. f x}"
| "re_rel (Seq r s) = re_rel r O re_rel s"
| "re_rel (Alt r s) = re_rel r \<union> re_rel s"
| "re_rel (Star r) = (re_rel r)\<^sup>*"
| "re_rel (Lazy r) = (re_rel r)\<^sup>*"
| "re_rel (Grp n r) = re_rel r"
| "re_rel Bol = {(x, x) | x. fst x = []}"
| "re_rel Eol = {(x, x) | x. snd x = [] \<or> snd x = [LF]}"
| "re_rel WordB = {(x, x) | x. at_word_boundary (fst x) (snd x)}"
| "re_rel (LookA r) = {(x, x) | x. \<exists>y. (x, y) \<in> re_rel r}"
| "re_rel (NegA r) = {(x, x) | x. \<not> (\<exists>y. (x, y) \<in> re_rel r)}"

text \<open>A match only moves forward over the text: it consumes a prefix of what is left.\<close>

definition ahead :: "(pos \<times> pos) set" where
  "ahead = {((p, q), (p', q')) | p q p' q'. \<exists>w. q = w @ q' \<and> p' = rev w @ p}"

lemma aheadI [intro]: "q = w @ q' \<Longrightarrow> p' = rev w @ p \<Longrightarrow> ((p, q), (p', q')) \<in> ahead"
  by (auto simp: ahead_def)

lemma ahead_refl [simp]: "(x, x) \<in> ahead"
  by (cases x) (auto simp: ahead_def)

lemma ahead_trans: "(x, y) \<in> ahead \<Longrightarrow> (y, z) \<in> ahead \<Longrightarrow> (x, z) \<in> ahead"
  by (fastforce simp: ahead_def)

lemma ahead_rtrancl: "R \<subseteq> ahead \<Longrightarrow> R\<^sup>* \<subseteq> ahead"
proof
  fix x assume R: "R \<subseteq> ahead" and "x \<in> R\<^sup>*"
  then have "(fst x, snd x) \<in> R\<^sup>*" by simp
  then have "(fst x, snd x) \<in> ahead"
    by (induction rule: rtrancl_induct) (use R in \<open>auto intro: ahead_trans\<close>)
  then show "x \<in> ahead" by simp
qed

lemma re_rel_ahead: "re_rel r \<subseteq> ahead"
proof (induction r)
  case (Seq r s)
  then show ?case by (auto intro: ahead_trans)
next
  case (Cls f)
  then show ?case by (force simp: ahead_def)
qed (auto dest: ahead_rtrancl)

lemma re_relD: "((p, q), (p', q')) \<in> re_rel r \<Longrightarrow> \<exists>w. q = w @ q' \<and> p' = rev w @ p"
  using re_rel_ahead [of r] by (auto simp: ahead_def)

lemma star_relD: "((p, q), (p', q')) \<in> (re_rel r)\<^sup>* \<Longrightarrow> \<exists>w. q = w @ q' \<and> p' = rev w @ p"
  using re_relD [of p q p' q' "Star r"] by simp

lemma ahead_same_length: "((p, q), (p', q')) \<in> ahead \<Longrightarrow> \<not> length q' < length q \<Longrightarrow> p' = p \<and> q' = q"
  by (auto simp: ahead_def)

text \<open>
  The matches that are listed are those of the relation. For a repetition the proof goes by the
  length of the text that is left: each repetition but the last consumes something.
\<close>

declare rmatch.simps(5,6) [simp del]

lemma mem_continue:
  "x \<in> set (concat (map (\<lambda>(p', q', c'). if length q' < n then g p' q' c' else [(p', q', c')]) ts)) \<longleftrightarrow>
    (\<exists>p1 q1 c1. (p1, q1, c1) \<in> set ts \<and> (if length q1 < n then x \<in> set (g p1 q1 c1) else x = (p1, q1, c1)))"
proof -
  have "x \<in> set (concat (map f ts)) \<longleftrightarrow> (\<exists>p1 q1 c1. (p1, q1, c1) \<in> set ts \<and> x \<in> set (f (p1, q1, c1)))" for f
    by (auto simp: Bex_def split_paired_Ex)
  from this show ?thesis by (rule trans) (intro iff_exI, simp)
qed

lemma star_mem:
  "x \<in> set (rmatch (Star r) p q c) \<longleftrightarrow> x = (p, q, c) \<or>
    (\<exists>p1 q1 c1. (p1, q1, c1) \<in> set (rmatch r p q c) \<and>
      (if length q1 < length q then x \<in> set (rmatch (Star r) p1 q1 c1) else x = (p1, q1, c1)))"
  by (subst rmatch.simps(5)) (simp only: set_append Un_iff mem_continue list.set insert_iff empty_iff simp_thms, rule disj_commute)

lemma lazy_mem:
  "x \<in> set (rmatch (Lazy r) p q c) \<longleftrightarrow> x = (p, q, c) \<or>
    (\<exists>p1 q1 c1. (p1, q1, c1) \<in> set (rmatch r p q c) \<and>
      (if length q1 < length q then x \<in> set (rmatch (Lazy r) p1 q1 c1) else x = (p1, q1, c1)))"
  by (subst rmatch.simps(6)) (simp only: list.set insert_iff mem_continue)

lemma star_members: "x \<in> set (rmatch (Star r) p q c) \<longleftrightarrow> x \<in> set (rmatch (Lazy r) p q c)"
proof (induction "length q" arbitrary: p q c rule: less_induct)
  case less
  show ?case
    unfolding star_mem [of x r p q c] lazy_mem [of x r p q c] using less.hyps by meson
qed

lemma star_sound:
  assumes r: "\<And>p q c p' q' c'. (p', q', c') \<in> set (rmatch r p q c) \<Longrightarrow> ((p, q), (p', q')) \<in> re_rel r"
  shows "(p', q', c') \<in> set (rmatch (Star r) p q c) \<Longrightarrow> ((p, q), (p', q')) \<in> (re_rel r)\<^sup>*"
proof (induction "length q" arbitrary: p q c rule: less_induct)
  case less
  from less.prems consider "(p', q') = (p, q)" | "(p', q', c') \<in> set (rmatch r p q c)"
    | p1 q1 c1 where "(p1, q1, c1) \<in> set (rmatch r p q c)" "length q1 < length q"
        "(p', q', c') \<in> set (rmatch (Star r) p1 q1 c1)"
    unfolding star_mem [of _ r p q c] by (auto split: if_splits)
  then show ?case
  proof cases
    case 3
    from r [OF 3(1)] less.hyps [OF 3(2,3)] show ?thesis by (rule converse_rtrancl_into_rtrancl)
  qed (auto dest: r)
qed

lemma star_complete:
  assumes r: "\<And>p q c p' q'. ((p, q), (p', q')) \<in> re_rel r \<Longrightarrow> \<exists>c'. (p', q', c') \<in> set (rmatch r p q c)"
  shows "((p, q), (p', q')) \<in> (re_rel r)\<^sup>* \<Longrightarrow> \<exists>c'. (p', q', c') \<in> set (rmatch (Star r) p q c)"
proof (induction arbitrary: c rule: converse_rtrancl_induct2)
  case refl
  then show ?case unfolding star_mem [of _ r p' q' c] by blast
next
  case (step p q p1 q1)
  show ?case
  proof (cases "length q1 < length q")
    case True
    from r [OF step.hyps(1)] obtain c1 where 1: "(p1, q1, c1) \<in> set (rmatch r p q c)" by blast
    from step.IH obtain c' where "(p', q', c') \<in> set (rmatch (Star r) p1 q1 c1)" by blast
    with 1 True show ?thesis unfolding star_mem [of _ r p q c] by auto
  next
    case False
    from step.hyps(1) re_rel_ahead have "((p, q), (p1, q1)) \<in> ahead" by blast
    from ahead_same_length [OF this False] step.IH show ?thesis by simp
  qed
qed

lemma look_rel:
  assumes "\<And>p' q'. (\<exists>c'. (p', q', c') \<in> set (rmatch r p q c)) \<longleftrightarrow> ((p, q), (p', q')) \<in> re_rel r"
  shows "rmatch r p q c = [] \<longleftrightarrow> \<not> (\<exists>y. ((p, q), y) \<in> re_rel r)"
proof
  assume "rmatch r p q c = []"
  with assms show "\<not> (\<exists>y. ((p, q), y) \<in> re_rel r)" by auto
next
  assume none: "\<not> (\<exists>y. ((p, q), y) \<in> re_rel r)"
  show "rmatch r p q c = []"
  proof (cases "rmatch r p q c")
    case (Cons t ts)
    with assms [of "fst t" "fst (snd t)"] none show ?thesis
      by (metis list.set_intros(1) prod.collapse)
  qed
qed

theorem rmatch_rel:
  "(\<exists>c'. (p', q', c') \<in> set (rmatch r p q c)) \<longleftrightarrow> ((p, q), (p', q')) \<in> re_rel r"
proof (induction r arbitrary: p q c p' q')
  case (Cls f)
  show ?case by (auto split: list.splits)
next
  case (Seq r s)
  show ?case
    by (auto simp: relcomp_unfold Seq.IH(1) [symmetric, of _ _ _ _ c]) (metis Seq.IH(2))+
next
  case (Alt r s)
  show ?case by (auto simp flip: Alt.IH [of _ _ _ _ c])
next
  case (Star r)
  show ?case using star_sound [of r] star_complete [of r] Star.IH by (metis re_rel.simps(5))
next
  case (Lazy r)
  show ?case using star_sound [of r] star_complete [of r] Lazy.IH star_members
    by (metis re_rel.simps(6))
next
  case (Grp n r)
  show ?case by (force simp flip: Grp.IH [of _ _ _ _ c])
next
  case (LookA r)
  have "(\<exists>c'. (p', q', c') \<in> set (rmatch (LookA r) p q c)) \<longleftrightarrow> p' = p \<and> q' = q \<and> rmatch r p q c \<noteq> []"
    by (cases "rmatch r p q c") auto
  then show ?case using look_rel [OF LookA.IH, of p q c] by auto
next
  case (NegA r)
  show ?case using look_rel [OF NegA.IH, of p q c] by auto
qed auto

lemma rmatch_Nil: "rmatch r p q c = [] \<longleftrightarrow> \<not> (\<exists>y. ((p, q), y) \<in> re_rel r)"
  by (rule look_rel) (rule rmatch_rel)

lemma rmatch_ahead: "(p', q', c') \<in> set (rmatch r p q c) \<Longrightarrow> \<exists>w. q = w @ q' \<and> p' = rev w @ p"
  using rmatch_rel re_relD by metis

section \<open>Facts about matches\<close>

lemma first_match_None: "first_match r p q = None \<longleftrightarrow> \<not> (\<exists>y. ((p, q), y) \<in> re_rel r)"
  unfolding rmatch_Nil [of r p q "[]", symmetric] by (auto simp: first_match_def split: list.splits)

lemma first_match_Some:
  assumes "first_match r p q = Some m"
  obtains w where "q = w @ m_rest m" "m_upto m = rev w @ p" "m_before m = p"
    "((p, q), (m_upto m, m_rest m)) \<in> re_rel r"
proof -
  from assms obtain p' q' c ts where t: "rmatch r p q [] = (p', q', c) # ts"
      "m = \<lparr>m_before = p, m_upto = p', m_rest = q', m_caps = c\<rparr>"
    by (auto simp: first_match_def split: list.splits prod.splits)
  then have "(p', q', c) \<in> set (rmatch r p q [])" by simp
  then have "((p, q), (p', q')) \<in> re_rel r" "\<exists>w. q = w @ q' \<and> p' = rev w @ p"
    using rmatch_rel rmatch_ahead by blast+
  with t(2) that show ?thesis by auto
qed

lemma matches_rel: "matches r s \<longleftrightarrow> (\<exists>y. (([], s), y) \<in> re_rel r)"
  by (simp add: matches_def re_match_def first_match_None)

lemma search_from_None:
  "search_from r p q = None \<longleftrightarrow> (\<forall>u v. q = u @ v \<longrightarrow> first_match r (rev u @ p) v = None)"
proof (induction r p q rule: search_from.induct)
  case (1 r p)
  then show ?case by simp
next
  case (2 r p x q)
  show ?case
  proof
    assume *: "search_from r p (x # q) = None"
    show "\<forall>u v. x # q = u @ v \<longrightarrow> first_match r (rev u @ p) v = None"
    proof (intro allI impI)
      fix u v assume uv: "x # q = u @ v"
      show "first_match r (rev u @ p) v = None"
        using * 2 uv by (cases u) (auto split: option.splits)
    qed
  next
    assume *: "\<forall>u v. x # q = u @ v \<longrightarrow> first_match r (rev u @ p) v = None"
    then have "first_match r p (x # q) = None" by force
    moreover have "\<forall>u v. q = u @ v \<longrightarrow> first_match r (rev u @ (x # p)) v = None"
    proof (intro allI impI)
      fix u v assume "q = u @ v"
      then show "first_match r (rev u @ (x # p)) v = None"
        using * [rule_format, of "x # u" v] by simp
    qed
    ultimately show "search_from r p (x # q) = None" using 2 by simp
  qed
qed

lemma found_rel: "found r s \<longleftrightarrow> (\<exists>u v y. s = u @ v \<and> ((rev u, v), y) \<in> re_rel r)"
  by (auto simp: found_def re_search_def search_from_None first_match_None)

lemma search_from_Some:
  assumes "search_from r p q = Some m"
  obtains u v where "q = u @ v" "first_match r (rev u @ p) v = Some m"
  using assms
proof (induction r p q arbitrary: thesis rule: search_from.induct)
  case (1 r p)
  then show ?case by force
next
  case (2 r p x q)
  show ?case
  proof (cases "first_match r p (x # q)")
    case None
    with 2 obtain u v where "q = u @ v" "first_match r (rev u @ x # p) v = Some m" by auto
    then show ?thesis using 2(2) [of "x # u" v] by simp
  next
    case (Some m')
    with 2(2) [of "[]" "x # q"] 2(3) show ?thesis by simp
  qed
qed

lemma re_match_text: "re_match r s = Some m \<Longrightarrow> m_before m = [] \<and> s = rev (m_upto m) @ m_rest m"
  by (auto simp: re_match_def elim!: first_match_Some)

lemma re_search_text: "re_search r s = Some m \<Longrightarrow> s = rev (m_upto m) @ m_rest m"
  by (auto simp: re_search_def elim!: search_from_Some first_match_Some)

lemma rel_rseq_Cons [simp]: "re_rel (rseq (r # rs)) = re_rel r O re_rel (rseq rs)"
  by (cases rs) auto

lemma rel_ralt_Cons: "rs \<noteq> [] \<Longrightarrow> re_rel (ralt (r # rs)) = re_rel r \<union> re_rel (ralt rs)"
  by (cases rs) auto

lemma rel_ralt [simp]: "rs \<noteq> [] \<Longrightarrow> re_rel (ralt rs) = (\<Union>r \<in> set rs. re_rel r)"
  by (induction rs rule: ralt.induct) auto

lemma rel_ropt [simp]: "re_rel (ropt r) = re_rel r \<union> Id"
  by (simp add: ropt_def)

lemma rel_rplus [simp]: "re_rel (rplus r) = re_rel r O (re_rel r)\<^sup>*"
  by (simp add: rplus_def)

lemma rel_rlit: "((p, q), (p', q')) \<in> re_rel (rlit s) \<longleftrightarrow> q = s @ q' \<and> p' = rev s @ p"
proof (induction s arbitrary: p q)
  case (Cons x s)
  have "re_rel (rlit (x # s)) = re_rel (rchr x) O re_rel (rlit s)"
    by (simp add: rlit_def del: rseq.simps)
  then show ?case using Cons.IH by (auto simp: rchr_def relcomp_unfold)
qed (auto simp: rlit_def)

lemma rel_rlitE [elim]:
  assumes "(x, y) \<in> re_rel (rlit s)"
  obtains p q where "x = (p, s @ q)" "y = (rev s @ p, q)"
  using assms by (cases x; cases y) (auto simp: rel_rlit)

lemma rel_star_cls:
  "((p, q), (p', q')) \<in> (re_rel (Cls f))\<^sup>* \<longleftrightarrow> (\<exists>w. q = w @ q' \<and> p' = rev w @ p \<and> list_all f w)"
proof
  assume "((p, q), (p', q')) \<in> (re_rel (Cls f))\<^sup>*"
  then show "\<exists>w. q = w @ q' \<and> p' = rev w @ p \<and> list_all f w"
  proof (induction rule: converse_rtrancl_induct2)
    case (step p q p1 q1)
    then obtain x w where "q = x # q1" "p1 = x # p" "f x" "q1 = w @ q'" "p' = rev w @ p1" "list_all f w"
      by auto
    then have "q = (x # w) @ q' \<and> p' = rev (x # w) @ p \<and> list_all f (x # w)" by simp
    then show ?case by blast
  qed simp
next
  assume "\<exists>w. q = w @ q' \<and> p' = rev w @ p \<and> list_all f w"
  then obtain w where "q = w @ q'" "p' = rev w @ p" "list_all f w" by blast
  then show "((p, q), (p', q')) \<in> (re_rel (Cls f))\<^sup>*"
  proof (induction w arbitrary: p q)
    case (Cons x w)
    then have "((x # p, w @ q'), (p', q')) \<in> (re_rel (Cls f))\<^sup>*" by simp
    moreover have "((p, q), (x # p, w @ q')) \<in> re_rel (Cls f)" using Cons.prems by auto
    ultimately show ?case by (rule converse_rtrancl_into_rtrancl [rotated])
  qed simp
qed

text \<open>A search skips the positions at which there is no match.\<close>

lemma search_from_skip:
  "(\<And>u v. pre = u @ v \<Longrightarrow> v \<noteq> [] \<Longrightarrow> first_match r (rev u @ p) (v @ q) = None) \<Longrightarrow>
   search_from r p (pre @ q) = search_from r (rev pre @ p) q"
proof (induction pre arbitrary: p)
  case (Cons x pre)
  have "first_match r p (x # pre @ q) = None" using Cons.prems [of "[]" "x # pre"] by simp
  moreover have "search_from r (x # p) (pre @ q) = search_from r (rev pre @ x # p) q"
  proof (rule Cons.IH)
    fix u v assume "pre = u @ v" "v \<noteq> []"
    then show "first_match r (rev u @ x # p) (v @ q) = None" using Cons.prems [of "x # u" v] by simp
  qed
  ultimately show ?case by simp
qed simp

section \<open>Groups\<close>

text \<open>
  For a pattern without groups, being listed is the relation. A pattern with groups is taken
  apart with \<open>group_mem\<close>: it says which texts its groups hold.
\<close>

primrec groupless :: "re \<Rightarrow> bool" where
  "groupless Eps = True"
| "groupless (Cls f) = True"
| "groupless (Seq r s) = (groupless r \<and> groupless s)"
| "groupless (Alt r s) = (groupless r \<and> groupless s)"
| "groupless (Star r) = groupless r"
| "groupless (Lazy r) = groupless r"
| "groupless (Grp n r) = False"
| "groupless Bol = True"
| "groupless Eol = True"
| "groupless WordB = True"
| "groupless (LookA r) = groupless r"
| "groupless (NegA r) = True"

lemma groupless_rseq [simp]: "groupless (rseq rs) = list_all groupless rs"
  by (induction rs rule: rseq.induct) auto

lemma groupless_ralt [simp]: "groupless (ralt rs) = list_all groupless rs"
  by (induction rs rule: ralt.induct) auto

lemma groupless_basic [simp]:
  "groupless (rchr x)" "groupless (rlit s)" "groupless (one_of cs)" "groupless (none_of cs)"
  "groupless rdot" "groupless rspace" "groupless rnonspace" "groupless rword" "groupless rnonword"
  "groupless rdigit" "groupless spaces" "groupless spaces1"
  "groupless (ropt r) = groupless r" "groupless (rplus r) = groupless r" "groupless (rplus_lazy r) = groupless r"
  by (auto simp: rchr_def rlit_def one_of_def none_of_def rdot_def rspace_def rnonspace_def rword_def
    rnonword_def rdigit_def spaces_def spaces1_def ropt_def rplus_def rplus_lazy_def list_all_iff)

lemma star_groups:
  assumes "\<And>p q c p' q' c'. (p', q', c') \<in> set (rmatch r p q c) \<Longrightarrow> c' = c"
  shows "(p', q', c') \<in> set (rmatch (Star r) p q c) \<Longrightarrow> c' = c"
proof (induction "length q" arbitrary: p q c rule: less_induct)
  case less
  from less.prems show ?case
    unfolding star_mem [of _ r p q c] using less.hyps assms by (metis prod.inject)
qed

lemma groupless_caps: "groupless r \<Longrightarrow> (p', q', c') \<in> set (rmatch r p q c) \<Longrightarrow> c' = c"
proof (induction r arbitrary: p q c p' q' c')
  case (Cls f)
  then show ?case by (auto split: list.splits if_splits)
next
  case (Seq r s)
  then show ?case by fastforce
next
  case (Star r)
  then show ?case using star_groups [of r] by (metis groupless.simps(5))
next
  case (Lazy r)
  then show ?case using star_groups [of r] star_members by (metis groupless.simps(6))
next
  case (LookA r)
  from LookA.prems(2) obtain p1 q1 ts where "rmatch r p q c = (p1, q1, c') # ts"
    by (cases "rmatch r p q c") auto
  then have "(p1, q1, c') \<in> set (rmatch r p q c)" by simp
  with LookA show ?case by auto
qed (auto split: if_splits)

lemma groupless_mem:
  "groupless r \<Longrightarrow> (p', q', c') \<in> set (rmatch r p q c) \<longleftrightarrow> c' = c \<and> ((p, q), (p', q')) \<in> re_rel r"
  using groupless_caps rmatch_rel by metis

lemma seq_mem:
  "x \<in> set (rmatch (Seq r s) p q c) \<longleftrightarrow>
     (\<exists>p1 q1 c1. (p1, q1, c1) \<in> set (rmatch r p q c) \<and> x \<in> set (rmatch s p1 q1 c1))"
  by (auto simp: Bex_def split_paired_Ex)

lemma rseq_mem:
  "x \<in> set (rmatch (rseq (r # rs)) p q c) \<longleftrightarrow>
     (\<exists>p1 q1 c1. (p1, q1, c1) \<in> set (rmatch r p q c) \<and> x \<in> set (rmatch (rseq rs) p1 q1 c1))"
proof (cases rs)
  case Nil
  then show ?thesis by (cases x) auto
next
  case (Cons r' rs')
  then show ?thesis by (simp only: rseq.simps seq_mem)
qed

lemma grp_mem:
  "(p', q', c') \<in> set (rmatch (Grp n r) p q c) \<longleftrightarrow>
     (\<exists>c1. (p', q', c1) \<in> set (rmatch r p q c) \<and> c' = (n, p, p') # c1)"
  by force

lemma rmatch_rseq_Nil: "rmatch (rseq []) p q c = [(p, q, c)]"
  by simp

lemmas group_mem = rseq_mem grp_mem groupless_mem rmatch_rseq_Nil

lemma first_match_mem:
  "first_match r p q = Some m \<Longrightarrow> (m_upto m, m_rest m, m_caps m) \<in> set (rmatch r p q [])"
  by (auto simp: first_match_def split: list.splits)

lemma re_match_mem:
  "re_match r s = Some m \<Longrightarrow> m_before m = [] \<and> (m_upto m, m_rest m, m_caps m) \<in> set (rmatch r [] s [])"
  by (auto simp: re_match_def first_match_def split: list.splits)

lemma text_between_rev [simp]: "text_between p (rev w @ p) = w"
  by (simp add: text_between_def)

lemma text_between_Cons [simp]: "text_between p (x # p) = [x]" "text_between p (x # rev w @ p) = w @ [x]"
  by (simp_all add: text_between_def)

lemma text_between_Nil [simp]: "text_between [] p = rev p"
  by (simp add: text_between_def)

declare re_rel.simps(2) [simp del]

lemma rel_cls [simp]: "((p, q), (p', q')) \<in> re_rel (Cls f) \<longleftrightarrow> (\<exists>x. f x \<and> q = x # q' \<and> p' = x # p)"
  by (auto simp: re_rel.simps(2))

lemma rel_basic [simp]:
  "((p, q), (p', q')) \<in> re_rel (rchr x) \<longleftrightarrow> q = x # q' \<and> p' = x # p"
  "((p, q), (p', q')) \<in> re_rel rdot \<longleftrightarrow> (\<exists>x. x \<noteq> LF \<and> q = x # q' \<and> p' = x # p)"
  "((p, q), (p', q')) \<in> re_rel (one_of cs) \<longleftrightarrow> (\<exists>x \<in> set cs. q = x # q' \<and> p' = x # p)"
  "((p, q), (p', q')) \<in> re_rel (none_of cs) \<longleftrightarrow> (\<exists>x. x \<notin> set cs \<and> q = x # q' \<and> p' = x # p)"
  "((p, q), (p', q')) \<in> re_rel rnonspace \<longleftrightarrow> (\<exists>x. \<not> py_space x \<and> q = x # q' \<and> p' = x # p)"
  "((p, q), (p', q')) \<in> re_rel rspace \<longleftrightarrow> (\<exists>x. py_space x \<and> q = x # q' \<and> p' = x # p)"
  by (auto simp: rchr_def rdot_def one_of_def none_of_def rnonspace_def rspace_def)

lemma rel_stars [simp]:
  "((p, q), (p', q')) \<in> (re_rel (Cls f))\<^sup>* \<longleftrightarrow> (\<exists>w. q = w @ q' \<and> p' = rev w @ p \<and> list_all f w)"
  "((p, q), (p', q')) \<in> (re_rel rdot)\<^sup>* \<longleftrightarrow> (\<exists>w. q = w @ q' \<and> p' = rev w @ p \<and> LF \<notin> set w)"
  "((p, q), (p', q')) \<in> (re_rel (none_of cs))\<^sup>* \<longleftrightarrow> (\<exists>w. q = w @ q' \<and> p' = rev w @ p \<and> set w \<inter> set cs = {})"
  "((p, q), (p', q')) \<in> (re_rel (rchr x))\<^sup>* \<longleftrightarrow> (\<exists>n. q = replicate n x @ q' \<and> p' = replicate n x @ p)"
  "((p, q), (p', q')) \<in> re_rel spaces \<longleftrightarrow> (\<exists>w. q = w @ q' \<and> p' = rev w @ p \<and> list_all py_space w)"
proof -
  show 1: "((p, q), (p', q')) \<in> (re_rel (Cls f))\<^sup>* \<longleftrightarrow> (\<exists>w. q = w @ q' \<and> p' = rev w @ p \<and> list_all f w)" for f
    by (rule rel_star_cls)
  show "((p, q), (p', q')) \<in> (re_rel rdot)\<^sup>* \<longleftrightarrow> (\<exists>w. q = w @ q' \<and> p' = rev w @ p \<and> LF \<notin> set w)"
    unfolding rdot_def 1 by (intro ex_cong1) (auto simp: list_all_iff)
  show "((p, q), (p', q')) \<in> (re_rel (none_of cs))\<^sup>* \<longleftrightarrow> (\<exists>w. q = w @ q' \<and> p' = rev w @ p \<and> set w \<inter> set cs = {})"
    unfolding none_of_def 1 by (intro ex_cong1) (auto simp: list_all_iff)
  have "list_all (\<lambda>c. c = x) w \<longleftrightarrow> w = replicate (length w) x" for w
    by (simp add: list_all_iff) (metis replicate_eqI in_set_replicate)
  then show "((p, q), (p', q')) \<in> (re_rel (rchr x))\<^sup>* \<longleftrightarrow> (\<exists>n. q = replicate n x @ q' \<and> p' = replicate n x @ p)"
    unfolding rchr_def 1 by (metis length_replicate rev_replicate)
  show "((p, q), (p', q')) \<in> re_rel spaces \<longleftrightarrow> (\<exists>w. q = w @ q' \<and> p' = rev w @ p \<and> list_all py_space w)"
    unfolding spaces_def rspace_def re_rel.simps(5) by (rule 1)
qed

end
