(* ===== verification/LintTables.thy ===== *)
theory LintTables
  imports PyRe
begin

text \<open>
  The constant tables and patterns at the head of \<open>build_support/cpplint.py\<close>: the error
  categories, the default filters, the C++ headers, the type names, the replacement tables of
  the assertion macros and of the alternative tokens, the kinds of header, the states of inline
  assembly, and the patterns that are compiled when the module is loaded.
\<close>

section \<open>Error categories and filters\<close>

definition ERROR_CATEGORIES :: "string list" where
  "ERROR_CATEGORIES = [''build/class'', ''build/c++11'', ''build/c++14'', ''build/c++tr1'', ''build/deprecated'',
    ''build/endif_comment'', ''build/explicit_make_pair'', ''build/forward_decl'',
    ''build/header_guard'', ''build/include'', ''build/include_subdir'',
    ''build/include_alpha'', ''build/include_order'', ''build/include_what_you_use'',
    ''build/namespaces_literals'', ''build/namespaces'', ''build/printf_format'',
    ''build/storage_class'', ''legal/copyright'', ''readability/alt_tokens'',
    ''readability/braces'', ''readability/casting'', ''readability/check'',
    ''readability/constructors'', ''readability/fn_size'', ''readability/inheritance'',
    ''readability/multiline_comment'', ''readability/multiline_string'',
    ''readability/namespace'', ''readability/nolint'', ''readability/nul'',
    ''readability/strings'', ''readability/todo'', ''readability/utf8'', ''runtime/arrays'',
    ''runtime/casting'', ''runtime/explicit'', ''runtime/int'', ''runtime/init'',
    ''runtime/invalid_increment'', ''runtime/member_string_references'', ''runtime/memset'',
    ''runtime/indentation_namespace'', ''runtime/operator'', ''runtime/printf'',
    ''runtime/printf_format'', ''runtime/references'', ''runtime/string'',
    ''runtime/threadsafe_fn'', ''runtime/vlog'', ''whitespace/blank_line'',
    ''whitespace/braces'', ''whitespace/comma'', ''whitespace/comments'',
    ''whitespace/empty_conditional_body'', ''whitespace/empty_if_body'',
    ''whitespace/empty_loop_body'', ''whitespace/end_of_line'', ''whitespace/ending_newline'',
    ''whitespace/forcolon'', ''whitespace/indent'', ''whitespace/line_length'',
    ''whitespace/newline'', ''whitespace/operators'', ''whitespace/parens'',
    ''whitespace/semicolon'', ''whitespace/tab'', ''whitespace/todo'']"

definition LEGACY_ERROR_CATEGORIES :: "string list" where
  "LEGACY_ERROR_CATEGORIES = [''readability/streams'', ''readability/function'']"

definition DEFAULT_FILTERS :: "string list" where
  "DEFAULT_FILTERS = [''-build/include_alpha'']"

definition DEFAULT_C_SUPPRESSED_CATEGORIES :: "string list" where
  "DEFAULT_C_SUPPRESSED_CATEGORIES = [''readability/casting'']"

definition DEFAULT_KERNEL_SUPPRESSED_CATEGORIES :: "string list" where
  "DEFAULT_KERNEL_SUPPRESSED_CATEGORIES = [''whitespace/tab'']"

section \<open>Headers and types\<close>

definition CPP_HEADERS :: "string list" where
  "CPP_HEADERS = [''algobase.h'', ''algo.h'', ''alloc.h'', ''builtinbuf.h'', ''bvector.h'', ''complex.h'',
    ''defalloc.h'', ''deque.h'', ''editbuf.h'', ''fstream.h'', ''function.h'', ''hash_map'',
    ''hash_map.h'', ''hash_set'', ''hash_set.h'', ''hashtable.h'', ''heap.h'', ''indstream.h'',
    ''iomanip.h'', ''iostream.h'', ''istream.h'', ''iterator.h'', ''list.h'', ''map.h'',
    ''multimap.h'', ''multiset.h'', ''ostream.h'', ''pair.h'', ''parsestream.h'',
    ''pfstream.h'', ''procbuf.h'', ''pthread_alloc'', ''pthread_alloc.h'', ''rope'', ''rope.h'',
    ''ropeimpl.h'', ''set.h'', ''slist'', ''slist.h'', ''stack.h'', ''stdiostream.h'',
    ''stl_alloc.h'', ''stl_relops.h'', ''streambuf.h'', ''stream.h'', ''strfile.h'',
    ''strstream.h'', ''tempbuf.h'', ''tree.h'', ''type_traits.h'', ''vector.h'', ''algorithm'',
    ''array'', ''atomic'', ''bitset'', ''chrono'', ''codecvt'', ''complex'',
    ''condition_variable'', ''deque'', ''exception'', ''forward_list'', ''fstream'',
    ''functional'', ''future'', ''initializer_list'', ''iomanip'', ''ios'', ''iosfwd'',
    ''iostream'', ''istream'', ''iterator'', ''limits'', ''list'', ''locale'', ''map'',
    ''memory'', ''mutex'', ''new'', ''numeric'', ''ostream'', ''queue'', ''random'', ''ratio'',
    ''regex'', ''scoped_allocator'', ''set'', ''sstream'', ''stack'', ''stdexcept'',
    ''streambuf'', ''string'', ''strstream'', ''system_error'', ''thread'', ''tuple'',
    ''typeindex'', ''typeinfo'', ''type_traits'', ''unordered_map'', ''unordered_set'',
    ''utility'', ''valarray'', ''vector'', ''shared_mutex'', ''any'', ''charconv'', ''codecvt'',
    ''execution'', ''filesystem'', ''memory_resource'', ''optional'', ''string_view'',
    ''variant'', ''cassert'', ''ccomplex'', ''cctype'', ''cerrno'', ''cfenv'', ''cfloat'',
    ''cinttypes'', ''ciso646'', ''climits'', ''clocale'', ''cmath'', ''csetjmp'', ''csignal'',
    ''cstdalign'', ''cstdarg'', ''cstdbool'', ''cstddef'', ''cstdint'', ''cstdio'', ''cstdlib'',
    ''cstring'', ''ctgmath'', ''ctime'', ''cuchar'', ''cwchar'', ''cwctype'']"

definition TYPES :: re where
  "TYPES =
    rseq [Bol, ralt [Grp 1 (rseq [rlit ''char'', ropt (Grp 2 (ralt [rlit ''16_t'', rlit
      ''32_t'']))]), rlit ''wchar_t'', rlit ''bool'', rlit ''short'', rlit ''int'', rlit
      ''long'', rlit ''signed'', rlit ''unsigned'', rlit ''float'', rlit ''double'', Grp 3 (ralt
      [rlit ''ptrdiff_t'', rlit ''size_t'', rlit ''max_align_t'', rlit ''nullptr_t'']), Grp 4
      (rseq [ropt (rchr (CHR ''u'')), rlit ''int'', ropt (Grp 5 (rseq [rchr (CHR ''_''), ralt
      [rlit ''fast'', rlit ''least'']])), Grp 6 (ralt [rchr (CHR ''8''), rlit ''16'', rlit
      ''32'', rlit ''64'']), rlit ''_t'']), Grp 7 (rseq [ropt (rchr (CHR ''u'')), rlit ''int'',
      Grp 8 (ralt [rlit ''max'', rlit ''ptr'']), rlit ''_t'']), Eps], Eol]"

definition THIRD_PARTY_HEADERS_PATTERN :: re where
  "THIRD_PARTY_HEADERS_PATTERN =
    rseq [Bol, ralt [rseq [Star (none_of ''/''), Cls (\<lambda>c. ascii_upper c), Star (none_of
      ''/''), rlit ''.h''], rlit ''lua.h'', rlit ''lauxlib.h'', rlit ''lualib.h''], Eol]"

text \<open>The suffixes of the names of test files.\<close>

definition test_suffixes :: "string list" where
  "test_suffixes = [''_test'', ''_regtest'', ''_unittest'']"

definition TEST_FILE_SUFFIX :: re where
  "TEST_FILE_SUFFIX = rseq [Grp 1 (ralt (map rlit test_suffixes)), Eol]"

text \<open>With DOTALL; \<open>\s\<close> and \<open>$\<close> do not depend on it.\<close>

definition EMPTY_CONDITIONAL_BODY_PATTERN :: re where
  "EMPTY_CONDITIONAL_BODY_PATTERN = rseq [Bol, spaces, Eol]"

section \<open>Replacements\<close>

definition CHECK_MACROS :: "string list" where
  "CHECK_MACROS = [''DCHECK'', ''CHECK'', ''EXPECT_TRUE'', ''ASSERT_TRUE'', ''EXPECT_FALSE'', ''ASSERT_FALSE'']"

text \<open>The two lists over which the module fills \<open>_CHECK_REPLACEMENT\<close>.\<close>

definition check_ops :: "(string \<times> string) list" where
  "check_ops = [(''=='', ''EQ''), (''!='', ''NE''), (''>='', ''GE''), (''>'', ''GT''), (''<='', ''LE''), (''<'', ''LT'')]"

definition check_inverse_ops :: "(string \<times> string) list" where
  "check_inverse_ops = [(''=='', ''NE''), (''!='', ''EQ''), (''>='', ''LT''), (''>'', ''LE''), (''<='', ''GT''), (''<'', ''GE'')]"

definition with_prefix :: "string \<Rightarrow> (string \<times> string) list \<Rightarrow> (string \<times> string) list" where
  "with_prefix pre ops = map (\<lambda>(op, r). (op, pre @ r)) ops"

definition CHECK_REPLACEMENT :: "(string \<times> (string \<times> string) list) list" where
  "CHECK_REPLACEMENT =
    [(''DCHECK'', with_prefix ''DCHECK_'' check_ops),
     (''CHECK'', with_prefix ''CHECK_'' check_ops),
     (''EXPECT_TRUE'', with_prefix ''EXPECT_'' check_ops),
     (''ASSERT_TRUE'', with_prefix ''ASSERT_'' check_ops),
     (''EXPECT_FALSE'', with_prefix ''EXPECT_'' check_inverse_ops),
     (''ASSERT_FALSE'', with_prefix ''ASSERT_'' check_inverse_ops)]"

definition ALT_TOKEN_REPLACEMENT :: "(string \<times> string) list" where
  "ALT_TOKEN_REPLACEMENT =
    [(''and'', ''&&''), (''bitor'', ''|''), (''or'', ''||''), (''xor'', ''^''), (''compl'', ''~''),
     (''bitand'', ''&''), (''and_eq'', ''&=''), (''or_eq'', ''|=''), (''xor_eq'', ''^=''),
     (''not'', ''!''), (''not_eq'', ''!='')]"

definition ALT_TOKEN_REPLACEMENT_PATTERN :: re where
  "ALT_TOKEN_REPLACEMENT_PATTERN =
    rseq [one_of '' =()'', Grp 1 (ralt (map (\<lambda>(tok, _). rlit tok) ALT_TOKEN_REPLACEMENT)),
      LookA (ralt [one_of '' ('', Eol])]"

section \<open>Kinds of header and inline assembly\<close>

datatype header_type =
    C_SYS_HEADER | CPP_SYS_HEADER | LIKELY_MY_HEADER | POSSIBLE_MY_HEADER | OTHER_HEADER

datatype asm_state =
    NO_ASM       \<comment> \<open>outside of an inline assembly block\<close>
  | INSIDE_ASM   \<comment> \<open>inside an inline assembly block\<close>
  | END_ASM      \<comment> \<open>the last line of an inline assembly block\<close>
  | BLOCK_ASM    \<comment> \<open>the whole block is an inline assembly block\<close>

definition MATCH_ASM :: re where
  "MATCH_ASM =
    rseq [Bol, spaces, ralt [rlit ''asm'', rlit ''_asm'', rlit ''__asm'', rlit ''__asm__''],
      ropt (rseq [spaces1, Grp 1 (ralt [rlit ''volatile'', rlit ''__volatile__''])]),
      spaces, one_of ''{('']"

section \<open>Directives for C and kernel files\<close>

definition SEARCH_C_FILE :: re where
  "SEARCH_C_FILE =
    rseq [WordB, ralt [rlit ''LINT_C_FILE'',
      rseq [rlit ''vi'', ropt (rchr (CHR ''m'')), rchr (CHR '':''), spaces, Star rdot,
        Grp 1 (ralt [spaces, rchr (CHR '':'')]), rlit ''filetype=c'',
        Grp 2 (ralt [spaces, rchr (CHR '':''), Eol])]]]"

definition SEARCH_KERNEL_FILE :: re where
  "SEARCH_KERNEL_FILE = rseq [WordB, rlit ''LINT_KERNEL_FILE'']"

section \<open>Include directives\<close>

definition RE_PATTERN_INCLUDE :: re where
  "RE_PATTERN_INCLUDE =
    rseq [Bol, spaces, rchr (CHR ''#''), spaces, rlit ''include'', spaces, Grp 1 (one_of [CHR ''<'', DQ]),
      Grp 2 (Star (none_of [CHR ''>'', DQ])), one_of [CHR ''>'', DQ], Star rdot, Eol]"

end
