(* ===== verification/Suppress.thy ===== *)
theory Suppress
  imports LintTables
begin

text \<open>
  File extensions and error suppression (\<open>cpplint.py\<close>, the options \<open>--headers\<close> and
  \<open>--extensions\<close>, and the NOLINT comments). A check does not write to the suppression tables
  or to the error stream itself here: it yields the list of its effects in the order in which
  the code has them, which \<open>LintState\<close> then performs.
\<close>

section \<open>File extensions\<close>

record extension_options =
  hpp_headers :: "string set"
  valid_extensions :: "string set"

definition initial_extension_options :: extension_options where
  "initial_extension_options = \<lparr>hpp_headers = {}, valid_extensions = {}\<rparr>"

definition ProcessHppHeadersOption :: "string \<Rightarrow> extension_options \<Rightarrow> extension_options" where
  "ProcessHppHeadersOption val opts = opts\<lparr>hpp_headers := set (map strip (split_sub '','' val))\<rparr>"

definition ProcessExtensionsOption :: "string \<Rightarrow> extension_options \<Rightarrow> extension_options" where
  "ProcessExtensionsOption val opts = opts\<lparr>valid_extensions := set (map strip (split_sub '','' val))\<rparr>"

definition GetHeaderExtensions :: "extension_options \<Rightarrow> string set" where
  "GetHeaderExtensions opts =
     (if hpp_headers opts \<noteq> {} then hpp_headers opts
      else if valid_extensions opts \<noteq> {} then {h \<in> valid_extensions opts. contains h ''h''}
      else {''h'', ''hh'', ''hpp'', ''hxx'', ''h++'', ''cuh''})"

definition IsHeaderExtension :: "extension_options \<Rightarrow> string \<Rightarrow> bool" where
  "IsHeaderExtension opts file_extension = (file_extension \<in> GetHeaderExtensions opts)"

definition GetAllExtensions :: "extension_options \<Rightarrow> string set" where
  "GetAllExtensions opts = GetHeaderExtensions opts \<union>
     (if valid_extensions opts \<noteq> {} then valid_extensions opts
      else {''c'', ''cc'', ''cpp'', ''cxx'', ''c++'', ''cu''})"

definition GetNonHeaderExtensions :: "extension_options \<Rightarrow> string set" where
  "GetNonHeaderExtensions opts = GetAllExtensions opts - GetHeaderExtensions opts"

definition IsSourceExtension :: "extension_options \<Rightarrow> string \<Rightarrow> bool" where
  "IsSourceExtension opts s = (s \<in> GetNonHeaderExtensions opts)"

section \<open>Effects\<close>

text \<open>
  One call of the error handler. The line is \<open>None\<close> where Python passes \<open>None\<close>.
\<close>

record diag =
  d_filename :: string
  d_linenum :: "int option"
  d_category :: string
  d_confidence :: int
  d_message :: string

definition mk_error :: "string \<Rightarrow> int \<Rightarrow> string \<Rightarrow> int \<Rightarrow> string \<Rightarrow> diag" where
  "mk_error filename linenum category confidence message =
     \<lparr>d_filename = filename, d_linenum = Some linenum, d_category = category,
      d_confidence = confidence, d_message = message\<rparr>"

text \<open>\<open>Suppress None l\<close> suppresses every category on line \<open>l\<close>.\<close>

datatype effect = Suppress "string option" int | Report diag

section \<open>NOLINT comments\<close>

record nolint_state =
  error_suppressions :: "string option \<Rightarrow> int set option"
  global_error_suppressions :: "string \<Rightarrow> bool option"

definition ResetNolintSuppressions :: "nolint_state \<Rightarrow> nolint_state" where
  "ResetNolintSuppressions st =
     st\<lparr>error_suppressions := Map.empty, global_error_suppressions := Map.empty\<rparr>"

text \<open>\<open>_error_suppressions.get(key, set())\<close>, and \<open>setdefault(key, set()).add(line)\<close>.\<close>

definition suppressed_lines :: "nolint_state \<Rightarrow> string option \<Rightarrow> int set" where
  "suppressed_lines st key = (case error_suppressions st key of None \<Rightarrow> {} | Some ls \<Rightarrow> ls)"

definition suppress_line :: "string option \<Rightarrow> int \<Rightarrow> nolint_state \<Rightarrow> nolint_state" where
  "suppress_line key line st =
     st\<lparr>error_suppressions := (error_suppressions st)(key \<mapsto> insert line (suppressed_lines st key))\<rparr>"

definition re_nolint :: re where
  "re_nolint = rseq [WordB, rlit ''NOLINT'', ropt (Grp 1 (rlit ''NEXTLINE'')), WordB,
     ropt (Grp 2 (rseq [rlit ''('', rplus (none_of '')''), rlit '')'']))]"

definition ParseNolintSuppressions :: "string \<Rightarrow> string \<Rightarrow> int \<Rightarrow> effect list" where
  "ParseNolintSuppressions filename raw_line linenum =
     (case re_search re_nolint raw_line of
        None \<Rightarrow> []
      | Some matched \<Rightarrow>
          let suppressed_line = (if group_text matched 1 \<noteq> [] then linenum + 1 else linenum) in
          case m_group matched 2 of
            None \<Rightarrow> [Suppress None suppressed_line]
          | Some category \<Rightarrow>
              if category = ''(*)'' then [Suppress None suppressed_line]
              else if starts_with category ''('' \<and> ends_with category '')'' then
                let category = butlast (tl category) in
                if category \<in> set ERROR_CATEGORIES then [Suppress (Some category) suppressed_line]
                else if category \<notin> set LEGACY_ERROR_CATEGORIES then
                  [Report (mk_error filename linenum ''readability/nolint'' 5
                     (''Unknown NOLINT error category: '' @ category))]
                else []
              else [])"

text \<open>Directives that act on the whole file.\<close>

definition suppress_globally :: "string list \<Rightarrow> nolint_state \<Rightarrow> nolint_state" where
  "suppress_globally categories st = fold (\<lambda>category st.
     st\<lparr>global_error_suppressions := (global_error_suppressions st)(category \<mapsto> True)\<rparr>) categories st"

definition process_global_line :: "string \<Rightarrow> nolint_state \<Rightarrow> nolint_state" where
  "process_global_line line st =
     (let st = (if found SEARCH_C_FILE line then suppress_globally DEFAULT_C_SUPPRESSED_CATEGORIES st else st)
      in if found SEARCH_KERNEL_FILE line then suppress_globally DEFAULT_KERNEL_SUPPRESSED_CATEGORIES st
         else st)"

definition ProcessGlobalSuppresions :: "string list \<Rightarrow> nolint_state \<Rightarrow> nolint_state" where
  "ProcessGlobalSuppresions lines st = fold process_global_line lines st"

definition IsErrorSuppressedByNolint :: "nolint_state \<Rightarrow> string \<Rightarrow> int option \<Rightarrow> bool" where
  "IsErrorSuppressedByNolint st category linenum =
     ((case global_error_suppressions st category of None \<Rightarrow> False | Some b \<Rightarrow> b) \<or>
      (case linenum of None \<Rightarrow> False
       | Some l \<Rightarrow> l \<in> suppressed_lines st (Some category) \<or> l \<in> suppressed_lines st None))"

section \<open>Lemmas\<close>

lemma header_source_disjoint: "GetHeaderExtensions opts \<inter> GetNonHeaderExtensions opts = {}"
  by (auto simp: GetNonHeaderExtensions_def)

lemma suppressed_lines_suppress:
  "suppressed_lines (suppress_line key line st) k =
     (if k = key then insert line (suppressed_lines st key) else suppressed_lines st k)"
  by (simp add: suppress_line_def suppressed_lines_def)

lemma suppressed_lines_reset [simp]: "suppressed_lines (ResetNolintSuppressions st) k = {}"
  by (simp add: suppressed_lines_def ResetNolintSuppressions_def)

lemma suppress_line_global [simp]:
  "global_error_suppressions (suppress_line key line st) = global_error_suppressions st"
  by (simp add: suppress_line_def)

lemma suppressed_after_suppress:
  "IsErrorSuppressedByNolint (suppress_line key line st) category linenum \<longleftrightarrow>
     IsErrorSuppressedByNolint st category linenum \<or>
     linenum = Some line \<and> (key = None \<or> key = Some category)"
  by (auto simp: IsErrorSuppressedByNolint_def suppressed_lines_suppress split: option.splits)

lemma suppress_globally_simps:
  "error_suppressions (suppress_globally cs st) = error_suppressions st"
  "global_error_suppressions (suppress_globally cs st) category =
     (if category \<in> set cs then Some True else global_error_suppressions st category)"
  by (induction cs arbitrary: st) (auto simp: suppress_globally_def)

text \<open>What a NOLINT comment can do: it is at most one effect.\<close>

lemma ParseNolintSuppressions_cases:
  "ParseNolintSuppressions filename raw_line linenum = [] \<or>
   (\<exists>key l. ParseNolintSuppressions filename raw_line linenum = [Suppress key l] \<and>
      (l = linenum \<or> l = linenum + 1) \<and> (key = None \<or> (\<exists>c \<in> set ERROR_CATEGORIES. key = Some c))) \<or>
   (\<exists>msg. ParseNolintSuppressions filename raw_line linenum =
      [Report (mk_error filename linenum ''readability/nolint'' 5 msg)])"
  by (simp add: ParseNolintSuppressions_def Let_def split: option.split) blast

lemma nolint_rel: "((p, q), y) \<in> re_rel re_nolint \<Longrightarrow> \<exists>t. q = ''NOLINT'' @ t"
  by (auto simp: re_nolint_def rel_rlit)

text \<open>A comment \<open>// NOLINT\<close> at the end of a line that does not mention NOLINT before is found.\<close>

lemma nolint_comment_search:
  assumes "\<not> contains pre ''NOLINT''"
  shows "re_search re_nolint (pre @ ''// NOLINT'') = search_from re_nolint (rev (pre @ ''// '')) ''NOLINT''"
proof -
  have "first_match re_nolint (rev u) (v @ ''NOLINT'') = None" if uv: "pre @ ''// '' = u @ v" "v \<noteq> []" for u v
  proof (rule ccontr)
    assume "first_match re_nolint (rev u) (v @ ''NOLINT'') \<noteq> None"
    then obtain t where t: "v @ ''NOLINT'' = ''NOLINT'' @ t"
      by (auto simp: first_match_None dest: nolint_rel)
    from uv(1) consider v' where "pre = u @ v'" "v = v' @ ''// ''" | u' where "''// '' = u' @ v"
      by (auto simp: append_eq_append_conv2)
    then show False
    proof cases
      case 1
      with t have "v' @ ''// NOLINT'' = ''NOLINT'' @ t" by simp
      then consider w where "v' = ''NOLINT'' @ w" | w where "''NOLINT'' = v' @ w" "''// NOLINT'' = w @ t"
        unfolding append_eq_append_conv2 by metis
      then show False
      proof cases
        case 1
        with \<open>pre = u @ v'\<close> assms show False by (auto simp: contains_iff)
      next
        case 2
        show False
        proof (cases w)
          case Nil
          with 2 have "v' = ''NOLINT'' @ []" by simp
          with \<open>pre = u @ v'\<close> assms show False by (auto simp: contains_iff)
        next
          case (Cons x w')
          with 2 have "CHR ''/'' \<in> set ''NOLINT''" by (metis list.inject list.set_intros(1) append_Cons in_set_conv_decomp)
          then show False by simp
        qed
      qed
    next
      case 2
      with uv(2) t show False by (auto simp: Cons_eq_append_conv)
    qed
  qed
  then have "search_from re_nolint [] ((pre @ ''// '') @ ''NOLINT'') = search_from re_nolint (rev (pre @ ''// '') @ []) ''NOLINT''"
    by (intro search_from_skip) simp
  then show ?thesis by (simp add: re_search_def)
qed

lemma nolint_comment:
  assumes "\<not> contains pre ''NOLINT''"
  shows "ParseNolintSuppressions filename (pre @ ''// NOLINT'') linenum = [Suppress None linenum]"
proof -
  have "\<not> py_word (CHR '' '')" "py_word (CHR ''N'')" "py_word (CHR ''T'')" by code_simp+
  then have "search_from re_nolint (rev (pre @ ''// '')) ''NOLINT'' =
      Some \<lparr>m_before = rev (pre @ ''// ''), m_upto = rev (pre @ ''// NOLINT''), m_rest = [], m_caps = []\<rparr>"
    by (simp add: first_match_def re_nolint_def rlit_def rchr_def ropt_def rplus_def none_of_def at_word_boundary_def)
  with nolint_comment_search [OF assms] show ?thesis
    by (simp add: ParseNolintSuppressions_def group_text_def m_group_def)
qed

end
