(* ===== verification/Cleanse.thy ===== *)
theory Cleanse
  imports Suppress
begin

text \<open>
  Preprocessing of the source lines (\<open>cpplint.py\<close>, from \<open>IsCppString\<close> to the class
  \<open>CleansedLines\<close>): raw strings, multi-line comments, comments and string literals are removed,
  and the four copies of the file that the checks read are built. An attribute of a match that
  is \<open>None\<close> would be an AttributeError; such a branch is \<open>None\<close> here, and it is proved that
  no input reaches it.
\<close>

section \<open>Strings and comments on one line\<close>

text \<open>An escape sequence, and a C comment on one line.\<close>

definition re_cleanse_line_escapes :: re where
  "re_cleanse_line_escapes = rseq [rchr BSL, Grp 1 (ralt [one_of (''abfnrtv?'' @ [DQ, BSL, SQ]),
     rplus rdigit, rseq [rchr (CHR ''x''), rplus (Cls (\<lambda>c. py_digit c \<or> c \<in> set ''abcdefABCDEF''))]])]"

definition re_c_comment :: re where
  "re_c_comment = rseq [rlit ''/*'',
     Star (ralt [none_of ''*'', rseq [rchr (CHR ''*''), NegA (rchr (CHR ''/''))]]), rlit ''*/'']"

definition re_cleanse_line_c_comments :: re where
  "re_cleanse_line_c_comments = Grp 1 (ralt
     [rseq [spaces, re_c_comment, spaces, Eol],
      rseq [re_c_comment, spaces1],
      rseq [spaces1, re_c_comment, LookA rnonword],
      re_c_comment])"

definition IsCppString :: "string \<Rightarrow> bool" where
  "IsCppString line =
     (let line = replace_sub [BSL, BSL] ''XX'' line in
      odd (int (count_sub line [DQ]) - int (count_sub line [BSL, DQ]) - int (count_sub line [SQ, DQ, SQ])))"

definition CleanseComments :: "string \<Rightarrow> string" where
  "CleanseComments line =
     (let line = (case find_sub line ''//'' of
          Some commentpos \<Rightarrow>
            if \<not> IsCppString (take commentpos line) then rstrip (take commentpos line) else line
        | None \<Rightarrow> line)
      in re_sub re_cleanse_line_c_comments (\<lambda>_. []) line)"

section \<open>Raw strings\<close>

definition re_leading_space :: re where
  "re_leading_space = rseq [Bol, Grp 1 spaces, rnonspace]"

definition re_raw_string :: re where
  "re_raw_string = rseq [Bol, Grp 1 (Lazy rdot), WordB,
     ralt [rlit ''R'', rlit ''u8R'', rlit ''uR'', rlit ''UR'', rlit ''LR''], rchr DQ,
     Grp 2 (Star (Cls (\<lambda>c. \<not> (py_space c \<or> c \<in> set ([BSL] @ ''()''))))), rchr (CHR ''(''),
     Grp 3 (Star rdot), Eol]"

text \<open>The text before a raw string ends inside a \<open>//\<close> comment.\<close>

definition re_in_line_comment :: re where
  "re_in_line_comment = rseq [Bol, Star (Grp 1 (ralt
     [none_of [SQ, DQ],
      rseq [rchr SQ, Star (Grp 2 (ralt [rseq [rchr BSL, rdot], none_of [SQ]])), rchr SQ],
      rseq [rchr DQ, Star (Grp 3 (ralt [rseq [rchr BSL, rdot], none_of [DQ]])), rchr DQ]])), rlit ''//'']"

lemma re_raw_string_lengths:
  assumes "re_match re_raw_string line = Some m"
  shows "length (group_text m 1) + length (group_text m 2) + length (group_text m 3) + 3 \<le> length line"
proof -
  from re_match_mem [OF assms] have "(m_upto m, m_rest m, m_caps m) \<in> set (rmatch re_raw_string [] line [])"
    and "m_before m = []" by auto
  then show ?thesis
    unfolding re_raw_string_def group_mem
    by (auto simp: group_mem rel_rlit group_text_def m_group_def)
qed

definition raw_delimiter :: "match_obj \<Rightarrow> string" where
  "raw_delimiter matched = '')'' @ group_text matched 2 @ [DQ]"

text \<open>
  The inner loop: raw strings that end on the line become \<open>""\<close>; one that does not end cuts the
  line off and leaves its delimiter.
\<close>

function find_raw_strings :: "string \<Rightarrow> string \<times> string option" where
  "find_raw_strings line =
     (case re_match re_raw_string line of
        None \<Rightarrow> (line, None)
      | Some matched \<Rightarrow>
          if matches re_in_line_comment (group_text matched 1) then (line, None)
          else
            let delimiter = raw_delimiter matched in
            case find_sub (group_text matched 3) delimiter of
              Some e \<Rightarrow> find_raw_strings (group_text matched 1 @ [DQ, DQ] @
                           drop (e + length delimiter) (group_text matched 3))
            | None \<Rightarrow> (group_text matched 1 @ [DQ, DQ], Some delimiter))"
  by pat_completeness auto
termination
proof (relation "measure length")
  fix line m delimiter e
  assume "re_match re_raw_string line = Some m" and d: "delimiter = raw_delimiter m"
    and "find_sub (group_text m 3) delimiter = Some e"
  then have "length (group_text m 1) + length (group_text m 2) + length (group_text m 3) + 3 \<le> length line"
    and "e + length delimiter \<le> length (group_text m 3)"
    using re_raw_string_lengths find_sub_Some by blast+
  with d show "(group_text m 1 @ [DQ, DQ] @ drop (e + length delimiter) (group_text m 3), line) \<in> measure length"
    by (simp add: raw_delimiter_def)
qed simp

declare find_raw_strings.simps [simp del]

text \<open>The loop over the lines, with the delimiter of the raw string that is open.\<close>

fun cleanse_raw_lines :: "string option \<Rightarrow> string list \<Rightarrow> string list option" where
  "cleanse_raw_lines delimiter [] = Some []"
| "cleanse_raw_lines None (line # rest) =
     (let (line, delimiter) = find_raw_strings line in
      map_option ((#) line) (cleanse_raw_lines delimiter rest))"
| "cleanse_raw_lines (Some delimiter) (line # rest) =
     (case find_sub line delimiter of
        Some e \<Rightarrow>
          (case re_match re_leading_space line of
             None \<Rightarrow> None
           | Some leading_space \<Rightarrow>
               let (line, delimiter) = find_raw_strings (group_text leading_space 1 @ [DQ, DQ] @
                                          drop (e + length delimiter) line) in
               map_option ((#) line) (cleanse_raw_lines delimiter rest))
      | None \<Rightarrow> map_option ((#) [DQ, DQ]) (cleanse_raw_lines (Some delimiter) rest))"

definition CleanseRawStrings :: "string list \<Rightarrow> string list option" where
  "CleanseRawStrings raw_lines = cleanse_raw_lines None raw_lines"

text \<open>
  A line that contains a delimiter is not blank, so its leading white space can be read: the
  AttributeError branch is never taken, and the number of lines stays the same.
\<close>

lemma leading_space_match: "\<exists>c \<in> set line. \<not> py_space c \<Longrightarrow> re_match re_leading_space line \<noteq> None"
proof -
  assume "\<exists>c \<in> set line. \<not> py_space c"
  then have ne: "dropWhile py_space line \<noteq> []" by (auto simp: dropWhile_eq_Nil_conv)
  let ?w = "takeWhile py_space line" and ?q = "dropWhile py_space line"
  have bol: "(([], line), ([], line)) \<in> re_rel Bol" by simp
  have grp: "(([], line), (rev ?w, ?q)) \<in> re_rel (Grp 1 spaces)"
    unfolding re_rel.simps rel_stars
    by (rule exI [of _ ?w]) (auto simp: list_all_iff dest: set_takeWhileD)
  have "((rev ?w, ?q), (hd ?q # rev ?w, tl ?q)) \<in> re_rel rnonspace"
    using ne hd_dropWhile [OF ne] by simp
  then have "(([], line), (hd ?q # rev ?w, tl ?q)) \<in> re_rel re_leading_space"
    unfolding re_leading_space_def rel_rseq_Cons
    by (intro relcompI [OF bol] relcompI [OF grp]) simp
  then show ?thesis by (auto simp: re_match_def first_match_None)
qed

lemma find_raw_strings_delimiter:
  "find_raw_strings line = (line', Some delimiter) \<Longrightarrow> \<exists>t. delimiter = '')'' @ t"
proof (induction line rule: find_raw_strings.induct)
  case (1 line)
  note eq = "1.prems" [unfolded find_raw_strings.simps [of line]]
  show ?case
  proof (cases "re_match re_raw_string line")
    case (Some m)
    with eq have c: "\<not> matches re_in_line_comment (group_text m 1)" by (auto split: if_splits)
    show ?thesis
    proof (cases "find_sub (group_text m 3) (raw_delimiter m)")
      case None
      with eq Some c show ?thesis by (auto simp: raw_delimiter_def)
    next
      fix e assume e: "find_sub (group_text m 3) (raw_delimiter m) = Some e"
      with eq Some c show ?thesis by (intro "1.IH" [OF Some c refl e]) (simp add: Let_def)
    qed
  qed (use eq in auto)
qed

lemma cleanse_raw_lines_total:
  "(\<And>d. delimiter = Some d \<Longrightarrow> \<exists>t. d = '')'' @ t) \<Longrightarrow>
   \<exists>ls. cleanse_raw_lines delimiter lines = Some ls \<and> length ls = length lines"
proof (induction delimiter lines rule: cleanse_raw_lines.induct)
  case (2 line rest)
  obtain l d where ld: "find_raw_strings line = (l, d)" by fastforce
  have "\<exists>ls. cleanse_raw_lines d rest = Some ls \<and> length ls = length rest"
    by (rule 2(1) [OF ld [symmetric] refl]) (use find_raw_strings_delimiter ld in blast)
  with ld show ?case by (auto simp: Let_def)
next
  case (3 delimiter line rest)
  show ?case
  proof (cases "find_sub line delimiter")
    case None
    with 3 show ?thesis by auto
  next
    case (Some e)
    from "3.prems" obtain t where "delimiter = '')'' @ t" by blast
    then have "CHR '')'' \<in> set delimiter" by simp
    moreover have "set delimiter \<subseteq> set line"
      using find_sub_Some [OF Some] by (metis set_append Un_upper1 Un_upper2 subset_trans)
    ultimately have "CHR '')'' \<in> set line" by blast
    moreover have "\<not> py_space (CHR '')'')" by code_simp
    ultimately obtain m where m: "re_match re_leading_space line = Some m"
      using leading_space_match [of line] by blast
    obtain l d where ld: "find_raw_strings (group_text m 1 @ [DQ, DQ] @ drop (e + length delimiter) line) = (l, d)"
      by fastforce
    have "\<exists>ls. cleanse_raw_lines d rest = Some ls \<and> length ls = length rest"
      by (rule "3.IH"(2) [OF Some m ld [symmetric] refl]) (use find_raw_strings_delimiter ld in blast)
    with Some m ld show ?thesis by (auto simp: Let_def)
  qed
qed simp

lemma CleanseRawStrings_lines [line_count]:
  "\<exists>ls. CleanseRawStrings raw_lines = Some ls \<and> length ls = length raw_lines"
  unfolding CleanseRawStrings_def by (rule cleanse_raw_lines_total) simp

section \<open>Multi-line comments\<close>

function FindNextMultiLineCommentStart :: "string list \<Rightarrow> nat \<Rightarrow> nat" where
  "FindNextMultiLineCommentStart lines lineix =
     (if lineix < length lines then
        if starts_with (strip (lines ! lineix)) ''/*'' \<and>
           find_from (strip (lines ! lineix)) ''*/'' 2 = None then lineix
        else FindNextMultiLineCommentStart lines (lineix + 1)
      else length lines)"
  by pat_completeness auto
termination by (relation "measure (\<lambda>(lines, lineix). length lines - lineix)") auto

function FindNextMultiLineCommentEnd :: "string list \<Rightarrow> nat \<Rightarrow> nat" where
  "FindNextMultiLineCommentEnd lines lineix =
     (if lineix < length lines then
        if ends_with (strip (lines ! lineix)) ''*/'' then lineix
        else FindNextMultiLineCommentEnd lines (lineix + 1)
      else length lines)"
  by pat_completeness auto
termination by (relation "measure (\<lambda>(lines, lineix). length lines - lineix)") auto

declare FindNextMultiLineCommentStart.simps [simp del] FindNextMultiLineCommentEnd.simps [simp del]

definition RemoveMultiLineCommentsFromRange :: "string list \<Rightarrow> nat \<Rightarrow> nat \<Rightarrow> string list" where
  "RemoveMultiLineCommentsFromRange lines b e = fold (\<lambda>i ls. ls[i := ''/**/'']) [b ..< e] lines"

lemma length_remove_range [simp, line_count]:
  "length (RemoveMultiLineCommentsFromRange lines b e) = length lines"
proof -
  have "length (fold (\<lambda>i ls. ls[i := ''/**/'']) is lines) = length lines" for "is"
    by (induction "is" arbitrary: lines) auto
  then show ?thesis by (simp add: RemoveMultiLineCommentsFromRange_def)
qed

lemma comment_start_bounds: "lineix \<le> length lines \<Longrightarrow> lineix \<le> FindNextMultiLineCommentStart lines lineix"
proof (induction lines lineix rule: FindNextMultiLineCommentStart.induct)
  case (1 lines lineix)
  then show ?case by (subst FindNextMultiLineCommentStart.simps) auto
qed

lemma comment_end_bounds: "lineix \<le> length lines \<Longrightarrow> lineix \<le> FindNextMultiLineCommentEnd lines lineix"
proof (induction lines lineix rule: FindNextMultiLineCommentEnd.induct)
  case (1 lines lineix)
  then show ?case by (subst FindNextMultiLineCommentEnd.simps) auto
qed

text \<open>The loop from line \<open>lineix\<close> on: the lines with their comments removed, and the errors.\<close>

function remove_comments_from :: "string \<Rightarrow> string list \<Rightarrow> nat \<Rightarrow> string list \<times> diag list" where
  "remove_comments_from filename lines lineix =
     (if lineix < length lines then
        let lineix_begin = FindNextMultiLineCommentStart lines lineix in
        if lineix_begin \<ge> length lines then (lines, [])
        else
          let lineix_end = FindNextMultiLineCommentEnd lines lineix_begin in
          if lineix_end \<ge> length lines then
            (lines, [mk_error filename (int lineix_begin + 1) ''readability/multiline_comment'' 5
               ''Could not find end of multi-line comment''])
          else remove_comments_from filename
                 (RemoveMultiLineCommentsFromRange lines lineix_begin (lineix_end + 1)) (lineix_end + 1)
      else (lines, []))"
  by pat_completeness auto
termination
proof (relation "measure (\<lambda>(filename, lines, lineix). length lines - lineix)")
  fix filename :: string and lines :: "string list" and lineix b e
  assume "lineix < length lines" "b = FindNextMultiLineCommentStart lines lineix" "\<not> length lines \<le> b"
    "e = FindNextMultiLineCommentEnd lines b" "\<not> length lines \<le> e"
  then have "lineix \<le> e" using comment_start_bounds [of lineix lines] comment_end_bounds [of b lines] by simp
  with \<open>lineix < length lines\<close>
  show "((filename, RemoveMultiLineCommentsFromRange lines b (e + 1), e + 1), filename, lines, lineix)
      \<in> measure (\<lambda>(filename, lines, lineix). length lines - lineix)" by simp
qed simp

declare remove_comments_from.simps [simp del]

definition RemoveMultiLineComments :: "string \<Rightarrow> string list \<Rightarrow> string list \<times> diag list" where
  "RemoveMultiLineComments filename lines = remove_comments_from filename lines 0"

lemma remove_comments_from_length:
  "length (fst (remove_comments_from filename lines lineix)) = length lines"
proof (induction filename lines lineix rule: remove_comments_from.induct)
  case (1 filename lines lineix)
  show ?case
    using "1.IH" [OF _ refl _ refl] by (subst remove_comments_from.simps) (auto simp: Let_def)
qed

lemma RemoveMultiLineComments_length [line_count]:
  "length (fst (RemoveMultiLineComments filename lines)) = length lines"
  by (simp add: RemoveMultiLineComments_def remove_comments_from_length)

section \<open>String literals\<close>

definition re_first_quote :: re where
  "re_first_quote = rseq [Bol, Grp 1 (Star (none_of [SQ, DQ])), Grp 2 (one_of [SQ, DQ]), Grp 3 (Star rdot), Eol]"

text \<open>The text before a quote ends in a number, so that the quote may separate digits.\<close>

definition re_number_before :: re where
  "re_number_before = rseq [WordB, ralt [rseq [rchr (CHR ''0''), ropt (one_of ''bBxX'')], one_of ''123456789''],
     Star (Cls (\<lambda>c. py_digit c \<or> c \<in> set ''abcdefABCDEF'')), Eol]"

definition re_literal_part :: re where
  "re_literal_part = rseq [ropt (rchr SQ), Cls (\<lambda>c. ascii_alnum c \<or> c = CHR ''_'')]"

definition re_literal_tail :: re where
  "re_literal_tail = rseq [Bol, Grp 1 (Star re_literal_part), Grp 2 (Star rdot), Eol]"

lemma groupless_literal_part [simp]: "groupless re_literal_part"
  by (simp add: re_literal_part_def)

lemma re_first_quote_groups:
  assumes "re_match re_first_quote line = Some m"
  obtains w c t rest where "line = w @ c # t @ rest" "group_text m 1 = w" "group_text m 2 = [c]"
    "group_text m 3 = t" "c = SQ \<or> c = DQ" "SQ \<notin> set w" "DQ \<notin> set w" "LF \<notin> set t" "rest = [] \<or> rest = [LF]"
proof -
  from re_match_mem [OF assms] have "(m_upto m, m_rest m, m_caps m) \<in> set (rmatch re_first_quote [] line [])"
    and "m_before m = []" by auto
  then show ?thesis
    unfolding re_first_quote_def group_mem
    by (auto simp: group_mem group_text_def m_group_def intro!: that)
qed


lemma re_number_before_nonempty: "found re_number_before head \<Longrightarrow> head \<noteq> []"
  by (auto simp: found_rel re_number_before_def)

text \<open>
  The loop over the quotes of a line: \<open>collapsed\<close> is the output so far. A digit separator is
  dropped together with the literal it is in.
\<close>

lemma re_literal_tail_match: "LF \<notin> set s \<Longrightarrow> re_match re_literal_tail s \<noteq> None"
proof -
  assume "LF \<notin> set s"
  then have "(([], s), (rev s, [])) \<in> re_rel (Grp 2 (Star rdot))" by simp
  moreover have "(([], s), ([], s)) \<in> re_rel Bol" "((rev s, []), (rev s, [])) \<in> re_rel Eol"
    "(([], s), ([], s)) \<in> re_rel (Grp 1 (Star re_literal_part))"
    by simp_all
  ultimately have "(([], s), (rev s, [])) \<in> re_rel re_literal_tail"
    unfolding re_literal_tail_def rel_rseq_Cons by (intro relcompI) auto
  then show ?thesis by (auto simp: re_match_def first_match_None)
qed

lemma re_literal_tail_length:
  assumes "re_match re_literal_tail s = Some m"
  shows "length (group_text m 1) + length (group_text m 2) \<le> length s"
proof -
  from re_match_mem [OF assms] have "(m_upto m, m_rest m, m_caps m) \<in> set (rmatch re_literal_tail [] s [])"
    and "m_before m = []" by auto
  then show ?thesis
    unfolding re_literal_tail_def group_mem
    by (auto simp: group_mem group_text_def m_group_def dest!: star_relD)
qed

function collapse_quotes :: "string \<Rightarrow> string \<Rightarrow> string option" where
  "collapse_quotes collapsed elided =
     (case re_match re_first_quote elided of
        None \<Rightarrow> Some (collapsed @ elided)
      | Some m \<Rightarrow>
          let head = group_text m 1; quote = group_text m 2; tail = group_text m 3 in
          if quote = [DQ] then
            (case find_sub tail [DQ] of
               Some second_quote \<Rightarrow>
                 collapse_quotes (collapsed @ head @ [DQ, DQ]) (drop (second_quote + 1) tail)
             | None \<Rightarrow> Some (collapsed @ elided))
          else if found re_number_before head then
            (case re_match re_literal_tail (SQ # tail) of
               None \<Rightarrow> None
             | Some match_literal \<Rightarrow>
                 collapse_quotes (collapsed @ head @ replace_sub [SQ] [] (group_text match_literal 1))
                   (group_text match_literal 2))
          else
            (case find_sub tail [SQ] of
               Some second_quote \<Rightarrow>
                 collapse_quotes (collapsed @ head @ [SQ, SQ]) (drop (second_quote + 1) tail)
             | None \<Rightarrow> Some (collapsed @ elided)))"
  by pat_completeness auto
termination
proof (relation "measure (\<lambda>(collapsed, elided). length elided)")
  fix collapsed elided m head quote tail
  assume m: "re_match re_first_quote elided = Some m" and defs: "head = group_text m 1" "tail = group_text m 3"
  then have len: "length head + length tail + 1 \<le> length elided"
    by (auto elim!: re_first_quote_groups)
  { fix k
    from len show "((collapsed @ head @ [DQ, DQ], drop (k + 1) tail), collapsed, elided)
        \<in> measure (\<lambda>(collapsed, elided). length elided)" by simp
    from len show "((collapsed @ head @ [SQ, SQ], drop (k + 1) tail), collapsed, elided)
        \<in> measure (\<lambda>(collapsed, elided). length elided)" by simp }
  fix ml assume "found re_number_before head" "re_match re_literal_tail (SQ # tail) = Some ml"
  with re_number_before_nonempty re_literal_tail_length
  have "head \<noteq> []" "length (group_text ml 2) \<le> length tail + 1" by fastforce+
  with len show "((collapsed @ head @ replace_sub [SQ] [] (group_text ml 1), group_text ml 2), collapsed, elided)
      \<in> measure (\<lambda>(collapsed, elided). length elided)" by (cases head) auto
qed simp

declare collapse_quotes.simps [simp del]

definition CollapseStrings :: "string \<Rightarrow> string option" where
  "CollapseStrings elided =
     (if matches RE_PATTERN_INCLUDE elided then Some elided
      else collapse_quotes [] (re_sub re_cleanse_line_escapes (\<lambda>_. []) elided))"

lemma collapse_quotes_total: "\<exists>s. collapse_quotes collapsed elided = Some s"
proof (induction collapsed elided rule: collapse_quotes.induct)
  case (1 collapsed elided)
  show ?case
  proof (cases "re_match re_first_quote elided")
    case (Some m)
    then have "LF \<notin> set (SQ # group_text m 3)" by (auto elim!: re_first_quote_groups)
    then obtain ml where ml: "re_match re_literal_tail (SQ # group_text m 3) = Some ml"
      using re_literal_tail_match by blast
    note IH = "1.IH" [OF Some refl refl refl]
    consider "group_text m 2 = [DQ]" | "group_text m 2 \<noteq> [DQ]" "found re_number_before (group_text m 1)"
      | "group_text m 2 \<noteq> [DQ]" "\<not> found re_number_before (group_text m 1)" by blast
    then show ?thesis
    proof cases
      case 1
      with IH(1) Some show ?thesis
        by (subst collapse_quotes.simps) (auto simp: Let_def split: option.splits)
    next
      case 2
      with IH(2) [OF 2 ml] Some ml show ?thesis
        by (subst collapse_quotes.simps) (auto simp: Let_def)
    next
      case 3
      with IH(3) Some show ?thesis
        by (subst collapse_quotes.simps) (auto simp: Let_def split: option.splits)
    qed
  qed (subst collapse_quotes.simps, simp)
qed

lemma CollapseStrings_total: "\<exists>s. CollapseStrings elided = Some s"
  by (simp add: CollapseStrings_def collapse_quotes_total)

section \<open>The cleansed lines\<close>

record cleansed_lines =
  elided :: "string list"
  lines :: "string list"
  raw_lines :: "string list"
  num_lines :: nat
  lines_without_raw_strings :: "string list"

fun elide_lines :: "string list \<Rightarrow> string list option" where
  "elide_lines [] = Some []"
| "elide_lines (l # ls) = do { e \<leftarrow> CollapseStrings l; es \<leftarrow> elide_lines ls; Some (CleanseComments e # es) }"

definition CleansedLines :: "string list \<Rightarrow> cleansed_lines option" where
  "CleansedLines ls = do {
     without_raw \<leftarrow> CleanseRawStrings ls;
     es \<leftarrow> elide_lines without_raw;
     Some \<lparr>elided = es, lines = map CleanseComments without_raw, raw_lines = ls,
           num_lines = length ls, lines_without_raw_strings = without_raw\<rparr>
   }"

definition NumLines :: "cleansed_lines \<Rightarrow> nat" where
  "NumLines cl = num_lines cl"

lemma elide_lines_total [line_count]: "\<exists>es. elide_lines ls = Some es \<and> length es = length ls"
proof (induction ls)
  case (Cons l ls)
  obtain e where "CollapseStrings l = Some e" using CollapseStrings_total by blast
  with Cons show ?case by auto
qed simp

text \<open>Well-formedness: the four copies have one length, and it is \<open>num_lines\<close>.\<close>

definition well_formed :: "cleansed_lines \<Rightarrow> bool" where
  "well_formed cl = (length (elided cl) = num_lines cl \<and> length (lines cl) = num_lines cl \<and>
     length (raw_lines cl) = num_lines cl \<and> length (lines_without_raw_strings cl) = num_lines cl)"

section \<open>What the cleansing keeps and what it drops\<close>

text \<open>
  A pass over the file gives each line number one line. The passes are chained, and what one
  of them writes for a line number is what the next one reads for it.
\<close>

locale line_pass =
  fixes pass :: "string list \<Rightarrow> string list option"
  assumes keeps_lines: "\<exists>out. pass ls = Some out \<and> length out = length ls"
begin

lemma never_raises: "pass ls \<noteq> None"
  using keeps_lines [of ls] by auto

lemma output_length: "pass ls = Some out \<Longrightarrow> length out = length ls"
  using keeps_lines [of ls] by auto

end

locale line_pipeline = line_pass pass + second: line_pass pass2
  for pass :: "string list \<Rightarrow> string list option" and pass2 :: "string list \<Rightarrow> string list option"
begin

lemma chain: "\<exists>mid out. pass ls = Some mid \<and> pass2 mid = Some out \<and> length mid = length ls \<and> length out = length ls"
  using keeps_lines second.keeps_lines by metis

end

interpretation uncommented: line_pass "\<lambda>ls. Some (fst (RemoveMultiLineComments filename ls))" for filename
  by unfold_locales (simp add: RemoveMultiLineComments_length)

interpretation cleansing: line_pipeline CleanseRawStrings elide_lines
  by unfold_locales (use CleanseRawStrings_lines elide_lines_total in blast)+

lemma CleansedLines_returns:
  "\<exists>cl. CleansedLines ls = Some cl \<and> well_formed cl \<and> raw_lines cl = ls \<and> NumLines cl = length ls"
proof -
  obtain raw es where "CleanseRawStrings ls = Some raw" "elide_lines raw = Some es"
    "length raw = length ls" "length es = length ls"
    using cleansing.chain by blast
  then show ?thesis by (simp add: CleansedLines_def well_formed_def NumLines_def)
qed

text \<open>C40: CleansedLines is total and gives every line number one line in each of its four copies,
  so that a check may use a line number of one copy in another; the raw lines are those of the file.\<close>

theorem CleansedLines_well_formed:
  "\<exists>cl. CleansedLines ls = Some cl \<and> well_formed cl \<and> raw_lines cl = ls \<and> NumLines cl = length ls"
  by (rule CleansedLines_returns)

text \<open>The lines at which a comment that spans lines begins, and those at which it ends.\<close>

definition comment_start :: "string \<Rightarrow> bool" where
  "comment_start line \<longleftrightarrow> starts_with (strip line) ''/*'' \<and> find_from (strip line) ''*/'' 2 = None"

definition comment_end :: "string \<Rightarrow> bool" where
  "comment_end line \<longleftrightarrow> ends_with (strip line) ''*/''"

text \<open>
  What the removal does to a file, from its line \<open>n\<close> on: lines of code stay, a comment that spans lines, from
  the first line that begins one to the first line from there that ends it, becomes blank lines, and
  a comment that does not end stays and is reported with its line.
\<close>

inductive uncommented :: "nat \<Rightarrow> string list \<Rightarrow> string list \<Rightarrow> nat option \<Rightarrow> bool" where
  Code: "list_all (\<lambda>l. \<not> comment_start l) code \<Longrightarrow> uncommented n code code None"
| Comment: "list_all (\<lambda>l. \<not> comment_start l) code \<Longrightarrow> comment \<noteq> [] \<Longrightarrow> comment_start (hd comment) \<Longrightarrow>
    list_all (\<lambda>l. \<not> comment_end l) (butlast comment) \<Longrightarrow> comment_end (last comment) \<Longrightarrow>
    uncommented (n + length code + length comment) rest out open_at \<Longrightarrow>
    uncommented n (code @ comment @ rest) (code @ replicate (length comment) ''/**/'' @ out) open_at"
| Open: "list_all (\<lambda>l. \<not> comment_start l) code \<Longrightarrow> comment_start l \<Longrightarrow> list_all (\<lambda>l. \<not> comment_end l) (l # rest) \<Longrightarrow>
    uncommented n (code @ l # rest) (code @ l # rest) (Some (n + length code))"

definition open_comment_errors :: "string \<Rightarrow> nat option \<Rightarrow> diag list" where
  "open_comment_errors filename open_at = (case open_at of
     None \<Rightarrow> []
   | Some n \<Rightarrow> [mk_error filename (int n + 1) ''readability/multiline_comment'' 5 ''Could not find end of multi-line comment''])"

lemma comment_start_at:
  "list_all (\<lambda>l. \<not> comment_start l) code \<Longrightarrow> (case rest of [] \<Rightarrow> True | l # _ \<Rightarrow> comment_start l) \<Longrightarrow>
    FindNextMultiLineCommentStart (pre @ code @ rest) (length pre) = length pre + length code"
proof (induction code arbitrary: pre)
  case Nil
  then show ?case by (subst FindNextMultiLineCommentStart.simps) (auto simp: comment_start_def split: list.splits)
next
  case (Cons c code)
  then have "FindNextMultiLineCommentStart (pre @ (c # code) @ rest) (length pre) =
      FindNextMultiLineCommentStart ((pre @ [c]) @ code @ rest) (length (pre @ [c]))"
    by (subst FindNextMultiLineCommentStart.simps) (auto simp: comment_start_def)
  with Cons.IH [of "pre @ [c]"] Cons.prems show ?case by simp
qed

lemma comment_end_at:
  "list_all (\<lambda>l. \<not> comment_end l) body \<Longrightarrow> (case rest of [] \<Rightarrow> True | l # _ \<Rightarrow> comment_end l) \<Longrightarrow>
    FindNextMultiLineCommentEnd (pre @ body @ rest) (length pre) = length pre + length body"
proof (induction body arbitrary: pre)
  case Nil
  then show ?case by (subst FindNextMultiLineCommentEnd.simps) (auto simp: comment_end_def split: list.splits)
next
  case (Cons c body)
  then have "FindNextMultiLineCommentEnd (pre @ (c # body) @ rest) (length pre) =
      FindNextMultiLineCommentEnd ((pre @ [c]) @ body @ rest) (length (pre @ [c]))"
    by (subst FindNextMultiLineCommentEnd.simps) (simp add: comment_end_def)
  with Cons.IH [of "pre @ [c]"] Cons.prems show ?case by simp
qed

lemma remove_range_nth:
  assumes "e \<le> length ls" "i < length ls"
  shows "RemoveMultiLineCommentsFromRange ls b e ! i = (if b \<le> i \<and> i < e then ''/**/'' else ls ! i)"
  using assms
proof (induction e)
  case (Suc e)
  show ?case
  proof (cases "b \<le> e")
    case True
    have "RemoveMultiLineCommentsFromRange ls b (Suc e) = (RemoveMultiLineCommentsFromRange ls b e) [e := ''/**/'']"
      using True by (simp add: RemoveMultiLineCommentsFromRange_def)
    with Suc True show ?thesis by (auto simp: nth_list_update less_Suc_eq)
  qed (use Suc in \<open>auto simp: RemoveMultiLineCommentsFromRange_def\<close>)
qed (simp add: RemoveMultiLineCommentsFromRange_def)

lemma remove_range_middle:
  "RemoveMultiLineCommentsFromRange (pre @ comment @ rest) (length pre) (length pre + length comment) =
    pre @ replicate (length comment) ''/**/'' @ rest"
  by (rule nth_equalityI) (auto simp: remove_range_nth nth_append)

lemma uncommented_removed:
  "uncommented n ls out open_at \<Longrightarrow> n = length pre \<Longrightarrow>
    remove_comments_from filename (pre @ ls) (length pre) = (pre @ out, open_comment_errors filename open_at)"
proof (induction arbitrary: pre rule: uncommented.induct)
  case (Code code n)
  from comment_start_at [OF Code(1), of "[]" pre] show ?case
    by (subst remove_comments_from.simps) (simp add: Let_def open_comment_errors_def)
next
  case (Comment code comment n rest out open_at)
  let ?ls = "pre @ code @ comment @ rest"
  obtain l comment' where comment: "comment = l # comment'" using Comment.hyps(2) by (cases comment) auto
  have b: "FindNextMultiLineCommentStart ?ls (length pre) = length (pre @ code)"
    using comment_start_at [OF Comment.hyps(1), of "comment @ rest" pre] Comment.hyps(3) comment by simp
  have "comment = butlast comment @ [last comment]" using Comment.hyps(2) by simp
  then have "?ls = (pre @ code) @ butlast comment @ last comment # rest" by (metis append.assoc append_Cons append_Nil)
  with comment_end_at [OF Comment.hyps(4), of "last comment # rest" "pre @ code"] Comment.hyps(5)
  have e: "FindNextMultiLineCommentEnd ?ls (length (pre @ code)) + 1 = length (pre @ code) + length comment"
    using comment by simp
  have removed: "RemoveMultiLineCommentsFromRange ?ls (length (pre @ code)) (length (pre @ code) + length comment) =
      (pre @ code @ replicate (length comment) ''/**/'') @ rest"
    using remove_range_middle [of "pre @ code" comment rest] by simp
  have "length (pre @ code @ replicate (length comment) ''/**/'') = length (pre @ code) + length comment" by simp
  with Comment.IH [of "pre @ code @ replicate (length comment) ''/**/''"] Comment.prems
  have "remove_comments_from filename ((pre @ code @ replicate (length comment) ''/**/'') @ rest) (length (pre @ code) + length comment) =
      (pre @ code @ replicate (length comment) ''/**/'' @ out, open_comment_errors filename open_at)"
    by (simp add: add.assoc)
  with b e removed comment show ?case by (subst remove_comments_from.simps) (simp add: Let_def)
next
  case (Open code l rest n)
  have "FindNextMultiLineCommentEnd (pre @ code @ l # rest) (length (pre @ code)) = length (pre @ code @ l # rest)"
    using comment_end_at [OF Open(3), of "[]" "pre @ code"] by simp
  with comment_start_at [OF Open(1), of "l # rest" pre] Open(2,4) show ?case
    by (subst remove_comments_from.simps) (simp add: Let_def open_comment_errors_def)
qed

lemma uncommented_total: "\<exists>out open_at. uncommented n ls out open_at"
proof (induction "length ls" arbitrary: n ls rule: less_induct)
  case less
  define code where "code = takeWhile (\<lambda>l. \<not> comment_start l) ls"
  have code: "list_all (\<lambda>l. \<not> comment_start l) code" by (auto simp: code_def list_all_iff dest: set_takeWhileD)
  show ?case
  proof (cases "dropWhile (\<lambda>l. \<not> comment_start l) ls")
    case Nil
    then have "code = ls" by (simp add: code_def dropWhile_eq_Nil_conv takeWhile_eq_all_conv)
    with uncommented.Code [OF code] show ?thesis by blast
  next
    case (Cons l rest)
    then have ls: "ls = code @ l # rest" "comment_start l"
      using takeWhile_dropWhile_id [of "\<lambda>l. \<not> comment_start l" ls] hd_dropWhile [of "\<lambda>l. \<not> comment_start l" ls]
      by (simp_all add: code_def)
    define body where "body = takeWhile (\<lambda>l. \<not> comment_end l) (l # rest)"
    have body: "list_all (\<lambda>l. \<not> comment_end l) body" by (auto simp: body_def list_all_iff dest: set_takeWhileD)
    show ?thesis
    proof (cases "dropWhile (\<lambda>l. \<not> comment_end l) (l # rest)")
      case Nil
      then have "body = l # rest" by (metis append_Nil2 body_def takeWhile_dropWhile_id)
      with uncommented.Open [OF code ls(2), of rest n] body ls(1) show ?thesis by auto
    next
      case (Cons k rest')
      have parts: "l # rest = body @ k # rest'" "comment_end k"
        using takeWhile_dropWhile_id [of "\<lambda>l. \<not> comment_end l" "l # rest"] hd_dropWhile [of "\<lambda>l. \<not> comment_end l" "l # rest"] Cons
        by (simp_all only: body_def [symmetric] list.sel not_not) simp_all
      let ?comment = "body @ [k]"
      have hd: "hd ?comment = l" using parts(1) by (cases body) auto
      have "length rest' < length ls" using arg_cong [OF parts(1), of length] ls(1) by simp
      from less.hyps [OF this, of "n + length code + length ?comment"] obtain out open_at where
        next_part: "uncommented (n + length code + length ?comment) rest' out open_at" by blast
      have "uncommented n (code @ ?comment @ rest') (code @ replicate (length ?comment) ''/**/'' @ out) open_at"
        by (rule uncommented.Comment [OF code _ _ _ _ next_part]) (use hd ls(2) body parts(2) in simp_all)
      moreover have "ls = code @ ?comment @ rest'" using ls(1) parts(1) by simp
      ultimately show ?thesis by blast
    qed
  qed
qed

text \<open>C35: the removal of comments that span lines is exactly the relation above: the lines of code stay as they
  are, the lines of the comments and no others become blank, and the one error that is reported is that of
  a comment that does not end.\<close>

theorem RemoveMultiLineComments_iff:
  "RemoveMultiLineComments filename ls = (out, open_comment_errors filename open_at) \<longleftrightarrow> uncommented 0 ls out open_at"
proof -
  have removed: "uncommented 0 ls out' at' \<Longrightarrow> RemoveMultiLineComments filename ls = (out', open_comment_errors filename at')" for out' at'
    using uncommented_removed [of 0 ls out' at' "[]" filename] by (simp add: RemoveMultiLineComments_def)
  obtain out' at' where other: "uncommented 0 ls out' at'" using uncommented_total by blast
  show ?thesis
  proof
    assume "RemoveMultiLineComments filename ls = (out, open_comment_errors filename open_at)"
    with removed [OF other] have "out' = out" "open_comment_errors filename at' = open_comment_errors filename open_at" by simp_all
    moreover from this(2) have "at' = open_at"
      by (cases at'; cases open_at) (simp_all add: open_comment_errors_def mk_error_def)
    ultimately show "uncommented 0 ls out open_at" using other by simp
  qed (rule removed)
qed

text \<open>CleanseComments hides the text of a line comment: whatever follows the slashes, the result
  is that of the code before them without its trailing spaces.\<close>

theorem CleanseComments_hides_comment:
  assumes "\<not> contains (code @ ''/'') ''//''" "\<not> IsCppString code"
  shows "CleanseComments (code @ ''//'' @ comment) = CleanseComments (rstrip code)"
proof -
  have at: "find_sub (code @ ''//'' @ comment) ''//'' = Some (length code)"
    using assms(1)
  proof (induction code)
    case (Cons x xs)
    then have "\<not> starts_with (x # xs @ ''//'' @ comment) ''//''" "\<not> contains (xs @ ''/'') ''//''"
      by (cases xs; auto simp: contains_iff starts_with_iff Cons_eq_append_conv)+
    with Cons.IH show ?case by simp
  qed simp
  obtain t where "code = rstrip code @ t"
    by (metis rstrip_def rev_append rev_rev_ident takeWhile_dropWhile_id)
  with assms(1) have "find_sub (rstrip code) ''//'' = None"
    unfolding find_sub_None contains_iff by (metis append_assoc)
  with at assms(2) show ?thesis by (simp add: CleanseComments_def)
qed

theorem CleanseComments_hides_comment_witness:
  "CleanseComments (''x = y / z;  '' @ ''//'' @ '' a /* comment'') = CleanseComments (rstrip ''x = y / z;  '')"
  by (rule CleanseComments_hides_comment) code_simp+

end
