(* ===== verification/Brackets.thy ===== *)
theory Brackets
  imports Cleanse
begin

text \<open>
  Matching of brackets (\<open>cpplint.py\<close>, from \<open>FindEndOfExpressionInLine\<close> to
  \<open>ReverseCloseExpression\<close>). The stack of open brackets is a list with its top first. The two
  scans return a position, or \<open>-1\<close> with the stack at the end of the line, or \<open>-1\<close> without a
  stack when the expression cannot be closed. An index out of range is \<open>None\<close>.
\<close>

section \<open>Scanning forward\<close>

definition re_operator_end :: re where
  "re_operator_end = rseq [WordB, rlit ''operator'', spaces, Eol]"

definition matching :: "char \<Rightarrow> char \<Rightarrow> bool" where
  "matching a b = (a = CHR ''('' \<and> b = CHR '')'' \<or> a = CHR ''['' \<and> b = CHR '']'' \<or> a = CHR ''{'' \<and> b = CHR ''}'')"

type_synonym scan_result = "int \<times> string option"

text \<open>One character: a result that is returned, or the stack for the next one.\<close>

definition end_step :: "string \<Rightarrow> nat \<Rightarrow> string \<Rightarrow> scan_result + string" where
  "end_step line i stack =
     (let char = line ! i in
      if char \<in> set ''([{'' then Inr (char # stack)
      else if char = CHR ''<'' then
        if i > 0 \<and> line ! (i - 1) = CHR ''<'' then
          (case stack of
             t # rest \<Rightarrow> if t = CHR ''<'' then if rest = [] then Inl (-1, None) else Inr rest else Inr stack
           | [] \<Rightarrow> Inr stack)
        else if i > 0 \<and> found re_operator_end (take i line) then Inr stack
        else Inr (CHR ''<'' # stack)
      else if char \<in> set '')]}'' then
        (case dropWhile (\<lambda>t. t = CHR ''<'') stack of
           [] \<Rightarrow> Inl (-1, None)
         | t # rest \<Rightarrow>
             if matching t char then if rest = [] then Inl (int i + 1, None) else Inr rest
             else Inl (-1, None))
      else if char = CHR ''>'' then
        if i > 0 \<and> (line ! (i - 1) = CHR ''-'' \<or> found re_operator_end (take (i - 1) line)) then Inr stack
        else
          (case stack of
             t # rest \<Rightarrow> if t = CHR ''<'' then if rest = [] then Inl (int i + 1, None) else Inr rest else Inr stack
           | [] \<Rightarrow> Inr stack)
      else if char = CHR '';'' then
        let stack = dropWhile (\<lambda>t. t = CHR ''<'') stack in
        if stack = [] then Inl (-1, None) else Inr stack
      else Inr stack)"

function FindEndOfExpressionInLine :: "string \<Rightarrow> nat \<Rightarrow> string \<Rightarrow> scan_result" where
  "FindEndOfExpressionInLine line i stack =
     (if i < length line then
        (case end_step line i stack of
           Inl result \<Rightarrow> result
         | Inr stack' \<Rightarrow> FindEndOfExpressionInLine line (i + 1) stack')
      else (-1, Some stack))"
  by pat_completeness auto
termination by (relation "measure (\<lambda>(line, i, stack). length line - i)") auto

declare FindEndOfExpressionInLine.simps [simp del]

text \<open>The loop of \<open>CloseExpression\<close> over the lines that follow.\<close>

function close_forward :: "cleansed_lines \<Rightarrow> string \<Rightarrow> nat \<Rightarrow> string option \<Rightarrow> (string \<times> nat \<times> int) option" where
  "close_forward clean_lines line linenum stack =
     (if stack \<noteq> None \<and> stack \<noteq> Some [] \<and> linenum + 1 < NumLines clean_lines then do {
        line \<leftarrow> py_nth (elided clean_lines) (int (linenum + 1));
        let (end_pos, stack) = FindEndOfExpressionInLine line 0 (the stack);
        if end_pos > -1 then Some (line, linenum + 1, end_pos)
        else close_forward clean_lines line (linenum + 1) stack
      }
      else Some (line, NumLines clean_lines, -1))"
  by pat_completeness auto
termination by (relation "measure (\<lambda>(cl, line, linenum, stack). NumLines cl - linenum)") auto

declare close_forward.simps [simp del]

definition re_shift_or_le :: re where
  "re_shift_or_le = rseq [rchr (CHR ''<''), one_of ''<='']"

definition CloseExpression :: "cleansed_lines \<Rightarrow> nat \<Rightarrow> nat \<Rightarrow> (string \<times> nat \<times> int) option" where
  "CloseExpression clean_lines linenum pos = do {
     line \<leftarrow> py_nth (elided clean_lines) (int linenum);
     c \<leftarrow> py_nth line (int pos);
     if c \<notin> set ''({[<'' \<or> matches re_shift_or_le (drop pos line) then Some (line, NumLines clean_lines, -1)
     else
       let (end_pos, stack) = FindEndOfExpressionInLine line pos [] in
       if end_pos > -1 then Some (line, linenum, end_pos)
       else close_forward clean_lines line linenum stack
   }"

section \<open>Scanning backward\<close>

definition re_spaced_ge :: re where
  "re_spaced_ge = rseq [rspace, rlit ''>='', rspace]"

text \<open>One character of the backward scan: the next position and stack, or the result.\<close>

definition start_step :: "string \<Rightarrow> nat \<Rightarrow> string \<Rightarrow> scan_result + int \<times> string" where
  "start_step line i stack =
     (let char = line ! i in
      if char \<in> set '')]}'' then Inr (int i - 1, char # stack)
      else if char = CHR ''>'' then
        if i > 0 \<and> (line ! (i - 1) = CHR ''-'' \<or> matches re_spaced_ge (drop (i - 1) line) \<or>
            found re_operator_end (take i line)) then Inr (int i - 2, stack)
        else Inr (int i - 1, CHR ''>'' # stack)
      else if char = CHR ''<'' then
        if i > 0 \<and> line ! (i - 1) = CHR ''<'' then Inr (int i - 2, stack)
        else
          (case stack of
             t # rest \<Rightarrow> if t = CHR ''>'' then if rest = [] then Inl (int i, None) else Inr (int i - 1, rest)
                        else Inr (int i - 1, stack)
           | [] \<Rightarrow> Inr (int i - 1, stack))
      else if char \<in> set ''([{'' then
        (case dropWhile (\<lambda>t. t = CHR ''>'') stack of
           [] \<Rightarrow> Inl (-1, None)
         | t # rest \<Rightarrow>
             if matching char t then if rest = [] then Inl (int i, None) else Inr (int i - 1, rest)
             else Inl (-1, None))
      else if char = CHR '';'' then
        let stack = dropWhile (\<lambda>t. t = CHR ''>'') stack in
        if stack = [] then Inl (-1, None) else Inr (int i - 1, stack)
      else Inr (int i - 1, stack))"

lemma start_step_back: "start_step line i stack = Inr (j, stack') \<Longrightarrow> j < int i"
  by (auto simp: start_step_def Let_def split: if_splits list.splits)

function FindStartOfExpressionInLine :: "string \<Rightarrow> int \<Rightarrow> string \<Rightarrow> scan_result option" where
  "FindStartOfExpressionInLine line i stack =
     (if 0 \<le> i then
        if i < int (length line) then
          (case start_step line (nat i) stack of
             Inl result \<Rightarrow> Some result
           | Inr (j, stack') \<Rightarrow> FindStartOfExpressionInLine line j stack')
        else None
      else Some (-1, Some stack))"
  by pat_completeness auto
termination
  by (relation "measure (\<lambda>(line, i, stack). nat (i + 1))") (auto dest: start_step_back)

declare FindStartOfExpressionInLine.simps [simp del]

primrec close_backward :: "cleansed_lines \<Rightarrow> string \<Rightarrow> nat \<Rightarrow> string option \<Rightarrow> (string \<times> nat \<times> int) option" where
  "close_backward clean_lines line 0 stack = Some (line, 0, -1)"
| "close_backward clean_lines line (Suc linenum) stack =
     (if stack \<noteq> None \<and> stack \<noteq> Some [] then do {
        line \<leftarrow> py_nth (elided clean_lines) (int linenum);
        (start_pos, stack) \<leftarrow> FindStartOfExpressionInLine line (int (length line) - 1) (the stack);
        if start_pos > -1 then Some (line, linenum, start_pos)
        else close_backward clean_lines line linenum stack
      }
      else Some (line, 0, -1))"

definition ReverseCloseExpression :: "cleansed_lines \<Rightarrow> nat \<Rightarrow> nat \<Rightarrow> (string \<times> nat \<times> int) option" where
  "ReverseCloseExpression clean_lines linenum pos = do {
     line \<leftarrow> py_nth (elided clean_lines) (int linenum);
     c \<leftarrow> py_nth line (int pos);
     if c \<notin> set '')}]>'' then Some (line, 0, -1)
     else do {
       (start_pos, stack) \<leftarrow> FindStartOfExpressionInLine line (int pos) [];
       if start_pos > -1 then Some (line, linenum, start_pos)
       else close_backward clean_lines line linenum stack
     }
   }"

section \<open>Bounds\<close>

lemma end_step_result:
  "end_step line i stack = Inl (e, st) \<Longrightarrow> st = None \<and> (e = -1 \<or> e = int i + 1 \<and> line ! i \<in> set '')]}>'')"
  by (auto simp: end_step_def Let_def split: if_splits list.splits)

lemma find_end_bounds:
  assumes "FindEndOfExpressionInLine line i stack = (e, st)"
  shows "e = -1 \<or> st = None \<and> int i < e \<and> e \<le> int (length line) \<and> line ! nat (e - 1) \<in> set '')]}>''"
  using assms
proof (induction line i stack rule: FindEndOfExpressionInLine.induct)
  case (1 line i stack)
  show ?case
  proof (cases "i < length line")
    case True
    show ?thesis
    proof (cases "end_step line i stack")
      case (Inl r)
      with 1(2) True have "end_step line i stack = Inl (e, st)" by (subst (asm) FindEndOfExpressionInLine.simps) simp
      from end_step_result [OF this] True show ?thesis by auto
    next
      case (Inr stack')
      with 1(2) True have "FindEndOfExpressionInLine line (i + 1) stack' = (e, st)"
        by (subst (asm) FindEndOfExpressionInLine.simps) simp
      from "1.IH" [OF True Inr this] show ?thesis by auto
    qed
  qed (use 1(2) in \<open>subst (asm) FindEndOfExpressionInLine.simps, simp\<close>)
qed

text \<open>A pointer that \<open>CloseExpression\<close> returns: just past a closing character of the file, or none.\<close>

definition close_pointer :: "cleansed_lines \<Rightarrow> nat \<Rightarrow> string \<times> nat \<times> int \<Rightarrow> bool" where
  "close_pointer cl linenum r = (case r of (line, n, p) \<Rightarrow>
     p = -1 \<and> n = NumLines cl \<or>
     linenum \<le> n \<and> n < NumLines cl \<and> line = elided cl ! n \<and> 0 < p \<and> p \<le> int (length line) \<and>
     line ! nat (p - 1) \<in> set '')]}>'')"

lemma close_forward_total:
  assumes "well_formed cl" "linenum < NumLines cl"
  shows "\<exists>r. close_forward cl line linenum stack = Some r \<and> close_pointer cl linenum r"
  using assms
proof (induction cl line linenum stack rule: close_forward.induct)
  case (1 cl line linenum stack)
  show ?case
  proof (cases "stack \<noteq> None \<and> stack \<noteq> Some [] \<and> linenum + 1 < NumLines cl")
    case True
    then have len: "linenum + 1 < length (elided cl)" using 1(2) by (simp add: well_formed_def NumLines_def)
    obtain e st where f: "FindEndOfExpressionInLine (elided cl ! (linenum + 1)) 0 (the stack) = (e, st)" by fastforce
    have eq: "close_forward cl line linenum stack =
        (if e > -1 then Some (elided cl ! (linenum + 1), linenum + 1, e)
         else close_forward cl (elided cl ! (linenum + 1)) (linenum + 1) st)"
      using True len f py_nth_nat [of "elided cl" "linenum + 1"] by (subst close_forward.simps) simp
    show ?thesis
    proof (cases "e > -1")
      case e: True
      with find_end_bounds [OF f] have "close_pointer cl linenum (elided cl ! (linenum + 1), linenum + 1, e)"
        using True by (simp add: close_pointer_def)
      with eq e show ?thesis by simp
    next
      case False
      have "\<exists>r. close_forward cl (elided cl ! (linenum + 1)) (linenum + 1) st = Some r \<and> close_pointer cl (linenum + 1) r"
        by (rule "1.IH" [OF True _ f [symmetric] refl _ 1(2)])
          (use True len False py_nth_nat [of "elided cl" "linenum + 1"] in auto)
      with eq False show ?thesis by (fastforce simp: close_pointer_def)
    qed
  qed (subst close_forward.simps, auto simp: close_pointer_def)
qed

lemma CloseExpression_pointer:
  assumes "well_formed cl" "linenum < NumLines cl" "pos < length (elided cl ! linenum)"
  shows "\<exists>r. CloseExpression cl linenum pos = Some r \<and> close_pointer cl linenum r"
proof -
  obtain e st where f: "FindEndOfExpressionInLine (elided cl ! linenum) pos [] = (e, st)" by fastforce
  have none: "close_pointer cl linenum (elided cl ! linenum, NumLines cl, -1)" by (simp add: close_pointer_def)
  have found: "e > -1 \<Longrightarrow> close_pointer cl linenum (elided cl ! linenum, linenum, e)"
    using find_end_bounds [OF f] assms(2) by (simp add: close_pointer_def)
  have "linenum < length (elided cl)" using assms by (simp add: well_formed_def NumLines_def)
  with assms(3) f none found close_forward_total [OF assms(1,2)] show ?thesis
    by (simp add: CloseExpression_def)
qed

text \<open>CloseExpression is total on the positions of a file: it returns a pointer just past a closing
  character at or after the given line, within the line it names, or the value for no close.\<close>

theorem CloseExpression_bounds:
  assumes "well_formed cl" "linenum < NumLines cl" "pos < length (elided cl ! linenum)"
  shows "\<exists>r. CloseExpression cl linenum pos = Some r \<and> close_pointer cl linenum r"
  using assms by (rule CloseExpression_pointer)

definition bracket_file :: cleansed_lines where
  "bracket_file = (let ls = [''f(a[0],'', ''  g());''] in
     \<lparr>elided = ls, lines = ls, raw_lines = ls, num_lines = 2, lines_without_raw_strings = ls\<rparr>)"

theorem CloseExpression_bounds_witness:
  "\<exists>r. CloseExpression bracket_file 0 1 = Some r \<and> close_pointer bracket_file 0 r"
  by (rule CloseExpression_bounds) (simp_all add: bracket_file_def well_formed_def NumLines_def Let_def)

lemma start_step_result:
  "start_step line i stack = Inl (s, st) \<Longrightarrow> st = None \<and> (s = -1 \<or> s = int i \<and> line ! i \<in> set ''([{<'')"
  by (auto simp: start_step_def Let_def split: if_splits list.splits)

lemma find_start_bounds:
  assumes "i < int (length line)"
  shows "\<exists>s st. FindStartOfExpressionInLine line i stack = Some (s, st) \<and>
    (s = -1 \<or> st = None \<and> 0 \<le> s \<and> s \<le> i \<and> line ! nat s \<in> set ''([{<'')"
  using assms
proof (induction line i stack rule: FindStartOfExpressionInLine.induct)
  case (1 line i stack)
  show ?case
  proof (cases "0 \<le> i")
    case True
    show ?thesis
    proof (cases "start_step line (nat i) stack")
      case (Inl r)
      obtain s st where "r = (s, st)" by fastforce
      with start_step_result [of line "nat i" stack s st] Inl True 1(2) show ?thesis
        by (subst FindStartOfExpressionInLine.simps) auto
    next
      case (Inr r)
      obtain j stack' where r: "r = (j, stack')" by fastforce
      with Inr True have j: "j < i" using start_step_back [of line "nat i" stack j stack'] by simp
      with 1(2) have "j < int (length line)" by simp
      from "1.IH" [OF True 1(2) Inr r [symmetric] this]
      obtain s st where "FindStartOfExpressionInLine line j stack' = Some (s, st)"
        "s = -1 \<or> st = None \<and> 0 \<le> s \<and> s \<le> j \<and> line ! nat s \<in> set ''([{<''" by blast
      with j Inr r True 1(2) show ?thesis by (subst FindStartOfExpressionInLine.simps) auto
    qed
  qed (subst FindStartOfExpressionInLine.simps, simp)
qed

definition open_pointer :: "cleansed_lines \<Rightarrow> nat \<Rightarrow> string \<times> nat \<times> int \<Rightarrow> bool" where
  "open_pointer cl linenum r = (case r of (line, n, p) \<Rightarrow>
     p = -1 \<and> n = 0 \<or>
     n \<le> linenum \<and> line = elided cl ! n \<and> 0 \<le> p \<and> p < int (length line) \<and> line ! nat p \<in> set ''([{<'')"

lemma close_backward_total:
  assumes "well_formed cl" "linenum < NumLines cl"
  shows "\<exists>r. close_backward cl line linenum stack = Some r \<and> open_pointer cl linenum r"
  using assms(2)
proof (induction linenum arbitrary: line stack)
  case (Suc n)
  let ?line = "elided cl ! n"
  have n: "n < length (elided cl)" using assms(1) Suc(2) by (simp add: well_formed_def NumLines_def)
  obtain s st where f: "FindStartOfExpressionInLine ?line (int (length ?line) - 1) (the stack) = Some (s, st)"
    "s = -1 \<or> st = None \<and> 0 \<le> s \<and> s \<le> int (length ?line) - 1 \<and> ?line ! nat s \<in> set ''([{<''"
    using find_start_bounds [of "int (length ?line) - 1" ?line "the stack"] by auto
  obtain r where r: "close_backward cl ?line n st = Some r" "open_pointer cl n r" using Suc by fastforce
  from r(2) have "open_pointer cl (Suc n) r" by (auto simp: open_pointer_def)
  with f r n show ?case by (auto simp: open_pointer_def)
qed (simp add: open_pointer_def)

lemma ReverseCloseExpression_pointer:
  assumes "well_formed cl" "linenum < NumLines cl" "pos < length (elided cl ! linenum)"
  shows "\<exists>r. ReverseCloseExpression cl linenum pos = Some r \<and> open_pointer cl linenum r"
proof -
  let ?line = "elided cl ! linenum"
  obtain s st where f: "FindStartOfExpressionInLine ?line (int pos) [] = Some (s, st)"
    "s = -1 \<or> st = None \<and> 0 \<le> s \<and> s \<le> int pos \<and> ?line ! nat s \<in> set ''([{<''"
    using find_start_bounds [of "int pos" ?line "[]"] assms(3) by auto
  have "linenum < length (elided cl)" using assms by (simp add: well_formed_def NumLines_def)
  with assms(3) f close_backward_total [OF assms(1,2), of ?line st] show ?thesis
    by (auto simp: ReverseCloseExpression_def open_pointer_def)
qed

text \<open>ReverseCloseExpression is total on the positions of a file, and what it returns is a pointer at
  an opening character at or before the given line, or the value for no opening.\<close>

theorem ReverseCloseExpression_bounds:
  assumes "well_formed cl" "linenum < NumLines cl" "pos < length (elided cl ! linenum)"
  shows "\<exists>r. ReverseCloseExpression cl linenum pos = Some r \<and> open_pointer cl linenum r"
  using assms by (rule ReverseCloseExpression_pointer)

theorem ReverseCloseExpression_bounds_witness:
  "\<exists>r. ReverseCloseExpression bracket_file 1 4 = Some r \<and> open_pointer bracket_file 1 r"
  by (rule ReverseCloseExpression_bounds) (simp_all add: bracket_file_def well_formed_def NumLines_def Let_def)

section \<open>Matching and the balanced words\<close>

text \<open>
  On text without angle brackets the scan is bracket matching: it finds the end of the text
  that a grammar of balanced words describes.
\<close>

definition plain :: "char \<Rightarrow> bool" where
  "plain c = (c \<notin> set ''([{<>)]}'')"

inductive balanced :: "string \<Rightarrow> bool" where
  Nil: "balanced []"
| Plain: "plain c \<Longrightarrow> balanced w \<Longrightarrow> balanced (c # w)"
| Nest: "matching a b \<Longrightarrow> balanced u \<Longrightarrow> balanced w \<Longrightarrow> balanced (a # u @ b # w)"

lemma balanced_append: "balanced u \<Longrightarrow> balanced v \<Longrightarrow> balanced (u @ v)"
proof (induction rule: balanced.induct)
  case (Nest a b u w)
  then have "balanced (a # u @ b # (w @ v))" by (intro balanced.Nest) auto
  then show ?case by simp
qed (auto intro: balanced.intros)

text \<open>The word that closes all the brackets of a stack.\<close>

fun closes :: "string \<Rightarrow> string \<Rightarrow> bool" where
  "closes [] w = (w = [])"
| "closes (t # ts) w = (\<exists>u b v. w = u @ b # v \<and> balanced u \<and> matching t b \<and> closes ts v)"

lemma closes_prefix:
  assumes "balanced u" "st \<noteq> []" "closes st w" shows "closes st (u @ w)"
proof (cases st)
  case (Cons t ts)
  with assms(3) obtain u' b v where w: "w = u' @ b # v" "balanced u'" "matching t b" "closes ts v" by auto
  then have "u @ w = (u @ u') @ b # v" "balanced (u @ u')" using balanced_append assms(1) by auto
  with w Cons show ?thesis by (metis closes.simps(2))
qed (use assms in simp)

lemma closes_push: "matching c b \<Longrightarrow> st \<noteq> [] \<Longrightarrow> closes (c # st) w \<Longrightarrow> closes st (c # w)"
proof -
  assume "matching c b" and st: "st \<noteq> []" and "closes (c # st) w"
  then obtain u b' v where w: "w = u @ b' # v" "balanced u" "matching c b'" "closes st v" by auto
  have "balanced (c # u @ b' # [])" by (intro balanced.intros w)
  from closes_prefix [OF this st w(4)] w(1) show ?thesis by simp
qed

text \<open>A run of a bracket automaton: the stack after a word, as long as it is not emptied earlier.\<close>

definition bracket_step :: "char \<Rightarrow> string \<Rightarrow> string option" where
  "bracket_step c st =
     (if c \<in> set ''([{'' then Some (c # st)
      else if c \<in> set '')]}'' then
        (case st of [] \<Rightarrow> None | t # ts \<Rightarrow> if matching t c then Some ts else None)
      else Some st)"

fun bracket_run :: "string \<Rightarrow> string \<Rightarrow> string option" where
  "bracket_run st [] = Some st"
| "bracket_run st (c # w) =
     (case bracket_step c st of None \<Rightarrow> None
      | Some st' \<Rightarrow> if st' = [] then (if w = [] then Some [] else None) else bracket_run st' w)"

lemma matching_step:
  "matching a b \<Longrightarrow> bracket_step a st = Some (a # st)"
  "matching a b \<Longrightarrow> bracket_step b (a # st) = Some st"
  by (auto simp: matching_def bracket_step_def)

lemma opener_matched: "c \<in> set ''([{'' \<Longrightarrow> \<exists>b. matching c b"
  by (auto simp: matching_def)

lemma plain_step: "plain c \<Longrightarrow> bracket_step c st = Some st"
  by (auto simp: plain_def bracket_step_def)

lemma bracket_run_append:
  "v \<noteq> [] \<Longrightarrow> bracket_run st (u @ v) =
    (case bracket_run st u of None \<Rightarrow> None
     | Some st' \<Rightarrow> if st' = [] \<and> u \<noteq> [] then None else bracket_run st' v)"
  by (induction st u rule: bracket_run.induct) (auto split: option.splits)

lemma balanced_run: "balanced u \<Longrightarrow> st \<noteq> [] \<Longrightarrow> bracket_run st u = Some st"
proof (induction arbitrary: st rule: balanced.induct)
  case (Nest a b u w)
  from Nest.hyps(1) have "bracket_run st (a # u @ b # w) = bracket_run (a # st) (u @ b # w)"
    by (simp add: matching_step)
  also have "\<dots> = bracket_run (a # st) (b # w)"
    using Nest.IH(1) [of "a # st"] by (simp add: bracket_run_append)
  also have "\<dots> = Some st"
    using Nest.hyps(1) Nest.IH(2) Nest.prems by (simp add: matching_step)
  finally show ?case .
qed (auto simp: plain_step)

lemma closes_run: "closes st w \<Longrightarrow> st \<noteq> [] \<Longrightarrow> bracket_run st w = Some []"
proof (induction st arbitrary: w)
  case (Cons t ts)
  then obtain u b v where w: "w = u @ b # v" "balanced u" "matching t b" "closes ts v" by auto
  have "bracket_run (t # ts) w = bracket_run (t # ts) (b # v)"
    using balanced_run [OF w(2), of "t # ts"] w(1) by (simp add: bracket_run_append)
  also have "\<dots> = Some []"
    by (cases "ts = []") (use w(3,4) Cons.IH [OF w(4)] in \<open>simp_all add: matching_step\<close>)
  finally show ?case .
qed simp

definition no_angle :: "string \<Rightarrow> bool" where
  "no_angle w = (CHR ''<'' \<notin> set w \<and> CHR ''>'' \<notin> set w)"

lemma run_closes:
  "bracket_run st w = Some [] \<Longrightarrow> st \<noteq> [] \<Longrightarrow> no_angle w \<Longrightarrow> closes st w"
proof (induction st w rule: bracket_run.induct)
  case (2 st c w)
  then obtain st' where step: "bracket_step c st = Some st'" by (auto split: option.splits)
  from 2(4) have na: "no_angle w" by (simp add: no_angle_def)
  have rest: "st' \<noteq> [] \<Longrightarrow> closes st' w" "st' = [] \<Longrightarrow> w = []"
    using "2.IH" [OF step _ _ _ na] 2(2) step by (auto split: if_splits)
  consider "c \<in> set ''([{''" | "c \<in> set '')]}''" | "plain c"
    using 2(4) by (auto simp: plain_def no_angle_def)
  then show ?case
  proof cases
    case open_char: 1
    then have "st' = c # st" using step by (auto simp: bracket_step_def)
    then have "closes (c # st) w" using rest(1) by simp
    with opener_matched [OF open_char] closes_push 2(3) show ?thesis by blast
  next
    case close_char: 2
    then obtain t where st: "st = t # st'" "matching t c"
      using step by (auto simp: bracket_step_def split: list.splits if_splits)
    have "closes st' w" using rest by (cases "st' = []") auto
    then have "c # w = [] @ c # w \<and> balanced [] \<and> matching t c \<and> closes st' w"
      using st(2) balanced.Nil by simp
    then show ?thesis unfolding st(1) closes.simps by blast
  next
    case plain_char: 3
    then have "st' = st" using step by (simp add: plain_step)
    then have "closes st w" using rest(1) 2(3) by simp
    from closes_prefix [OF balanced.Plain [OF plain_char balanced.Nil] 2(3) this] show ?thesis by simp
  qed
qed simp

lemma bracket_run_single:
  assumes "no_angle w"
  shows "bracket_run [c] w = Some [] \<longleftrightarrow> (\<exists>u b. w = u @ [b] \<and> balanced u \<and> matching c b)"
  using run_closes [OF _ _ assms, of "[c]"] closes_run [of "[c]" w] by auto

subsection \<open>One line\<close>

definition angle_free :: "string \<Rightarrow> bool" where
  "angle_free st = (st \<noteq> [] \<and> CHR ''<'' \<notin> set st)"

lemma angle_free_drop [simp]: "angle_free st \<Longrightarrow> dropWhile (\<lambda>t. t = CHR ''<'') st = st"
  by (cases st) (auto simp: angle_free_def)

lemma bracket_step_angle: "bracket_step c st = Some st' \<Longrightarrow> c \<noteq> CHR ''<'' \<Longrightarrow> angle_free st \<or> st = [] \<Longrightarrow>
    st' = [] \<or> angle_free st'"
  by (auto simp: bracket_step_def angle_free_def split: if_splits list.splits)

lemma end_step_bracket:
  assumes "angle_free st" "line ! i \<noteq> CHR ''<''" "line ! i \<noteq> CHR ''>''"
  shows "end_step line i st =
    (case bracket_step (line ! i) st of None \<Rightarrow> Inl (-1, None)
     | Some st' \<Rightarrow> if st' = [] then Inl (int i + 1, None) else Inr st')"
  using assms by (auto simp: end_step_def bracket_step_def Let_def angle_free_def split: list.splits)

lemma no_angle_step:
  assumes "i < length line" "no_angle (drop i line)"
  shows "line ! i \<noteq> CHR ''<''" "line ! i \<noteq> CHR ''>''" "no_angle (drop (Suc i) line)"
  using assms unfolding Cons_nth_drop_Suc [OF assms(1), symmetric] no_angle_def by auto

lemma find_end_step:
  assumes "angle_free st" "i < length line" "no_angle (drop i line)"
  shows "FindEndOfExpressionInLine line i st =
    (case bracket_step (line ! i) st of None \<Rightarrow> (-1, None)
     | Some st' \<Rightarrow> if st' = [] then (int i + 1, None) else FindEndOfExpressionInLine line (i + 1) st')"
  using assms no_angle_step [OF assms(2,3)]
  by (subst FindEndOfExpressionInLine.simps) (auto simp: end_step_bracket split: option.splits)

lemma find_end_sound:
  assumes "angle_free st" "no_angle (drop i line)" "FindEndOfExpressionInLine line i st = (e, r)"
  shows "(e > -1 \<longrightarrow> int i < e \<and> nat e \<le> length line \<and> bracket_run st (take (nat e - i) (drop i line)) = Some []) \<and>
    (r = None \<or> (\<exists>st'. r = Some st' \<and> e = -1 \<and> angle_free st' \<and> bracket_run st (drop i line) = Some st'))"
  using assms
proof (induction "length line - i" arbitrary: i st)
  case 0
  then show ?case by (subst (asm) FindEndOfExpressionInLine.simps) auto
next
  case (Suc k)
  then have i: "i < length line" by simp
  note na = no_angle_step [OF i Suc(4)]
  show ?case
  proof (cases "bracket_step (line ! i) st")
    case None
    with find_end_step [OF Suc(3) i Suc(4)] Suc(5) show ?thesis by simp
  next
    case (Some st')
    show ?thesis
    proof (cases "st' = []")
      case True
      with find_end_step [OF Suc(3) i Suc(4)] Suc(5) Some have "e = int i + 1" "r = None" by auto
      then have "nat e - i = 1" by simp
      with i Some True \<open>e = int i + 1\<close> \<open>r = None\<close> show ?thesis
        by (simp add: take_Suc Cons_nth_drop_Suc [symmetric])
    next
      case False
      with Some Suc(3) na(1) bracket_step_angle have af: "angle_free st'" by blast
      from False find_end_step [OF Suc(3) i Suc(4)] Suc(5) Some
      have "FindEndOfExpressionInLine line (i + 1) st' = (e, r)" by simp
      with Suc.hyps(1) [of "Suc i" st'] Suc.hyps(2) af na(3)
      have IH: "(e > -1 \<longrightarrow> int (Suc i) < e \<and> nat e \<le> length line \<and>
          bracket_run st' (take (nat e - Suc i) (drop (Suc i) line)) = Some []) \<and>
        (r = None \<or> (\<exists>st2. r = Some st2 \<and> e = -1 \<and> angle_free st2 \<and> bracket_run st' (drop (Suc i) line) = Some st2))"
        by simp
      have "take (nat e - i) (drop i line) = line ! i # take (nat e - Suc i) (drop (Suc i) line)" if "int (Suc i) < e"
      proof -
        from that have "nat e - i = Suc (nat e - Suc i)" by simp
        then show ?thesis using i by (simp add: Cons_nth_drop_Suc [symmetric])
      qed
      with IH Some False i show ?thesis by (auto simp: Cons_nth_drop_Suc [symmetric])
    qed
  qed
qed

lemma find_end_complete:
  assumes "angle_free st" "no_angle (drop i line)" "drop i line = w @ v" "bracket_run st w = Some st'"
    and "i \<le> length line"
  shows "st' = [] \<Longrightarrow> FindEndOfExpressionInLine line i st = (int (i + length w), None)"
    and "st' \<noteq> [] \<Longrightarrow> v = [] \<Longrightarrow> FindEndOfExpressionInLine line i st = (-1, Some st') \<and> angle_free st'"
proof -
  have "(st' = [] \<longrightarrow> FindEndOfExpressionInLine line i st = (int (i + length w), None)) \<and>
    (st' \<noteq> [] \<and> v = [] \<longrightarrow> FindEndOfExpressionInLine line i st = (-1, Some st') \<and> angle_free st')"
    using assms
  proof (induction w arbitrary: i st)
    case Nil
    then show ?case by (subst FindEndOfExpressionInLine.simps) (auto simp: angle_free_def)
  next
    case (Cons c w)
    from Cons.prems(3) have i: "i < length line" by (metis drop_all list.distinct(1) append_Cons not_less)
    from Cons.prems(3) i have c: "line ! i = c" "drop (Suc i) line = w @ v"
      by (auto simp: Cons_nth_drop_Suc [symmetric])
    note na = no_angle_step [OF i Cons.prems(2)]
    from Cons.prems(4) obtain st1 where st1: "bracket_step c st = Some st1"
      "if st1 = [] then w = [] \<and> st' = [] else bracket_run st1 w = Some st'"
      by (auto split: option.splits if_splits)
    show ?case
    proof (cases "st1 = []")
      case True
      with st1 c find_end_step [OF Cons.prems(1) i Cons.prems(2)] show ?thesis by auto
    next
      case False
      with bracket_step_angle [OF st1(1)] na(1) c Cons.prems(1) have "angle_free st1" by blast
      with Cons.IH [of st1 "Suc i"] na(3) c(2) st1(2) False i
      have "(st' = [] \<longrightarrow> FindEndOfExpressionInLine line (Suc i) st1 = (int (Suc i + length w), None)) \<and>
        (st' \<noteq> [] \<and> v = [] \<longrightarrow> FindEndOfExpressionInLine line (Suc i) st1 = (-1, Some st') \<and> angle_free st')"
        by simp
      with find_end_step [OF Cons.prems(1) i Cons.prems(2)] c st1(1) False show ?thesis by auto
    qed
  qed
  then show "st' = [] \<Longrightarrow> FindEndOfExpressionInLine line i st = (int (i + length w), None)"
    and "st' \<noteq> [] \<Longrightarrow> v = [] \<Longrightarrow> FindEndOfExpressionInLine line i st = (-1, Some st') \<and> angle_free st'" by blast+
qed

subsection \<open>Several lines\<close>

text \<open>The text from a position of the file to another, without the line ends.\<close>

definition text_range :: "string list \<Rightarrow> nat \<Rightarrow> nat \<Rightarrow> nat \<Rightarrow> nat \<Rightarrow> string" where
  "text_range ls n0 p0 n p =
     (if n = n0 then take (p - p0) (drop p0 (ls ! n0))
      else drop p0 (ls ! n0) @ concat (map ((!) ls) [n0 + 1 ..< n]) @ take p (ls ! n))"

lemma no_angle_append [simp]: "no_angle (u @ v) \<longleftrightarrow> no_angle u \<and> no_angle v"
  by (auto simp: no_angle_def)

lemma no_angle_drop: "no_angle w \<Longrightarrow> no_angle (drop k w)"
  using set_drop_subset [of k w] by (auto simp: no_angle_def)

lemma no_angle_take: "no_angle w \<Longrightarrow> no_angle (take k w)"
  using set_take_subset [of k w] by (auto simp: no_angle_def)

definition rest_text :: "string list \<Rightarrow> nat \<Rightarrow> nat \<Rightarrow> nat \<Rightarrow> string" where
  "rest_text ls n0 n p = concat (map ((!) ls) [n0 + 1 ..< n]) @ take p (ls ! n)"

lemma rest_text_Suc:
  "rest_text ls n0 (Suc n0) p = take p (ls ! Suc n0)"
  "Suc n0 < n \<Longrightarrow> rest_text ls n0 n p = ls ! Suc n0 @ rest_text ls (Suc n0) n p"
  by (auto simp: rest_text_def upt_conv_Cons)

lemma close_forward_step:
  assumes "angle_free st" "linenum + 1 < NumLines cl" "linenum + 1 < length (elided cl)"
    and "FindEndOfExpressionInLine (elided cl ! (linenum + 1)) 0 st = (e, r)"
  shows "close_forward cl line linenum (Some st) =
    (if e > -1 then Some (elided cl ! (linenum + 1), linenum + 1, e)
     else close_forward cl (elided cl ! (linenum + 1)) (linenum + 1) r)"
  using assms py_nth_nat [of "elided cl" "linenum + 1"]
  by (subst close_forward.simps) (simp add: angle_free_def)

lemma close_forward_None: "close_forward cl line linenum None = Some (line, NumLines cl, -1)"
  by (subst close_forward.simps) simp

lemma close_forward_sound:
  assumes "well_formed cl" "\<And>i. linenum < i \<Longrightarrow> i < NumLines cl \<Longrightarrow> no_angle (elided cl ! i)"
    and "angle_free st" "close_forward cl line linenum (Some st) = Some (l, n, p)" "p > -1"
  shows "linenum < n \<and> n < NumLines cl \<and> l = elided cl ! n \<and> 0 < p \<and> nat p \<le> length l \<and>
    bracket_run st (rest_text (elided cl) linenum n (nat p)) = Some []"
  using assms
proof (induction "NumLines cl - linenum" arbitrary: linenum line st rule: less_induct)
  case less
  show ?case
  proof (cases "linenum + 1 < NumLines cl")
    case False
    with less.prems(4,5) show ?thesis by (subst (asm) close_forward.simps) auto
  next
    case True
    let ?line = "elided cl ! (linenum + 1)"
    have len: "linenum + 1 < length (elided cl)" using True less.prems(1) by (simp add: well_formed_def NumLines_def)
    have na: "no_angle (drop 0 ?line)" using less.prems(2) True by simp
    obtain e r where f: "FindEndOfExpressionInLine ?line 0 st = (e, r)" by fastforce
    note step = close_forward_step [OF less.prems(3) True len f]
    from find_end_sound [OF less.prems(3) na f]
    have s: "e > -1 \<Longrightarrow> 0 < e \<and> nat e \<le> length ?line \<and> bracket_run st (take (nat e) ?line) = Some []"
      "r = None \<or> (\<exists>st'. r = Some st' \<and> e = -1 \<and> angle_free st' \<and> bracket_run st ?line = Some st')" by auto
    show ?thesis
    proof (cases "e > -1")
      case e: True
      with step less.prems(4) have "l = ?line" "n = Suc linenum" "p = e" by auto
      with s(1) [OF e] True show ?thesis by (simp add: rest_text_Suc)
    next
      case e: False
      with step less.prems(4,5) close_forward_None obtain st' where
          st': "r = Some st'" "angle_free st'" "bracket_run st ?line = Some st'"
          "close_forward cl ?line (Suc linenum) (Some st') = Some (l, n, p)"
        using s(2) by fastforce
      have "Suc linenum < n \<and> n < NumLines cl \<and> l = elided cl ! n \<and> 0 < p \<and> nat p \<le> length l \<and>
          bracket_run st' (rest_text (elided cl) (Suc linenum) n (nat p)) = Some []"
        by (rule less.hyps [OF _ less.prems(1) _ st'(2,4) less.prems(5)]) (use True less.prems(2) in auto)
      moreover from this st'(2) have "rest_text (elided cl) (Suc linenum) n (nat p) \<noteq> []"
        by (auto simp: angle_free_def)
      ultimately show ?thesis
        using st' by (auto simp: rest_text_Suc bracket_run_append angle_free_def)
    qed
  qed
qed

lemma bracket_run_prefix:
  assumes "bracket_run st (u @ v) = Some []" "v \<noteq> []" "st \<noteq> []"
  shows "\<exists>st'. bracket_run st u = Some st' \<and> st' \<noteq> [] \<and> bracket_run st' v = Some []"
  using assms by (auto simp: bracket_run_append split: option.splits if_splits)

lemma close_forward_complete:
  assumes "well_formed cl" "\<And>i. linenum < i \<Longrightarrow> i < NumLines cl \<Longrightarrow> no_angle (elided cl ! i)"
    and "angle_free st" "linenum < n" "n < NumLines cl" "0 < p" "p \<le> length (elided cl ! n)"
    and "bracket_run st (rest_text (elided cl) linenum n p) = Some []"
  shows "close_forward cl line linenum (Some st) = Some (elided cl ! n, n, int p)"
  using assms
proof (induction "n - linenum" arbitrary: linenum line st)
  case 0
  then show ?case by simp
next
  case (Suc k)
  let ?line = "elided cl ! (linenum + 1)"
  have lt: "linenum + 1 < NumLines cl" using Suc.prems(4,5) by simp
  then have len: "linenum + 1 < length (elided cl)" using Suc.prems(1) by (simp add: well_formed_def NumLines_def)
  have na: "no_angle (drop 0 ?line)" using Suc.prems(2) lt by simp
  show ?case
  proof (cases "n = Suc linenum")
    case True
    then have "bracket_run st (take p ?line) = Some []" using Suc.prems(8) by (simp add: rest_text_Suc)
    from find_end_complete(1) [OF Suc.prems(3) na _ this, of "drop p ?line"] True Suc.prems(7)
    have "FindEndOfExpressionInLine ?line 0 st = (int p, None)" by simp
    from close_forward_step [OF Suc.prems(3) lt len this] True show ?thesis by simp
  next
    case False
    with Suc.prems(4) have n: "Suc linenum < n" by simp
    have "rest_text (elided cl) (Suc linenum) n p \<noteq> []" using Suc.prems(6,7) by (auto simp: rest_text_def)
    with bracket_run_prefix Suc.prems(3,8) n obtain st' where
        st': "bracket_run st ?line = Some st'" "st' \<noteq> []"
          "bracket_run st' (rest_text (elided cl) (Suc linenum) n p) = Some []"
      by (force simp: rest_text_Suc(2) angle_free_def)
    from find_end_complete(2) [OF Suc.prems(3) na _ st'(1) _ st'(2), of "[]"]
    have f: "FindEndOfExpressionInLine ?line 0 st = (-1, Some st')" and af: "angle_free st'" by simp_all
    have "close_forward cl ?line (Suc linenum) (Some st') = Some (elided cl ! n, n, int p)"
      by (rule Suc.hyps(1) [OF _ Suc.prems(1) _ af n Suc.prems(5-7) st'(3)]) (use Suc.hyps(2) Suc.prems(2) in auto)
    with close_forward_step [OF Suc.prems(3) lt len f] show ?thesis by simp
  qed
qed

lemma text_range_Cons:
  assumes "pos < length (ls ! n0)" "n0 < n \<or> n = n0 \<and> pos < p"
  shows "text_range ls n0 pos n p = ls ! n0 ! pos #
    (if n = n0 then take (p - Suc pos) (drop (Suc pos) (ls ! n0)) else drop (Suc pos) (ls ! n0) @ rest_text ls n0 n p)"
proof -
  have d: "drop pos (ls ! n0) = ls ! n0 ! pos # drop (Suc pos) (ls ! n0)"
    using assms(1) by (simp add: Cons_nth_drop_Suc)
  show ?thesis
  proof (cases "n = n0")
    case True
    with assms(2) have "p - pos = Suc (p - Suc pos)" by auto
    with True d show ?thesis by (simp add: text_range_def)
  qed (simp add: text_range_def rest_text_def d)
qed

lemma text_range_None:
  "pos < length (ls ! n0) \<Longrightarrow> text_range ls n0 pos n p = c # w \<Longrightarrow> n0 \<le> n \<Longrightarrow> n0 < n \<or> n = n0 \<and> pos < p"
  by (cases "pos < p") (auto simp: text_range_def split: if_splits)

lemma find_end_open:
  assumes "pos < length line" "line ! pos \<in> set ''([{''"
  shows "FindEndOfExpressionInLine line pos [] = FindEndOfExpressionInLine line (Suc pos) [line ! pos]"
  using assms by (subst FindEndOfExpressionInLine.simps) (simp add: end_step_def Let_def)

lemma CloseExpression_open:
  assumes "linenum < length (elided cl)" "pos < length (elided cl ! linenum)" "elided cl ! linenum ! pos \<in> set ''([{''"
    and "FindEndOfExpressionInLine (elided cl ! linenum) (Suc pos) [elided cl ! linenum ! pos] = (e, r)"
  shows "CloseExpression cl linenum pos =
    (if e > -1 then Some (elided cl ! linenum, linenum, e) else close_forward cl (elided cl ! linenum) linenum r)"
proof -
  have "\<not> matches re_shift_or_le (drop pos (elided cl ! linenum))"
    using assms(2,3) by (auto simp: matches_rel re_shift_or_le_def Cons_nth_drop_Suc [symmetric])
  with assms find_end_open [OF assms(2,3)] show ?thesis by (simp add: CloseExpression_def) auto
qed

text \<open>C1: on text without angle brackets, CloseExpression finds the matching bracket: it returns a
  pointer iff the text from the opening bracket up to the pointer is that bracket, a balanced word,
  and the bracket that matches it; the text may span lines.\<close>

theorem CloseExpression_matches:
  assumes "well_formed cl" "linenum < NumLines cl" "pos < length (elided cl ! linenum)"
    and "elided cl ! linenum ! pos = c" "c \<in> set ''([{''"
    and "no_angle (drop pos (elided cl ! linenum))"
    and "\<And>i. linenum < i \<Longrightarrow> i < NumLines cl \<Longrightarrow> no_angle (elided cl ! i)"
  shows "CloseExpression cl linenum pos = Some (elided cl ! n, n, int p) \<longleftrightarrow>
    linenum \<le> n \<and> n < NumLines cl \<and> 0 < p \<and> p \<le> length (elided cl ! n) \<and>
    (\<exists>body b. text_range (elided cl) linenum pos n p = c # body @ [b] \<and> balanced body \<and> matching c b)"
    (is "?c = ?f \<longleftrightarrow> _ \<and> _ \<and> _ \<and> _ \<and> ?text")
proof -
  let ?range = "linenum \<le> n \<and> n < NumLines cl \<and> 0 < p \<and> p \<le> length (elided cl ! n)"
  let ?line = "elided cl ! linenum"
  have len: "linenum < length (elided cl)" using assms(1,2) by (simp add: well_formed_def NumLines_def)
  obtain e r where f: "FindEndOfExpressionInLine ?line (Suc pos) [c] = (e, r)" by fastforce
  have close: "?c = (if e > -1 then Some (?line, linenum, e) else close_forward cl ?line linenum r)"
    using CloseExpression_open [OF len assms(3)] assms(4,5) f by simp
  have af: "angle_free [c]" using assms(5) by (auto simp: angle_free_def)
  have na: "no_angle (drop (Suc pos) ?line)" using no_angle_step(3) assms(3,6) by blast
  define w where "w = (if n = linenum then take (p - Suc pos) (drop (Suc pos) ?line)
    else drop (Suc pos) ?line @ rest_text (elided cl) linenum n p)"
  have na_w: "no_angle w" if range: "?range"
  proof (cases "n = linenum")
    case True
    then show ?thesis using na by (simp add: w_def no_angle_take)
  next
    case False
    with range assms(7) have "no_angle (take p (elided cl ! n))" by (simp add: no_angle_take)
    moreover have "no_angle (concat (map ((!) (elided cl)) [linenum + 1 ..< n]))"
      using assms(7) range unfolding no_angle_def by fastforce
    ultimately show ?thesis using False na by (simp add: w_def rest_text_def)
  qed
  have "?text \<longleftrightarrow> (linenum < n \<or> n = linenum \<and> pos < p) \<and> bracket_run [c] w = Some []" if range: "?range"
    using bracket_run_single [OF na_w [OF range]] range assms(4)
      text_range_Cons [OF assms(3), of n p] text_range_None [OF assms(3), of n p]
    unfolding w_def [symmetric] by (metis list.inject)
  moreover have "(?c = ?f) \<longleftrightarrow> ?range \<and> (linenum < n \<or> n = linenum \<and> pos < p) \<and> bracket_run [c] w = Some []"
  proof
    assume c: "?c = ?f"
    show "?range \<and> (linenum < n \<or> n = linenum \<and> pos < p) \<and> bracket_run [c] w = Some []"
    proof (cases "e > -1")
      case True
      with c close find_end_sound [OF af na f] assms(2) show ?thesis by (auto simp: w_def)
    next
      case False
      with c close close_forward_None find_end_sound [OF af na f] obtain st' where
          st': "angle_free st'" "bracket_run [c] (drop (Suc pos) ?line) = Some st'"
          "close_forward cl ?line linenum (Some st') = Some (elided cl ! n, n, int p)" by fastforce
      from close_forward_sound [OF assms(1,7) st'(1,3)]
      have "linenum < n" "n < NumLines cl" "0 < p" "p \<le> length (elided cl ! n)"
        "bracket_run st' (rest_text (elided cl) linenum n p) = Some []" by auto
      moreover from this(5) st'(1) have "rest_text (elided cl) linenum n p \<noteq> []" by (auto simp: angle_free_def)
      ultimately show ?thesis using st' by (auto simp: w_def bracket_run_append angle_free_def)
    qed
  next
    assume r: "?range \<and> (linenum < n \<or> n = linenum \<and> pos < p) \<and> bracket_run [c] w = Some []"
    show "?c = ?f"
    proof (cases "n = linenum")
      case True
      with r have "FindEndOfExpressionInLine ?line (Suc pos) [c] =
          (int (Suc pos + length (take (p - Suc pos) (drop (Suc pos) ?line))), None)"
        using find_end_complete(1) [OF af na append_take_drop_id [symmetric], of "p - Suc pos" "[]"] assms(3)
        by (simp add: w_def del: length_take)
      moreover have "length (take (p - Suc pos) (drop (Suc pos) ?line)) = p - Suc pos" using r True by auto
      ultimately show ?thesis using f close True r by auto
    next
      case False
      with r have "bracket_run [c] (drop (Suc pos) ?line @ rest_text (elided cl) linenum n p) = Some []"
        by (simp add: w_def)
      moreover have "rest_text (elided cl) linenum n p \<noteq> []" using r by (auto simp: rest_text_def)
      ultimately obtain st' where st': "bracket_run [c] (drop (Suc pos) ?line) = Some st'" "st' \<noteq> []"
        "bracket_run st' (rest_text (elided cl) linenum n p) = Some []"
        using bracket_run_prefix by blast
      from find_end_complete(2) [OF af na _ st'(1) _ st'(2), of "[]"] assms(3)
      have "FindEndOfExpressionInLine ?line (Suc pos) [c] = (-1, Some st')" "angle_free st'" by simp_all
      with close_forward_complete [OF assms(1,7) _ _ _ _ _ st'(3)] False r f close show ?thesis by auto
    qed
  qed
  ultimately show ?thesis by blast
qed

theorem CloseExpression_matches_witness:
  "CloseExpression bracket_file 0 1 = Some (elided bracket_file ! 1, 1, int 6)"
proof -
  have plain: "plain c" if "c \<in> set ''a0, g''" for c using that by (auto simp: plain_def)
  have m: "matching (CHR ''('') (CHR '')'')" "matching (CHR ''['') (CHR '']'')" by (simp_all add: matching_def)
  have "balanced ''()''" using balanced.Nest [OF m(1) balanced.Nil balanced.Nil] by simp
  then have "balanced '',  g()''" by (simp add: balanced.Plain plain)
  moreover have "balanced ''0''" by (simp add: balanced.Plain balanced.Nil plain)
  ultimately have "balanced ''[0],  g()''" using balanced.Nest [OF m(2)] by fastforce
  then have "balanced ''a[0],  g()''" by (simp add: balanced.Plain plain)
  then show ?thesis
    using CloseExpression_matches [of bracket_file 0 1 "CHR ''(''" 1 6]
    by (simp add: bracket_file_def well_formed_def NumLines_def Let_def no_angle_def text_range_def matching_def
      numeral_eq_Suc less_Suc_eq)
qed

end
