(* ===== verification/Paths.thy ===== *)
theory Paths
  imports Suppress
begin

text \<open>
  File names (\<open>cpplint.py\<close>, class \<open>FileInfo\<close>, \<open>PathSplitToList\<close> and
  \<open>GetHeaderGuardCPPVariable\<close>) over the part of Python's \<open>posixpath\<close> that they use. The
  file system is an argument: the working directory and the test whether a path exists.

  One loop of \<open>RepositoryName\<close> need not end; it is a \<open>partial_function\<close>, and
  \<open>None\<close> is a run that never returns.
\<close>

section \<open>Paths\<close>

record path_env =
  cwd :: string
  path_exists :: "string \<Rightarrow> bool"

abbreviation SL :: char where "SL \<equiv> CHR ''/''"

definition strip_slashes :: "string \<Rightarrow> string" where
  "strip_slashes head = (if \<forall>c \<in> set head. c = SL then head else rstrip_char SL head)"

definition path_split :: "string \<Rightarrow> string \<times> string" where
  "path_split p = (let i = rfind1 SL p in (strip_slashes (take i p), drop i p))"

definition dirname :: "string \<Rightarrow> string" where
  "dirname p = fst (path_split p)"

text \<open>\<open>splitext\<close>: the last dot counts unless only dots stand between the last slash and it.\<close>

definition splitext :: "string \<Rightarrow> string \<times> string" where
  "splitext p =
     (let sep = rfind1 SL p; dot = rfind1 (CHR ''.'') p in
      if sep < dot \<and> (\<exists>c \<in> set (take (dot - 1 - sep) (drop sep p)). c \<noteq> CHR ''.'')
      then (take (dot - 1) p, drop (dot - 1) p) else (p, []))"

definition path_join :: "string \<Rightarrow> string \<Rightarrow> string" where
  "path_join a b =
     (if starts_with b [SL] then b
      else if a = [] \<or> ends_with a [SL] then a @ b
      else a @ [SL] @ b)"

fun path_join_all :: "string list \<Rightarrow> string" where
  "path_join_all [] = []"
| "path_join_all (a # bs) = foldl path_join a bs"

definition norm_comp :: "bool \<Rightarrow> string list \<Rightarrow> string \<Rightarrow> string list" where
  "norm_comp absolute comps c =
     (if c = [] \<or> c = ''.'' then comps
      else if c \<noteq> ''..'' \<or> \<not> absolute \<and> comps = [] \<or> comps \<noteq> [] \<and> last comps = ''..'' then comps @ [c]
      else butlast comps)"

definition normpath :: "string \<Rightarrow> string" where
  "normpath p =
     (if p = [] then ''.''
      else
        let slashes = (if \<not> starts_with p [SL] then 0
                       else if starts_with p [SL, SL] \<and> \<not> starts_with p [SL, SL, SL] then 2 else 1);
            comps = foldl (norm_comp (slashes \<noteq> 0)) [] (split_sub [SL] p);
            path = replicate slashes SL @ join [SL] comps
        in if path = [] then ''.'' else path)"

definition abspath :: "path_env \<Rightarrow> string \<Rightarrow> string" where
  "abspath env p = normpath (if starts_with p [SL] then p else path_join (cwd env) p)"

fun common_prefix :: "'a list \<Rightarrow> 'a list \<Rightarrow> 'a list" where
  "common_prefix (x # xs) (y # ys) = (if x = y then x # common_prefix xs ys else [])"
| "common_prefix _ _ = []"

definition relpath :: "path_env \<Rightarrow> string \<Rightarrow> string \<Rightarrow> string" where
  "relpath env p start =
     (let comps = (\<lambda>q. filter (\<lambda>c. c \<noteq> []) (split_sub [SL] (abspath env q)));
          i = length (common_prefix (comps start) (comps p));
          rel = replicate (length (comps start) - i) ''..'' @ drop i (comps p)
      in if rel = [] then ''.'' else path_join_all rel)"

lemma rfind1_le: "rfind1 c s \<le> length s"
  by (simp add: rfind1_def) (metis length_dropWhile_le length_rev)

lemma rfind1_tail: "c \<notin> set (drop (rfind1 c s) s)"
proof -
  have "drop (rfind1 c s) s = rev (takeWhile (\<lambda>x. x \<noteq> c) (rev s))"
  proof -
    have "rev s = takeWhile (\<lambda>x. x \<noteq> c) (rev s) @ dropWhile (\<lambda>x. x \<noteq> c) (rev s)" by simp
    then have "s = rev (dropWhile (\<lambda>x. x \<noteq> c) (rev s)) @ rev (takeWhile (\<lambda>x. x \<noteq> c) (rev s))"
      by (metis rev_append rev_rev_ident)
    then show ?thesis by (metis append_eq_conv_conj length_rev rfind1_def)
  qed
  then show ?thesis by (auto dest: set_takeWhileD)
qed

lemma rfind1_last: "0 < rfind1 c s \<Longrightarrow> s ! (rfind1 c s - 1) = c"
proof -
  assume "0 < rfind1 c s"
  define d where "d = dropWhile (\<lambda>x. x \<noteq> c) (rev s)"
  with \<open>0 < rfind1 c s\<close> have d: "d \<noteq> []" "length d = rfind1 c s" by (auto simp: rfind1_def)
  have "rev s = takeWhile (\<lambda>x. x \<noteq> c) (rev s) @ d" by (simp add: d_def)
  then have "s = rev d @ rev (takeWhile (\<lambda>x. x \<noteq> c) (rev s))" by (metis rev_append rev_rev_ident)
  then have "s ! (length d - 1) = hd d"
    using d(1) by (metis diff_less hd_conv_nth last_conv_nth last_rev length_greater_0_conv length_rev nth_append
      rev_is_Nil_conv zero_less_one)
  also have "\<dots> = c" using d(1) hd_dropWhile [of "\<lambda>x. x \<noteq> c" "rev s"] by (simp add: d_def)
  finally show ?thesis using d(2) by simp
qed

lemma length_strip_slashes: "length (strip_slashes h) \<le> length h"
  by (simp add: strip_slashes_def rstrip_char_def) (metis length_dropWhile_le length_rev)

lemma dirname_shorter: "dirname p = p \<or> length (dirname p) < length p"
proof (cases "rfind1 SL p = length p \<and> (\<forall>c \<in> set p. c = SL)")
  case True
  then show ?thesis by (simp add: dirname_def path_split_def strip_slashes_def Let_def)
next
  case False
  then show ?thesis
  proof (cases "rfind1 SL p < length p")
    case True
    with length_strip_slashes [of "take (rfind1 SL p) p"] show ?thesis
      by (simp add: dirname_def path_split_def Let_def)
  next
    case all: False
    with rfind1_le [of SL p] have all: "rfind1 SL p = length p" by simp
    with False have notall: "\<not> (\<forall>c \<in> set p. c = SL)" by blast
    then have "p \<noteq> []" by auto
    then have "last p = SL" using rfind1_last [of SL p] all by (simp add: last_conv_nth)
    with \<open>p \<noteq> []\<close> obtain q where "p = q @ [SL]" by (metis append_butlast_last_id)
    then have "length (rstrip_char SL p) < length p"
      by (simp add: rstrip_char_def) (metis length_dropWhile_le length_rev le_imp_less_Suc)
    with all notall show ?thesis by (simp add: dirname_def path_split_def strip_slashes_def Let_def)
  qed
qed

section \<open>File names and the repository\<close>

definition FullName :: "path_env \<Rightarrow> string \<Rightarrow> string" where
  "FullName env filename = replace_sub [BSL] [SL] (abspath env filename)"

text \<open>The three upward walks of \<open>RepositoryName\<close>; \<open>normcase\<close> is the identity on POSIX.\<close>

function find_repository :: "path_env \<Rightarrow> string \<Rightarrow> string \<Rightarrow> string option" where
  "find_repository env repo root_dir =
     (if \<not> path_exists env root_dir then None
      else if root_dir = repo then Some root_dir
      else if dirname root_dir = root_dir then None
      else find_repository env repo (dirname root_dir))"
  by pat_completeness auto
termination
  by (relation "measure (\<lambda>(env, repo, d). length d)") (use dirname_shorter in auto)

partial_function (option) svn_root :: "path_env \<Rightarrow> string \<Rightarrow> string \<Rightarrow> string option" where
  [code]: "svn_root env root_dir one_up_dir =
     (if path_exists env (path_join one_up_dir ''.svn'')
      then svn_root env (dirname root_dir) (dirname one_up_dir)
      else Some root_dir)"

definition has_vcs :: "path_env \<Rightarrow> string \<Rightarrow> bool" where
  "has_vcs env d = (path_exists env (path_join d ''.git'') \<or> path_exists env (path_join d ''.hg'') \<or>
     path_exists env (path_join d ''.svn''))"

function vcs_root :: "path_env \<Rightarrow> string \<Rightarrow> string \<Rightarrow> string" where
  "vcs_root env root_dir current_dir =
     (if current_dir \<noteq> dirname current_dir then
        vcs_root env (if has_vcs env current_dir then current_dir else root_dir) (dirname current_dir)
      else root_dir)"
  by pat_completeness auto
termination
  by (relation "measure (\<lambda>(env, root_dir, d). length d)") (simp, simp, metis dirname_shorter)

declare find_repository.simps [simp del] vcs_root.simps [simp del]

text \<open>A module-wide option that is unset or empty counts as absent.\<close>

definition given :: "string option \<Rightarrow> bool" where
  "given opt = (opt \<noteq> None \<and> opt \<noteq> Some [])"

definition RepositoryName :: "path_env \<Rightarrow> string option \<Rightarrow> string \<Rightarrow> string option" where
  "RepositoryName env repository filename =
     (let fullname = FullName env filename; project_dir = dirname fullname in
      if \<not> path_exists env fullname then Some fullname
      else
        case (if given repository then find_repository env (FullName env (the repository)) project_dir else None) of
          Some root_dir \<Rightarrow> Some (replace_sub [BSL] [SL] (relpath env fullname root_dir))
        | None \<Rightarrow>
            if path_exists env (path_join project_dir ''.svn'') then do {
              root_dir \<leftarrow> svn_root env project_dir (dirname project_dir);
              Some (drop (length (common_prefix root_dir project_dir) + 1) fullname)
            }
            else
              let root_dir = vcs_root env project_dir project_dir in
              if has_vcs env root_dir then
                Some (drop (length (common_prefix root_dir project_dir) + 1) fullname)
              else Some fullname)"

definition FileInfo_Split :: "path_env \<Rightarrow> string option \<Rightarrow> string \<Rightarrow> (string \<times> string \<times> string) option" where
  "FileInfo_Split env repository filename = do {
     googlename \<leftarrow> RepositoryName env repository filename;
     let (project, rest) = path_split googlename;
     Some (project, splitext rest)
   }"

definition BaseName :: "path_env \<Rightarrow> string option \<Rightarrow> string \<Rightarrow> string option" where
  "BaseName env repository filename = map_option (\<lambda>(_, base, _). base) (FileInfo_Split env repository filename)"

definition Extension :: "path_env \<Rightarrow> string option \<Rightarrow> string \<Rightarrow> string option" where
  "Extension env repository filename = map_option (\<lambda>(_, _, ext). ext) (FileInfo_Split env repository filename)"

definition NoExtension :: "path_env \<Rightarrow> string option \<Rightarrow> string \<Rightarrow> string option" where
  "NoExtension env repository filename =
     map_option (\<lambda>(project, base, _). join [SL] [project, base]) (FileInfo_Split env repository filename)"

definition IsSource :: "extension_options \<Rightarrow> path_env \<Rightarrow> string option \<Rightarrow> string \<Rightarrow> bool option" where
  "IsSource opts env repository filename =
     map_option (\<lambda>ext. IsSourceExtension opts (drop 1 ext)) (Extension env repository filename)"

section \<open>Path components\<close>

function PathSplitToList :: "string \<Rightarrow> string list" where
  "PathSplitToList path =
     (let (head, tail) = path_split path in
      if head = path then [head]
      else if tail = path then [tail]
      else PathSplitToList head @ [tail])"
  by pat_completeness auto
termination
proof (relation "measure length")
  fix path x head tail assume "x = path_split path" "(head, tail) = x" "head \<noteq> path"
  then show "(head, path) \<in> measure length" using dirname_shorter [of path] by (simp add: dirname_def) (metis fst_conv)
qed simp

declare PathSplitToList.simps [simp del]

section \<open>The header guard\<close>

definition re_flymake_h :: re where
  "re_flymake_h = rseq [rlit ''_flymake.h'', Eol]"

definition re_flymake_dir :: re where
  "re_flymake_dir = rseq [rlit ''/.flymake/'', Grp 1 (Star (none_of ''/'')), Eol]"

definition strip_list_prefix :: "'a list \<Rightarrow> 'a list \<Rightarrow> 'a list option" where
  "strip_list_prefix lst prefix = (if take (length prefix) lst \<noteq> prefix then None else Some (drop (length prefix) lst))"

text \<open>A list that is absent or empty is false.\<close>

definition nonempty :: "'a list option \<Rightarrow> 'a list option" where
  "nonempty l = (if l = Some [] then None else l)"

definition FixupPathFromRoot :: "path_env \<Rightarrow> string option \<Rightarrow> string \<Rightarrow> string \<Rightarrow> string" where
  "FixupPathFromRoot env root filename file_path_from_root =
     (if \<not> given root then file_path_from_root
      else
        case nonempty (strip_list_prefix (PathSplitToList file_path_from_root) (PathSplitToList (the root))) of
          Some maybe_path \<Rightarrow> path_join_all maybe_path
        | None \<Rightarrow>
            (case nonempty (strip_list_prefix (PathSplitToList (FullName env filename))
                     (PathSplitToList (abspath env (the root)))) of
               Some maybe_path \<Rightarrow> path_join_all maybe_path
             | None \<Rightarrow> file_path_from_root))"

text \<open>The file name as the guard is computed from it.\<close>

definition guard_filename :: "string \<Rightarrow> string" where
  "guard_filename filename =
     (let filename = re_sub re_flymake_h (\<lambda>_. ''.h'') filename;
          filename = re_sub re_flymake_dir (\<lambda>m. ''/'' @ group_text m 1) filename
      in replace_sub ''c++'' ''cpp'' (replace_sub ''C++'' ''cpp'' filename))"

definition guard_of_path :: "string \<Rightarrow> string" where
  "guard_of_path path =
     map ascii_upper_char (re_sub (Cls (\<lambda>c. \<not> ascii_alnum c)) (\<lambda>_. ''_'') path) @ ''_''"

definition GetHeaderGuardCPPVariable :: "path_env \<Rightarrow> string option \<Rightarrow> string option \<Rightarrow> string \<Rightarrow> string option" where
  "GetHeaderGuardCPPVariable env root repository filename = do {
     let filename = guard_filename filename;
     file_path_from_root \<leftarrow> RepositoryName env repository filename;
     Some (guard_of_path (FixupPathFromRoot env root filename file_path_from_root))
   }"

section \<open>When the repository name is found\<close>

lemma svn_root_Some:
  assumes "svn_root env r d = Some x"
  shows "\<exists>k. \<not> path_exists env (path_join ((dirname ^^ k) d) ''.svn'')"
proof (rule svn_root.raw_induct [OF _ assms])
  fix rec :: "path_env \<Rightarrow> string \<Rightarrow> string \<Rightarrow> string option" and env r d x
  assume IH: "\<And>env r d x. rec env r d = Some x \<Longrightarrow> \<exists>k. \<not> path_exists env (path_join ((dirname ^^ k) d) ''.svn'')"
    and step: "(if path_exists env (path_join d ''.svn'') then rec env (dirname r) (dirname d) else Some r) = Some x"
  show "\<exists>k. \<not> path_exists env (path_join ((dirname ^^ k) d) ''.svn'')"
  proof (cases "path_exists env (path_join d ''.svn'')")
    case True
    with step IH obtain k where "\<not> path_exists env (path_join ((dirname ^^ k) (dirname d)) ''.svn'')"
      by auto metis
    then show ?thesis by (intro exI [of _ "Suc k"]) (simp add: funpow_swap1)
  next
    case False
    then show ?thesis by (intro exI [of _ 0]) simp
  qed
qed

lemma svn_root_total: "\<not> path_exists env (path_join ((dirname ^^ k) d) ''.svn'') \<Longrightarrow> \<exists>x. svn_root env r d = Some x"
proof (induction k arbitrary: r d)
  case 0
  then show ?case by (subst svn_root.simps) simp
next
  case (Suc k)
  then have "\<exists>x. svn_root env (dirname r) (dirname d) = Some x" by (simp add: funpow_swap1)
  then show ?case by (subst svn_root.simps) auto
qed

text \<open>C28: RepositoryName returns except in one case: it runs forever iff the file exists, no given
  repository contains it, and every directory above it, the root directory included, has a
  \<open>.svn\<close> entry.\<close>

theorem RepositoryName_diverges:
  "RepositoryName env repository filename = None \<longleftrightarrow>
     path_exists env (FullName env filename) \<and>
     (if given repository then find_repository env (FullName env (the repository)) (dirname (FullName env filename))
      else None) = None \<and>
     (\<forall>k. path_exists env (path_join ((dirname ^^ k) (dirname (FullName env filename))) ''.svn''))"
proof -
  let ?d = "dirname (FullName env filename)"
  have all: "(\<forall>k. path_exists env (path_join ((dirname ^^ k) ?d) ''.svn'')) \<longleftrightarrow>
      path_exists env (path_join ?d ''.svn'') \<and> svn_root env ?d (dirname ?d) = None"
    (is "?l \<longleftrightarrow> ?r")
  proof
    assume l: ?l
    then have "path_exists env (path_join ((dirname ^^ k) (dirname ?d)) ''.svn'')" for k
      using l [rule_format, of "Suc k"] by (simp add: funpow_swap1)
    then have "svn_root env ?d (dirname ?d) = None" using svn_root_Some by (metis not_None_eq)
    with l [rule_format, of 0] show ?r by simp
  next
    assume r: ?r
    show ?l
    proof
      fix k show "path_exists env (path_join ((dirname ^^ k) ?d) ''.svn'')"
      proof (cases k)
        case (Suc j)
        with svn_root_total [of env j "dirname ?d" ?d] r show ?thesis by (auto simp: funpow_swap1)
      qed (use r in simp)
    qed
  qed
  let ?found = "if given repository then find_repository env (FullName env (the repository)) ?d else None"
  show ?thesis
    unfolding all
    by (cases "?found"; cases "svn_root env ?d (dirname ?d)"; simp only: RepositoryName_def Let_def) auto
qed

section \<open>Round trips and the guard's alphabet\<close>

lemma splitext_append: "fst (splitext p) @ snd (splitext p) = p"
  by (simp add: splitext_def Let_def)

lemma path_split_Nil [simp]: "path_split [] = ([], [])"
  by (simp add: path_split_def strip_slashes_def)

text \<open>A path without two slashes in a row is its directory, a slash where one is missing, and its tail.\<close>

lemma path_split_parts:
  assumes "\<not> contains p [SL, SL]"
  shows "path_split p = ([], p) \<and> SL \<notin> set p \<or> (\<exists>t. p = SL # t \<and> path_split p = ([SL], t) \<and> SL \<notin> set t) \<or>
    (\<exists>h t. p = h @ SL # t \<and> h \<noteq> [] \<and> last h \<noteq> SL \<and> SL \<notin> set t \<and> path_split p = (h, t))"
proof (cases "rfind1 SL p")
  case 0
  with rfind1_tail [of SL p] show ?thesis by (simp add: path_split_def strip_slashes_def)
next
  case (Suc n)
  define h where "h = take n p"
  define t where "t = drop (Suc n) p"
  have n: "n < length p" using rfind1_le [of SL p] Suc by simp
  have "p ! n = SL" using rfind1_last [of SL p] Suc by simp
  with n have p: "p = h @ SL # t" unfolding h_def t_def by (metis id_take_nth_drop)
  have t: "SL \<notin> set t" using rfind1_tail [of SL p] Suc by (simp add: t_def)
  have take: "take (Suc n) p = h @ [SL]" "drop (Suc n) p = t"
    using n \<open>p ! n = SL\<close> by (simp_all add: h_def t_def take_Suc_conv_app_nth)
  show ?thesis
  proof (cases "h = []")
    case True
    have "path_split p = (strip_slashes [SL], t)"
      by (simp only: path_split_def Let_def Suc take True append_Nil)
    with p t True show ?thesis by (simp add: strip_slashes_def)
  next
    case False
    have last: "last h \<noteq> SL"
    proof
      assume "last h = SL"
      with False p have "p = butlast h @ [SL, SL] @ t"
        by (metis append.assoc append_Cons append_Nil append_butlast_last_id)
      with assms show False by (auto simp: contains_iff)
    qed
    then have "\<exists>c \<in> set h. c \<noteq> SL" using False last_in_set by blast
    moreover have "dropWhile (\<lambda>x. x = SL) (rev h) = rev h"
      using False last by (cases h rule: rev_cases) auto
    ultimately have "strip_slashes (h @ [SL]) = h"
      by (auto simp: strip_slashes_def rstrip_char_def)
    with Suc p t take False last show ?thesis by (auto simp: path_split_def Let_def)
  qed
qed

lemma path_components_nonempty: "PathSplitToList p \<noteq> []"
  by (subst PathSplitToList.simps) (simp add: Let_def split: prod.split)

lemma path_join_all_snoc: "xs \<noteq> [] \<Longrightarrow> path_join_all (xs @ [x]) = path_join (path_join_all xs) x"
  by (cases xs) auto

text \<open>Splitting a path into its components and joining them again gives the path back, if no two
  slashes follow each other.\<close>

theorem PathSplitToList_join:
  assumes "\<not> contains p ''//''"
  shows "path_join_all (PathSplitToList p) = p"
  using assms
proof (induction p rule: PathSplitToList.induct)
  case (1 p)
  have whole: "PathSplitToList p = [p] \<Longrightarrow> ?case" by simp
  from path_split_parts [OF "1.prems"] consider "path_split p = ([], p)"
    | t where "p = SL # t" "path_split p = ([SL], t)" "SL \<notin> set t"
    | h t where "p = h @ SL # t" "h \<noteq> []" "last h \<noteq> SL" "SL \<notin> set t" "path_split p = (h, t)" by blast
  then show ?case
  proof cases
    case 1
    then show ?thesis by (intro whole) (subst PathSplitToList.simps, simp)
  next
    case 2
    have "PathSplitToList [SL] = [[SL]]" by code_simp
    with 2 show ?thesis
      by (subst PathSplitToList.simps) (cases t, auto simp: path_join_def ends_with_def)
  next
    case 3
    have "\<not> contains h ''//''" using "1.prems" 3(1) by (fastforce simp: contains_iff)
    then have IH: "path_join_all (PathSplitToList h) = h" using "1.IH" [OF 3(5) [symmetric] refl] 3(1) by auto
    have "PathSplitToList p = PathSplitToList h @ [t]" by (subst PathSplitToList.simps) (use 3 in auto)
    moreover have "\<not> starts_with t [SL]" using 3(4) by (cases t) auto
    moreover have "\<not> ends_with h [SL]" using 3(2,3) by (auto simp: ends_with_iff)
    ultimately show ?thesis
      using IH 3(1,2) path_join_all_snoc [OF path_components_nonempty] by (simp add: path_join_def)
  qed
qed

theorem PathSplitToList_join_witness: "path_join_all (PathSplitToList ''/src/base/a.h'') = ''/src/base/a.h''"
  by (rule PathSplitToList_join) code_simp

lemma re_sub_char: "re_sub (Cls f) (\<lambda>_. [x]) s = map (\<lambda>c. if f c then x else c) s"
proof -
  have "sub_from True (Cls f) (\<lambda>_. [x]) p s = map (\<lambda>c. if f c then x else c) s" for p
  proof (induction s arbitrary: p)
    case (Cons c s)
    then show ?case by (subst sub_from.simps) (simp add: sub_match_def)
  qed (subst sub_from.simps, simp add: sub_match_def)
  then show ?thesis by (simp add: re_sub_def)
qed

definition guard_char :: "char \<Rightarrow> bool" where
  "guard_char c = (ascii_upper c \<or> py_digit c \<or> c = CHR ''_'')"

lemma guard_char_upper: "ascii_alnum c \<or> c = CHR ''_'' \<Longrightarrow> guard_char (ascii_upper_char c)"
proof (cases c)
  case (Char b0 b1 b2 b3 b4 b5 b6 b7)
  then show "ascii_alnum c \<or> c = CHR ''_'' \<Longrightarrow> guard_char (ascii_upper_char c)"
    by (cases b0; cases b1; cases b2; cases b3; cases b4; cases b5; cases b6; cases b7)
       (simp_all add: ascii_upper_char_code ascii_alnum_def ascii_lower_code ascii_upper_code py_digit_code guard_char_def)
qed

lemma guard_of_path_chars: "list_all guard_char (guard_of_path path) \<and> ends_with (guard_of_path path) ''_''"
proof -
  have "guard_char (CHR ''_'')" by (simp add: guard_char_def)
  moreover have "guard_char (ascii_upper_char (if \<not> ascii_alnum c then CHR ''_'' else c))" for c
    using guard_char_upper [of c] guard_char_upper [of "CHR ''_''"] by simp
  ultimately show ?thesis
    by (auto simp: guard_of_path_def re_sub_char list_all_iff ends_with_iff simp del: if_not_P not_False_eq_True)
qed

text \<open>C36: the suggested header guard is a macro name made of capital letters, digits and underscores
  that ends in an underscore, whatever the file's path and the options are.\<close>

theorem header_guard_chars:
  assumes "GetHeaderGuardCPPVariable env root repository filename = Some guard"
  shows "list_all guard_char guard \<and> ends_with guard ''_''"
proof -
  from assms obtain path where "guard = guard_of_path path"
    by (auto simp: GetHeaderGuardCPPVariable_def Let_def bind_eq_Some_conv)
  then show ?thesis by (simp add: guard_of_path_chars)
qed

definition bare_env :: path_env where
  "bare_env = \<lparr>cwd = ''/w'', path_exists = (\<lambda>_. False)\<rparr>"

theorem header_guard_chars_witness:
  "list_all guard_char ''_W_SRC_MY_FILE_H_'' \<and> ends_with ''_W_SRC_MY_FILE_H_'' ''_''"
proof (rule header_guard_chars)
  show "GetHeaderGuardCPPVariable bare_env None None ''src/my-file.h'' = Some ''_W_SRC_MY_FILE_H_''"
    by code_simp
qed

end
