(* ===== verification/IncludeState.thy ===== *)
theory IncludeState
  imports Cleanse
begin

text \<open>
  The order of the \<open>#include\<close> lines of a file (\<open>cpplint.py\<close>, class \<open>_IncludeState\<close>).
  The headers seen so far are kept by preprocessor section with their line numbers;
  \<open>CheckNextIncludeOrder\<close> is a state machine over the five sections of an include block. An
  IndexError of \<open>include_list[-1]\<close> or of \<open>elided[linenum - 1]\<close> is \<open>None\<close>.
\<close>

section \<open>Sections\<close>

datatype include_section =
  INITIAL_SECTION | MY_H_SECTION | C_SECTION | CPP_SECTION | OTHER_H_SECTION

primrec section_number :: "include_section \<Rightarrow> nat" where
  "section_number INITIAL_SECTION = 0"
| "section_number MY_H_SECTION = 1"
| "section_number C_SECTION = 2"
| "section_number CPP_SECTION = 3"
| "section_number OTHER_H_SECTION = 4"

lemma section_number_inject [simp]: "section_number s = section_number t \<longleftrightarrow> s = t"
  by (cases s; cases t) simp_all

instantiation include_section :: linorder
begin

definition less_eq_include_section :: "include_section \<Rightarrow> include_section \<Rightarrow> bool" where
  "s \<le> t \<longleftrightarrow> section_number s \<le> section_number t"

definition less_include_section :: "include_section \<Rightarrow> include_section \<Rightarrow> bool" where
  "s < t \<longleftrightarrow> section_number s < section_number t"

instance
  by standard (auto simp: less_eq_include_section_def less_include_section_def)

end

primrec TYPE_NAMES :: "header_type \<Rightarrow> string" where
  "TYPE_NAMES C_SYS_HEADER = ''C system header''"
| "TYPE_NAMES CPP_SYS_HEADER = ''C++ system header''"
| "TYPE_NAMES LIKELY_MY_HEADER = ''header this file implements''"
| "TYPE_NAMES POSSIBLE_MY_HEADER = ''header this file may implement''"
| "TYPE_NAMES OTHER_HEADER = ''other header''"

primrec SECTION_NAMES :: "include_section \<Rightarrow> string" where
  "SECTION_NAMES INITIAL_SECTION = ''... nothing. (This can'' @ [SQ] @ ''t be an error.)''"
| "SECTION_NAMES MY_H_SECTION = ''a header this file implements''"
| "SECTION_NAMES C_SECTION = ''C system header''"
| "SECTION_NAMES CPP_SECTION = ''C++ system header''"
| "SECTION_NAMES OTHER_H_SECTION = ''other header''"

section \<open>The state and its operations\<close>

record include_state =
  include_list :: "(string \<times> int) list list"
  inc_section :: include_section
  last_header :: string

text \<open>\<open>FindHeader\<close> returns \<open>-1\<close> for a header that has not been seen.\<close>

definition FindHeader :: "string \<Rightarrow> include_state \<Rightarrow> int" where
  "FindHeader header st =
     (case find (\<lambda>f. fst f = header) (concat (include_list st)) of None \<Rightarrow> -1 | Some f \<Rightarrow> snd f)"

definition ResetSection :: "string \<Rightarrow> include_state \<Rightarrow> include_state option" where
  "ResetSection directive st =
     (let st = st\<lparr>inc_section := INITIAL_SECTION, last_header := []\<rparr> in
      if directive \<in> {''if'', ''ifdef'', ''ifndef''} then
        Some (st\<lparr>include_list := include_list st @ [[]]\<rparr>)
      else if directive \<in> {''else'', ''elif''} then
        if include_list st = [] then None
        else Some (st\<lparr>include_list := butlast (include_list st) @ [[]]\<rparr>)
      else Some st)"

definition IncludeState_init :: include_state where
  "IncludeState_init = \<lparr>include_list = [[]], inc_section = INITIAL_SECTION, last_header = []\<rparr>"

definition SetLastHeader :: "string \<Rightarrow> include_state \<Rightarrow> include_state" where
  "SetLastHeader header_path st = st\<lparr>last_header := header_path\<rparr>"

text \<open>\<open>include_state.include_list[-1].append((include, linenum))\<close>, as the include check does it.\<close>

definition append_include :: "string \<Rightarrow> int \<Rightarrow> include_state \<Rightarrow> include_state option" where
  "append_include include linenum st =
     (if include_list st = [] then None
      else Some (st\<lparr>include_list := butlast (include_list st) @ [last (include_list st) @ [(include, linenum)]]\<rparr>))"

definition CanonicalizeAlphabeticalOrder :: "string \<Rightarrow> string" where
  "CanonicalizeAlphabeticalOrder header_path =
     py_lower (replace_sub ''-'' ''_'' (replace_sub ''-inl.h'' ''.h'' header_path))"

definition re_include_directive :: re where
  "re_include_directive = rseq [Bol, spaces, rchr (CHR ''#''), spaces, rlit ''include'', WordB]"

definition IsInAlphabeticalOrder :: "cleansed_lines \<Rightarrow> int \<Rightarrow> string \<Rightarrow> include_state \<Rightarrow> bool option" where
  "IsInAlphabeticalOrder clean_lines linenum header_path st =
     (if last_header st > header_path then
        do { line \<leftarrow> py_nth (elided clean_lines) (linenum - 1);
             Some (\<not> matches re_include_directive line) }
      else Some True)"

text \<open>\<open>CheckNextIncludeOrder\<close> returns its message, which is empty when the header is in order.\<close>

definition order_message :: "header_type \<Rightarrow> include_section \<Rightarrow> string" where
  "order_message header_type s = ''Found '' @ TYPE_NAMES header_type @ '' after '' @ SECTION_NAMES s"

definition CheckNextIncludeOrder :: "header_type \<Rightarrow> include_state \<Rightarrow> string \<times> include_state" where
  "CheckNextIncludeOrder header_type st =
     (let error_message = order_message header_type (inc_section st);
          last_section = inc_section st;
          moved = (case header_type of
              C_SYS_HEADER \<Rightarrow> if last_section \<le> C_SECTION then Some C_SECTION else None
            | CPP_SYS_HEADER \<Rightarrow> if last_section \<le> CPP_SECTION then Some CPP_SECTION else None
            | LIKELY_MY_HEADER \<Rightarrow>
                if last_section \<le> MY_H_SECTION then Some MY_H_SECTION else Some OTHER_H_SECTION
            | POSSIBLE_MY_HEADER \<Rightarrow>
                if last_section \<le> MY_H_SECTION then Some MY_H_SECTION else Some OTHER_H_SECTION
            | OTHER_HEADER \<Rightarrow> Some OTHER_H_SECTION)
      in case moved of
           None \<Rightarrow> (error_message, st\<lparr>last_header := []\<rparr>)
         | Some s \<Rightarrow> ([], if last_section \<noteq> s then st\<lparr>inc_section := s, last_header := []\<rparr> else st))"

section \<open>The list of includes\<close>

text \<open>The list is never empty, so \<open>include_list[-1]\<close> never raises.\<close>

definition include_ok :: "include_state \<Rightarrow> bool" where
  "include_ok st = (include_list st \<noteq> [])"

lemma include_ok_init: "include_ok IncludeState_init"
  by (simp add: include_ok_def IncludeState_init_def)

lemma include_ok_reset: "include_ok st \<Longrightarrow> \<exists>st'. ResetSection directive st = Some st' \<and> include_ok st'"
  by (simp add: include_ok_def ResetSection_def Let_def)

lemma include_ok_append: "include_ok st \<Longrightarrow> \<exists>st'. append_include h n st = Some st' \<and> include_ok st'"
  by (simp add: include_ok_def append_include_def)

lemma include_ok_order: "include_ok (snd (CheckNextIncludeOrder t st)) = include_ok st"
  by (simp add: include_ok_def CheckNextIncludeOrder_def Let_def split: header_type.split)

lemma include_ok_last_header: "include_ok (SetLastHeader h st) = include_ok st"
  by (simp add: include_ok_def SetLastHeader_def)

lemma find_snoc:
  "(case find (\<lambda>f. fst f = k) (fs @ [(h, n)]) of None \<Rightarrow> d | Some f \<Rightarrow> snd f) =
   (if k = h \<and> h \<notin> fst ` set fs then n else case find (\<lambda>f. fst f = k) fs of None \<Rightarrow> d | Some f \<Rightarrow> snd f)"
  by (induction fs) auto

lemma append_include_concat:
  assumes "append_include h n st = Some st'"
  shows "concat (include_list st') = concat (include_list st) @ [(h, n)]"
proof -
  from assms have "include_list st \<noteq> []"
    "include_list st' = butlast (include_list st) @ [last (include_list st) @ [(h, n)]]"
    by (auto simp: append_include_def split: if_splits)
  then show ?thesis
    by (metis append.assoc append_butlast_last_id concat.simps(1,2) concat_append append_Nil2)
qed

text \<open>insert and lookup: after an include is recorded, FindHeader gives its line if the header
  was not recorded before, and the line of the first occurrence otherwise; no other header is touched.\<close>

theorem FindHeader_append:
  assumes "append_include h n st = Some st'"
  shows "FindHeader k st' =
    (if k = h \<and> h \<notin> fst ` set (concat (include_list st)) then n else FindHeader k st)"
  by (simp add: FindHeader_def append_include_concat [OF assms] find_snoc)

theorem FindHeader_append_witness:
  "FindHeader ''a.h'' \<lparr>include_list = [[(''b.h'', 3), (''a.h'', 7)]], inc_section = C_SECTION, last_header = []\<rparr> = 7"
proof -
  have "append_include ''a.h'' 7 \<lparr>include_list = [[(''b.h'', 3)]], inc_section = C_SECTION, last_header = []\<rparr> =
      Some \<lparr>include_list = [[(''b.h'', 3), (''a.h'', 7)]], inc_section = C_SECTION, last_header = []\<rparr>"
    by (simp add: append_include_def)
  from FindHeader_append [OF this, of "''a.h''"] show ?thesis by simp
qed

section \<open>The order of an include block\<close>

lemma CheckNext_monotone: "inc_section st \<le> inc_section (snd (CheckNextIncludeOrder t st))"
  by (cases t; cases "inc_section st") (simp_all add: CheckNextIncludeOrder_def less_eq_include_section_def Let_def)

text \<open>The messages of a sequence of headers.\<close>

fun order_messages :: "header_type list \<Rightarrow> include_state \<Rightarrow> string list" where
  "order_messages [] st = []"
| "order_messages (t # ts) st =
     fst (CheckNextIncludeOrder t st) # order_messages ts (snd (CheckNextIncludeOrder t st))"

text \<open>A run of elements of a set, and then a list that satisfies a predicate.\<close>

fun run_then :: "'a set \<Rightarrow> ('a list \<Rightarrow> bool) \<Rightarrow> 'a list \<Rightarrow> bool" where
  "run_then A P [] = P []"
| "run_then A P (t # ts) = (t \<in> A \<and> run_then A P ts \<or> P (t # ts))"

lemma run_then_iff: "run_then A P ts \<longleftrightarrow> (\<exists>us vs. ts = us @ vs \<and> set us \<subseteq> A \<and> P vs)"
proof (induction ts)
  case (Cons t ts)
  have "(\<exists>us vs. t # ts = us @ vs \<and> set us \<subseteq> A \<and> P vs) \<longleftrightarrow>
      P (t # ts) \<or> (\<exists>us vs. t \<in> A \<and> ts = us @ vs \<and> set us \<subseteq> A \<and> P vs)"
    (is "?l \<longleftrightarrow> ?r")
  proof
    assume ?l
    then obtain us vs where "t # ts = us @ vs" "set us \<subseteq> A" "P vs" by blast
    then show ?r by (cases us) auto
  next
    assume ?r
    then show ?l by (metis append_Cons append_Nil bot_least insert_subset list.set)
  qed
  with Cons.IH show ?case by auto
qed simp

lemma run_then_skip: "P ts \<Longrightarrow> run_then A P ts"
  by (cases ts) auto

lemmas check_next = CheckNextIncludeOrder_def less_eq_include_section_def order_message_def Let_def

abbreviation own_headers :: "header_type set" where
  "own_headers \<equiv> {LIKELY_MY_HEADER, POSSIBLE_MY_HEADER}"

abbreviation other_headers :: "header_type list \<Rightarrow> bool" where
  "other_headers \<equiv> list_all (\<lambda>t. t \<in> {LIKELY_MY_HEADER, POSSIBLE_MY_HEADER, OTHER_HEADER})"

lemma accepts_other:
  "inc_section st = OTHER_H_SECTION \<Longrightarrow> list_all (\<lambda>m. m = []) (order_messages ts st) = other_headers ts"
proof (induction ts arbitrary: st)
  case (Cons t ts)
  show ?case by (cases t) (use Cons in \<open>simp_all add: check_next\<close>)
qed simp

lemma accepts_cpp:
  "inc_section st = CPP_SECTION \<Longrightarrow>
   list_all (\<lambda>m. m = []) (order_messages ts st) = run_then {CPP_SYS_HEADER} other_headers ts"
proof (induction ts arbitrary: st)
  case (Cons t ts)
  show ?case by (cases t) (use Cons in \<open>simp_all add: check_next accepts_other\<close>)
qed simp

lemma accepts_c:
  "inc_section st = C_SECTION \<Longrightarrow> list_all (\<lambda>m. m = []) (order_messages ts st) =
    run_then {C_SYS_HEADER} (run_then {CPP_SYS_HEADER} other_headers) ts"
proof (induction ts arbitrary: st)
  case (Cons t ts)
  show ?case by (cases t) (use Cons in \<open>simp_all add: check_next accepts_other accepts_cpp\<close>)
qed simp

lemma accepts_start:
  "inc_section st \<le> MY_H_SECTION \<Longrightarrow> list_all (\<lambda>m. m = []) (order_messages ts st) =
    run_then own_headers (run_then {C_SYS_HEADER} (run_then {CPP_SYS_HEADER} other_headers)) ts"
proof (induction ts arbitrary: st)
  case (Cons t ts)
  then have "inc_section st = INITIAL_SECTION \<or> inc_section st = MY_H_SECTION"
    by (cases "inc_section st") (simp_all add: less_eq_include_section_def)
  then show ?case
    using Cons by (cases t) (auto simp: check_next accepts_other accepts_cpp accepts_c run_then_skip)
qed simp

text \<open>C12: the state machine accepts exactly the include order that the style guide asks for: a
  block starting fresh is free of messages iff it is the file's own headers, then C system headers,
  then C++ system headers, then the other headers (among which the file's own may come late).\<close>

theorem include_order_accepts:
  "list_all (\<lambda>m. m = []) (order_messages ts IncludeState_init) \<longleftrightarrow>
   (\<exists>own c cpp other. ts = own @ c @ cpp @ other \<and> set own \<subseteq> own_headers \<and>
      set c \<subseteq> {C_SYS_HEADER} \<and> set cpp \<subseteq> {CPP_SYS_HEADER} \<and> set other \<subseteq> own_headers \<union> {OTHER_HEADER})"
proof -
  have "inc_section IncludeState_init \<le> MY_H_SECTION"
    by (simp add: IncludeState_init_def less_eq_include_section_def)
  note accepts_start [OF this, unfolded run_then_iff]
  moreover have "other_headers other \<longleftrightarrow> set other \<subseteq> own_headers \<union> {OTHER_HEADER}" for other
    by (auto simp: list_all_iff)
  ultimately show ?thesis by (metis (no_types, lifting))
qed

section \<open>Alphabetical order\<close>

lemma py_lower_keeps_dash: "CHR ''-'' \<notin> set s \<Longrightarrow> CHR ''-'' \<notin> set (py_lower s)"
proof -
  have low: "py_lower_char c \<noteq> CHR ''-''" if "c \<noteq> CHR ''-''" for c
  proof (cases c)
    case (Char b0 b1 b2 b3 b4 b5 b6 b7)
    with that show ?thesis by (auto simp: py_lower_char_code Let_def)
  qed
  then show "CHR ''-'' \<notin> set s \<Longrightarrow> CHR ''-'' \<notin> set (py_lower s)"
    unfolding py_lower_def set_map by (metis low imageE)
qed

lemma canonical_no_dash: "CHR ''-'' \<notin> set (CanonicalizeAlphabeticalOrder s)"
  unfolding CanonicalizeAlphabeticalOrder_def
  by (rule py_lower_keeps_dash) (auto simp: replace_sub_char)

text \<open>CanonicalizeAlphabeticalOrder is a normal form: applying it twice is applying it once.\<close>

theorem CanonicalizeAlphabeticalOrder_idem:
  "CanonicalizeAlphabeticalOrder (CanonicalizeAlphabeticalOrder s) = CanonicalizeAlphabeticalOrder s"
proof -
  let ?c = "CanonicalizeAlphabeticalOrder s"
  have "\<not> contains ?c ''-inl.h''" "\<not> contains ?c ''-''"
    using canonical_no_dash [of s] by (auto simp: contains_iff)
  then have "CanonicalizeAlphabeticalOrder ?c = py_lower ?c"
    by (subst CanonicalizeAlphabeticalOrder_def) (simp only: replace_sub_absent not_False_eq_True)
  also have "\<dots> = ?c" by (simp add: CanonicalizeAlphabeticalOrder_def py_lower_def comp_def)
  finally show ?thesis .
qed

end
