(* ===== verification/LintState.thy ===== *)
theory LintState
  imports Suppress "HOL-Library.Multiset" "HOL-Library.Product_Lexorder"
begin

text \<open>
  The module-wide state of \<open>cpplint.py\<close> (\<open>class _CppLintState\<close>), the decision whether an error
  is printed (\<open>_ShouldPrintError\<close>) and the error handler (\<open>Error\<close>), which the checks call
  through the effects of \<open>Suppress\<close>. Standard output and standard error are the lists of
  what has been written to them.
\<close>

section \<open>The state\<close>

record junit_failure =
  jf_filename :: string
  jf_linenum :: "int option"
  jf_message :: string
  jf_category :: string
  jf_confidence :: int

record cpplint_state =
  verbose_level :: int
  error_count :: nat
  filters :: "string list"
  filters_backup :: "string list"
  counting :: string
  errors_by_category :: "(string \<times> nat) list"
  quiet :: bool
  output_format :: string
  junit_errors :: "string list"
  junit_failures :: "junit_failure list"

definition CppLintState_init :: cpplint_state where
  "CppLintState_init = \<lparr>verbose_level = 1, error_count = 0, filters = DEFAULT_FILTERS,
     filters_backup = DEFAULT_FILTERS, counting = ''total'', errors_by_category = [],
     quiet = False, output_format = ''emacs'', junit_errors = [], junit_failures = []\<rparr>"

definition SetOutputFormat :: "string \<Rightarrow> cpplint_state \<Rightarrow> cpplint_state" where
  "SetOutputFormat fmt s = s\<lparr>output_format := fmt\<rparr>"

text \<open>The two setters that return the previous setting.\<close>

definition SetQuiet :: "bool \<Rightarrow> cpplint_state \<Rightarrow> bool \<times> cpplint_state" where
  "SetQuiet q s = (quiet s, s\<lparr>quiet := q\<rparr>)"

definition SetVerboseLevel :: "int \<Rightarrow> cpplint_state \<Rightarrow> int \<times> cpplint_state" where
  "SetVerboseLevel level s = (verbose_level s, s\<lparr>verbose_level := level\<rparr>)"

definition SetCountingStyle :: "string \<Rightarrow> cpplint_state \<Rightarrow> cpplint_state" where
  "SetCountingStyle style s = s\<lparr>counting := style\<rparr>"

section \<open>Filters\<close>

definition signed_filter :: "string \<Rightarrow> bool" where
  "signed_filter filt = (starts_with filt ''+'' \<or> starts_with filt ''-'')"

datatype py_error = ValueError string

text \<open>
  \<open>AddFilters\<close> appends the filters that are not blank and then checks the whole list; the
  ValueError names the first filter without a sign. No caller catches it.
\<close>

definition AddFilters :: "string \<Rightarrow> cpplint_state \<Rightarrow> py_error + cpplint_state" where
  "AddFilters fs s =
     (let s = s\<lparr>filters := filters s @ filter (\<lambda>f. f \<noteq> []) (map strip (split_sub '','' fs))\<rparr> in
      case filter (\<lambda>f. \<not> signed_filter f) (filters s) of
        [] \<Rightarrow> Inr s
      | filt # _ \<Rightarrow> Inl (ValueError
          (''Every filter in --filters must start with + or - ('' @ filt @ '' does not)'')))"

definition SetFilters :: "string \<Rightarrow> cpplint_state \<Rightarrow> py_error + cpplint_state" where
  "SetFilters fs s = AddFilters fs (s\<lparr>filters := DEFAULT_FILTERS\<rparr>)"

definition BackupFilters :: "cpplint_state \<Rightarrow> cpplint_state" where
  "BackupFilters s = s\<lparr>filters_backup := filters s\<rparr>"

definition RestoreFilters :: "cpplint_state \<Rightarrow> cpplint_state" where
  "RestoreFilters s = s\<lparr>filters := filters_backup s\<rparr>"

section \<open>Counting\<close>

definition ResetErrorCounts :: "cpplint_state \<Rightarrow> cpplint_state" where
  "ResetErrorCounts s = s\<lparr>error_count := 0, errors_by_category := []\<rparr>"

text \<open>A dictionary of counts, in the order of insertion.\<close>

fun bump :: "string \<Rightarrow> (string \<times> nat) list \<Rightarrow> (string \<times> nat) list" where
  "bump k [] = [(k, 1)]"
| "bump k ((k', n) # xs) = (if k' = k then (k', n + 1) # xs else (k', n) # bump k xs)"

definition counted_category :: "string \<Rightarrow> string \<Rightarrow> string" where
  "counted_category style category =
     (if style \<noteq> ''detailed'' then hd (split_sub ''/'' category) else category)"

definition IncrementErrorCount :: "string \<Rightarrow> cpplint_state \<Rightarrow> cpplint_state" where
  "IncrementErrorCount category s =
     (let s = s\<lparr>error_count := error_count s + 1\<rparr> in
      if counting s \<in> {''toplevel'', ''detailed''}
      then s\<lparr>errors_by_category := bump (counted_category (counting s) category) (errors_by_category s)\<rparr>
      else s)"

section \<open>Output\<close>

text \<open>
  The state with its surroundings: the suppression tables, the module variable \<open>_quiet\<close> (not
  the field of the same name), and what has been written.
\<close>

record world =
  nolint :: nolint_state
  lint :: cpplint_state
  module_quiet :: bool
  stdout :: "string list"
  stderr :: "string list"

definition update_lint :: "(cpplint_state \<Rightarrow> cpplint_state) \<Rightarrow> world \<Rightarrow> world" where
  "update_lint f w = w\<lparr>lint := f (lint w)\<rparr>"

definition write_err :: "string \<Rightarrow> world \<Rightarrow> world" where
  "write_err s w = w\<lparr>stderr := stderr w @ [s]\<rparr>"

definition PrintInfo :: "string \<Rightarrow> world \<Rightarrow> world" where
  "PrintInfo message w =
     (if \<not> module_quiet w \<and> output_format (lint w) \<noteq> ''junit''
      then w\<lparr>stdout := stdout w @ [message]\<rparr> else w)"

definition PrintError :: "string \<Rightarrow> world \<Rightarrow> world" where
  "PrintError message w =
     (if output_format (lint w) = ''junit''
      then update_lint (\<lambda>s. s\<lparr>junit_errors := junit_errors s @ [message]\<rparr>) w
      else write_err message w)"

definition count_line :: "string \<times> nat \<Rightarrow> string" where
  "count_line kv = ''Category '' @ [SQ] @ fst kv @ [SQ] @ '' errors found: '' @ show_nat (snd kv) @ [LF]"

definition PrintErrorCounts :: "world \<Rightarrow> world" where
  "PrintErrorCounts w =
     (let w = fold (\<lambda>kv. PrintInfo (count_line kv)) (sort (errors_by_category (lint w))) w in
      if error_count (lint w) > 0
      then PrintInfo (''Total errors found: '' @ show_nat (error_count (lint w)) @ [LF]) w else w)"

definition AddJUnitFailure :: "diag \<Rightarrow> cpplint_state \<Rightarrow> cpplint_state" where
  "AddJUnitFailure d s = s\<lparr>junit_failures := junit_failures s @
     [\<lparr>jf_filename = d_filename d, jf_linenum = d_linenum d, jf_message = d_message d,
       jf_category = d_category d, jf_confidence = d_confidence d\<rparr>]\<rparr>"

section \<open>The error handler\<close>

text \<open>
  The last filter that applies decides; the assertion in the loop is \<open>None\<close> (AssertionError).
\<close>

fun run_filters :: "string \<Rightarrow> string list \<Rightarrow> bool \<Rightarrow> bool option" where
  "run_filters category [] is_filtered = Some is_filtered"
| "run_filters category (one_filter # fs) is_filtered =
     (if starts_with one_filter ''-'' then
        run_filters category fs (if starts_with category (tl one_filter) then True else is_filtered)
      else if starts_with one_filter ''+'' then
        run_filters category fs (if starts_with category (tl one_filter) then False else is_filtered)
      else None)"

definition ShouldPrintError :: "world \<Rightarrow> diag \<Rightarrow> bool option" where
  "ShouldPrintError w d =
     (if IsErrorSuppressedByNolint (nolint w) (d_category d) (d_linenum d) then Some False
      else if d_confidence d < verbose_level (lint w) then Some False
      else map_option Not (run_filters (d_category d) (filters (lint w)) False))"

definition show_linenum :: "int option \<Rightarrow> string" where
  "show_linenum l = (case l of None \<Rightarrow> ''None'' | Some n \<Rightarrow> show_int n)"

definition emit :: "diag \<Rightarrow> world \<Rightarrow> world" where
  "emit d w =
     (let fmt = output_format (lint w);
          pos = d_filename d; ln = show_linenum (d_linenum d); conf = show_int (d_confidence d) in
      if fmt = ''vs7'' then
        PrintError (pos @ ''('' @ ln @ ''): error cpplint: ['' @ d_category d @ ''] '' @ d_message d
          @ '' ['' @ conf @ '']'' @ [LF]) w
      else if fmt = ''eclipse'' then
        write_err (pos @ '':'' @ ln @ '': warning: '' @ d_message d @ ''  ['' @ d_category d @ ''] ['' @ conf
          @ '']'' @ [LF]) w
      else if fmt = ''junit'' then update_lint (AddJUnitFailure d) w
      else write_err (pos @ '':'' @ ln @ '':  '' @ d_message d @ ''  ['' @ d_category d @ ''] ['' @ conf
          @ '']'' @ [LF]) w)"

definition Error :: "diag \<Rightarrow> world \<Rightarrow> world option" where
  "Error d w = do {
     should \<leftarrow> ShouldPrintError w d;
     Some (if should then emit d (update_lint (IncrementErrorCount (d_category d)) w) else w)
   }"

definition perform :: "effect \<Rightarrow> world \<Rightarrow> world option" where
  "perform e w = (case e of
       Suppress key line \<Rightarrow> Some (w\<lparr>nolint := suppress_line key line (nolint w)\<rparr>)
     | Report d \<Rightarrow> Error d w)"

text \<open>
  A check hands its effects to the handler one after the other; a handler that stops (an
  AssertionError) stops the check.
\<close>

fun run_effects :: "(effect \<Rightarrow> 'w \<Rightarrow> 'w option) \<Rightarrow> effect list \<Rightarrow> 'w \<Rightarrow> 'w option" where
  "run_effects step [] w = Some w"
| "run_effects step (e # es) w = (case step e w of None \<Rightarrow> None | Some w' \<Rightarrow> run_effects step es w')"

definition perform_all :: "effect list \<Rightarrow> world \<Rightarrow> world option" where
  "perform_all = run_effects perform"

definition reports :: "effect list \<Rightarrow> diag list" where
  "reports es = concat (map (\<lambda>e. case e of Suppress _ _ \<Rightarrow> [] | Report d \<Rightarrow> [d]) es)"

lemma reports_simps [simp]:
  "reports [] = []"
  "reports (Report d # es) = d # reports es"
  "reports (Suppress k l # es) = reports es"
  "reports (es @ es') = reports es @ reports es'"
  "reports (map Report ds) = ds"
  by (induction ds) (simp_all add: reports_def)

section \<open>The interface between the checks and the handler\<close>

text \<open>
  What a check relies on when it calls back: the handler keeps its invariant, never stops under
  it, and counts each report at most once and a suppression never.
\<close>

locale error_sink =
  fixes step :: "effect \<Rightarrow> 'w \<Rightarrow> 'w option"
    and ok :: "'w \<Rightarrow> bool"
    and errors :: "'w \<Rightarrow> nat"
  assumes step_total: "ok w \<Longrightarrow> \<exists>w'. step e w = Some w' \<and> ok w'"
    and step_suppress: "step (Suppress key line) w = Some w' \<Longrightarrow> errors w' = errors w"
    and step_report: "step (Report d) w = Some w' \<Longrightarrow> errors w' = errors w \<or> errors w' = errors w + 1"
begin

lemma run_total: "ok w \<Longrightarrow> \<exists>w'. run_effects step es w = Some w' \<and> ok w'"
proof (induction es arbitrary: w)
  case (Cons e es)
  then obtain v where "step e w = Some v" "ok v" using step_total by blast
  with Cons.IH [of v] show ?case by simp
qed simp

lemma run_count:
  "run_effects step es w = Some w' \<Longrightarrow>
     errors w \<le> errors w' \<and> errors w' \<le> errors w + length (reports es)"
proof (induction es arbitrary: w)
  case (Cons e es)
  then obtain v where v: "step e w = Some v" "run_effects step es v = Some w'"
    by (auto split: option.splits)
  with Cons.IH have "errors v \<le> errors w' \<and> errors w' \<le> errors v + length (reports es)" by blast
  with v(1) show ?case using step_suppress step_report by (cases e) fastforce+
qed simp

lemma run_append:
  "run_effects step (es @ es') w =
     (case run_effects step es w of None \<Rightarrow> None | Some w' \<Rightarrow> run_effects step es' w')"
  by (induction es arbitrary: w) (auto split: option.splits)

end

text \<open>The invariant of the handler: every filter, active or saved, has a sign.\<close>

definition filters_ok :: "world \<Rightarrow> bool" where
  "filters_ok w = (list_all signed_filter (filters (lint w)) \<and> list_all signed_filter (filters_backup (lint w)))"

text \<open>The last filter that applies to a category, if any, and its verdict.\<close>

definition filtered_out :: "string \<Rightarrow> string list \<Rightarrow> bool" where
  "filtered_out category fs =
     (case filter (\<lambda>f. starts_with category (tl f)) (rev fs) of
        [] \<Rightarrow> False
      | f # _ \<Rightarrow> starts_with f ''-'')"

lemma run_filters_last:
  "list_all signed_filter fs \<Longrightarrow> run_filters category fs b = Some
     (case filter (\<lambda>f. starts_with category (tl f)) (rev fs) of [] \<Rightarrow> b | f # _ \<Rightarrow> starts_with f ''-'')"
proof (induction fs arbitrary: b)
  case (Cons f fs)
  have "starts_with f ''+'' \<Longrightarrow> \<not> starts_with f ''-''" by (cases f) auto
  with Cons show ?case by (auto simp: signed_filter_def split: list.splits)
qed simp

lemma run_filters_filtered_out:
  "list_all signed_filter fs \<Longrightarrow> run_filters category fs False = Some (filtered_out category fs)"
  by (simp add: run_filters_last filtered_out_def)

lemma ShouldPrintError_total: "filters_ok w \<Longrightarrow> \<exists>b. ShouldPrintError w d = Some b"
  by (auto simp: ShouldPrintError_def filters_ok_def run_filters_filtered_out)

lemma lint_emit [simp]:
  "nolint (emit d w) = nolint w"
  "filters (lint (emit d w)) = filters (lint w)"
  "filters_backup (lint (emit d w)) = filters_backup (lint w)"
  "error_count (lint (emit d w)) = error_count (lint w)"
  "errors_by_category (lint (emit d w)) = errors_by_category (lint w)"
  "counting (lint (emit d w)) = counting (lint w)"
  "verbose_level (lint (emit d w)) = verbose_level (lint w)"
  "output_format (lint (emit d w)) = output_format (lint w)"
  by (simp_all add: emit_def Let_def PrintError_def write_err_def update_lint_def AddJUnitFailure_def)

lemma lint_increment [simp]:
  "filters (IncrementErrorCount c s) = filters s"
  "filters_backup (IncrementErrorCount c s) = filters_backup s"
  "error_count (IncrementErrorCount c s) = error_count s + 1"
  "counting (IncrementErrorCount c s) = counting s"
  "verbose_level (IncrementErrorCount c s) = verbose_level s"
  "output_format (IncrementErrorCount c s) = output_format s"
  by (simp_all add: IncrementErrorCount_def Let_def)

lemma Error_cases:
  assumes "Error d w = Some w'"
  obtains "ShouldPrintError w d = Some False" "w' = w"
    | "ShouldPrintError w d = Some True" "w' = emit d (update_lint (IncrementErrorCount (d_category d)) w)"
  using assms by (auto simp: Error_def bind_eq_Some_conv split: if_splits)

interpretation handler: error_sink perform filters_ok "\<lambda>w. error_count (lint w)"
proof unfold_locales
  fix e w assume ok: "filters_ok w"
  show "\<exists>w'. perform e w = Some w' \<and> filters_ok w'"
  proof (cases e)
    case (Suppress key line)
    with ok show ?thesis by (simp add: perform_def filters_ok_def)
  next
    case (Report d)
    with ShouldPrintError_total [OF ok, of d] ok show ?thesis
      by (auto simp: perform_def Error_def filters_ok_def update_lint_def)
  qed
next
  fix key line w w' assume "perform (Suppress key line) w = Some w'"
  then show "error_count (lint w') = error_count (lint w)" by (auto simp: perform_def)
next
  fix d w w' assume "perform (Report d) w = Some w'"
  then show "error_count (lint w') = error_count (lint w) \<or> error_count (lint w') = error_count (lint w) + 1"
    by (auto simp: perform_def update_lint_def elim: Error_cases)
qed

section \<open>Correctness\<close>

lemma filters_ok_update [simp]: "filters_ok (w\<lparr>nolint := n\<rparr>) = filters_ok w"
  by (simp add: filters_ok_def)

lemma DEFAULT_FILTERS_signed: "list_all signed_filter DEFAULT_FILTERS"
  by (simp add: DEFAULT_FILTERS_def signed_filter_def)

lemma AddFilters_Inr:
  "AddFilters fs s = Inr s' \<longleftrightarrow>
     s' = s\<lparr>filters := filters s @ filter (\<lambda>f. f \<noteq> []) (map strip (split_sub '','' fs))\<rparr> \<and>
     list_all signed_filter (filters s')"
proof -
  define t where "t = s\<lparr>filters := filters s @ filter (\<lambda>f. f \<noteq> []) (map strip (split_sub '','' fs))\<rparr>"
  have signed: "list_all signed_filter xs \<longleftrightarrow> filter (\<lambda>f. \<not> signed_filter f) xs = []" for xs
    by (induction xs) auto
  have "AddFilters fs s = (case filter (\<lambda>f. \<not> signed_filter f) (filters t) of [] \<Rightarrow> Inr t
      | filt # _ \<Rightarrow> Inl (ValueError
          (''Every filter in --filters must start with + or - ('' @ filt @ '' does not)'')))"
    by (simp only: AddFilters_def Let_def t_def)
  then show ?thesis unfolding t_def [symmetric]
    by (cases "filter (\<lambda>f. \<not> signed_filter f) (filters t)") (auto simp: signed)
qed

lemma AddFilters_Inl: "(\<exists>e. AddFilters fs s = Inl e) \<longleftrightarrow> (\<forall>s'. AddFilters fs s \<noteq> Inr s')"
  by (cases "AddFilters fs s") auto

text \<open>C31: the error handler prints an error iff it is not suppressed, reaches the verbosity level and
  the last filter whose text is a prefix of its category does not remove it.\<close>
theorem ShouldPrintError_spec:
  assumes "filters_ok w"
  shows "ShouldPrintError w d = Some
    (\<not> IsErrorSuppressedByNolint (nolint w) (d_category d) (d_linenum d) \<and>
     verbose_level (lint w) \<le> d_confidence d \<and> \<not> filtered_out (d_category d) (filters (lint w)))"
  using assms by (auto simp: ShouldPrintError_def filters_ok_def run_filters_filtered_out)

definition example_world :: world where
  "example_world = \<lparr>nolint = \<lparr>error_suppressions = Map.empty, global_error_suppressions = Map.empty\<rparr>,
     lint = CppLintState_init, module_quiet = False, stdout = [], stderr = []\<rparr>"

lemma example_world_ok: "filters_ok example_world"
  using DEFAULT_FILTERS_signed by (simp add: example_world_def CppLintState_init_def filters_ok_def)

theorem ShouldPrintError_spec_witness:
  "ShouldPrintError example_world (mk_error ''a.cc'' 3 ''build/include_alpha'' 4 ''m'') = Some False \<and>
   ShouldPrintError example_world (mk_error ''a.cc'' 3 ''build/include'' 4 ''m'') = Some True"
  using ShouldPrintError_spec [OF example_world_ok, of "mk_error ''a.cc'' 3 ''build/include_alpha'' 4 ''m''"]
    ShouldPrintError_spec [OF example_world_ok, of "mk_error ''a.cc'' 3 ''build/include'' 4 ''m''"]
  by (simp add: example_world_def CppLintState_init_def DEFAULT_FILTERS_def mk_error_def filtered_out_def
    IsErrorSuppressedByNolint_def suppressed_lines_def)

text \<open>\<open>SetFilters\<close> raises ValueError iff some item of the comma-separated list is not blank and has
  no sign.\<close>
theorem SetFilters_error:
  "(\<exists>e. SetFilters fs s = Inl e) \<longleftrightarrow>
     (\<exists>f \<in> set (split_sub '','' fs). strip f \<noteq> [] \<and> \<not> signed_filter (strip f))"
  using DEFAULT_FILTERS_signed
  by (auto simp: SetFilters_def AddFilters_Inl AddFilters_Inr list_all_iff)

lemma init_filters_ok:
  assumes "SetFilters fs CppLintState_init = Inr s"
  shows "filters_ok (w\<lparr>lint := s\<rparr>)"
  using assms DEFAULT_FILTERS_signed
  by (auto simp: SetFilters_def AddFilters_Inr filters_ok_def CppLintState_init_def)

text \<open>C23: once the command line's filters have been accepted, the assertion of the handler cannot fail
  whatever the checks report, and the error count grows by at most the number of reports.\<close>
theorem accepted_filters_never_assert:
  assumes "SetFilters fs CppLintState_init = Inr s"
  shows "\<exists>w'. perform_all es (w\<lparr>lint := s\<rparr>) = Some w' \<and>
    error_count s \<le> error_count (lint w') \<and>
    error_count (lint w') \<le> error_count s + length (reports es)"
proof -
  from init_filters_ok [OF assms, of w] handler.run_total
  obtain w' where "perform_all es (w\<lparr>lint := s\<rparr>) = Some w'" unfolding perform_all_def by blast
  with handler.run_count [of es "w\<lparr>lint := s\<rparr>" w'] show ?thesis by (simp add: perform_all_def)
qed

theorem accepted_filters_never_assert_witness:
  "\<exists>w'. perform_all [Report (mk_error ''a.cc'' 1 ''runtime/int'' 4 ''m'')]
     (example_world\<lparr>lint := CppLintState_init\<lparr>filters := [''-build/include_alpha'', ''-runtime'']\<rparr>\<rparr>) = Some w' \<and>
     0 \<le> error_count (lint w') \<and> error_count (lint w') \<le> 0 + length [mk_error ''a.cc'' 1 ''runtime/int'' 4 ''m'']"
proof -
  have "SetFilters '' -runtime , '' CppLintState_init =
      Inr (CppLintState_init\<lparr>filters := [''-build/include_alpha'', ''-runtime'']\<rparr>)"
    by code_simp
  from accepted_filters_never_assert [OF this, of "[Report (mk_error ''a.cc'' 1 ''runtime/int'' 4 ''m'')]" example_world]
  show ?thesis by (simp add: CppLintState_init_def)
qed

lemma bump_props:
  "sum_list (map snd (bump k xs)) = sum_list (map snd xs) + 1"
  "fst ` set (bump k xs) = insert k (fst ` set xs)"
  "distinct (map fst xs) \<Longrightarrow> distinct (map fst (bump k xs))"
  "map_of (bump k xs) k' = (if k' = k then Some (Suc (case map_of xs k of None \<Rightarrow> 0 | Some n \<Rightarrow> n)) else map_of xs k')"
proof (induction xs)
  case (Cons x xs)
  obtain k1 n where x: "x = (k1, n)" by (cases x)
  { case 1 show ?case using Cons.IH x by auto }
  { case 2 show ?case using Cons.IH x by auto }
  { case 3 then show ?case using Cons.IH x by auto }
  { case 4 show ?case using Cons.IH x by auto }
qed auto

definition counts_ok :: "cpplint_state \<Rightarrow> bool" where
  "counts_ok s = (counting s \<in> {''toplevel'', ''detailed''} \<longrightarrow>
     distinct (map fst (errors_by_category s)) \<and> sum_list (map snd (errors_by_category s)) = error_count s)"

lemma IncrementErrorCount_counts: "counts_ok s \<Longrightarrow> counts_ok (IncrementErrorCount c s)"
  by (auto simp: counts_ok_def IncrementErrorCount_def Let_def bump_props)

lemma perform_counts: "counts_ok (lint w) \<Longrightarrow> perform e w = Some w' \<Longrightarrow> counts_ok (lint w')"
proof (cases e)
  case (Report d)
  assume ok: "counts_ok (lint w)" and "perform e w = Some w'"
  then show ?thesis using Report IncrementErrorCount_counts [OF ok, of "d_category d"]
    by (auto simp: perform_def update_lint_def counts_ok_def elim!: Error_cases)
qed (auto simp: perform_def)

lemma perform_all_induct:
  assumes "perform_all es w = Some w'" "P w"
    and "\<And>e w w'. e \<in> set es \<Longrightarrow> P w \<Longrightarrow> perform e w = Some w' \<Longrightarrow> P w'"
  shows "P w'"
  using assms unfolding perform_all_def
proof (induction es arbitrary: w)
  case (Cons e es)
  then obtain v where "perform e w = Some v" "run_effects perform es v = Some w'"
    by (auto split: option.splits)
  with Cons.IH [of v] Cons.prems show ?case by (meson list.set_intros)
qed simp

lemma perform_counting: "perform e w = Some w' \<Longrightarrow> counting (lint w') = counting (lint w)"
  by (cases e) (auto simp: perform_def update_lint_def elim!: Error_cases)

text \<open>C30: after the counters have been reset, the counts per category always add up to the total, for
  any sequence of effects, in both styles that count per category.\<close>
theorem category_counts_add_up:
  assumes "perform_all es (update_lint ResetErrorCounts w) = Some w'"
    and "counting (lint w) \<in> {''toplevel'', ''detailed''}"
  shows "sum_list (map snd (errors_by_category (lint w'))) = error_count (lint w') \<and>
    distinct (map fst (errors_by_category (lint w')))"
proof -
  let ?P = "\<lambda>w'. counts_ok (lint w') \<and> counting (lint w') = counting (lint w)"
  have "?P w'"
  proof (rule perform_all_induct [OF assms(1)])
    show "?P (update_lint ResetErrorCounts w)"
      by (simp add: counts_ok_def update_lint_def ResetErrorCounts_def)
  qed (auto dest: perform_counting perform_counts)
  with assms(2) show ?thesis by (auto simp: counts_ok_def)
qed

definition two_reports :: "effect list" where
  "two_reports = [Report (mk_error ''a.cc'' 1 ''runtime/int'' 4 ''m''), Report (mk_error ''a.cc'' 2 ''runtime/vlog'' 5 ''n'')]"

theorem category_counts_add_up_witness:
  "case perform_all two_reports (update_lint ResetErrorCounts (update_lint (SetCountingStyle ''toplevel'') example_world)) of
     None \<Rightarrow> False | Some w \<Rightarrow> sum_list (map snd (errors_by_category (lint w))) = error_count (lint w) \<and> error_count (lint w) = 2"
proof -
  let ?w = "update_lint (SetCountingStyle ''toplevel'') example_world"
  have "case perform_all two_reports (update_lint ResetErrorCounts ?w) of None \<Rightarrow> False | Some w \<Rightarrow> error_count (lint w) = 2"
    by code_simp
  then obtain w' where w': "perform_all two_reports (update_lint ResetErrorCounts ?w) = Some w'"
    and 2: "error_count (lint w') = 2"
    by (auto split: option.splits)
  from category_counts_add_up [OF w'] have "sum_list (map snd (errors_by_category (lint w'))) = error_count (lint w')"
    by (simp add: update_lint_def SetCountingStyle_def)
  with w' 2 show ?thesis by simp
qed

lemma silent_step:
  assumes "l \<in> suppressed_lines (nolint w) None" "\<And>d. e = Report d \<Longrightarrow> d_linenum d = Some l"
  shows "\<exists>w'. perform e w = Some w' \<and> l \<in> suppressed_lines (nolint w') None \<and>
    lint w' = lint w \<and> stdout w' = stdout w \<and> stderr w' = stderr w"
proof (cases e)
  case (Report d)
  with assms have "ShouldPrintError w d = Some False"
    by (simp add: ShouldPrintError_def IsErrorSuppressedByNolint_def)
  with Report assms(1) show ?thesis by (simp add: perform_def Error_def)
qed (use assms(1) in \<open>simp add: perform_def suppressed_lines_suppress\<close>)

lemma silent_run:
  assumes "l \<in> suppressed_lines (nolint w) None" "\<forall>d \<in> set (reports es). d_linenum d = Some l"
  shows "\<exists>w'. perform_all es w = Some w' \<and> lint w' = lint w \<and> stdout w' = stdout w \<and> stderr w' = stderr w"
  using assms unfolding perform_all_def
proof (induction es arbitrary: w)
  case (Cons e es)
  obtain v where v: "perform e w = Some v" "l \<in> suppressed_lines (nolint v) None"
      "lint v = lint w" "stdout v = stdout w" "stderr v = stderr w"
    using silent_step [OF Cons.prems(1), of e] Cons.prems(2) by (cases e) auto
  have "\<forall>d \<in> set (reports es). d_linenum d = Some l" using Cons.prems(2) by (cases e) auto
  from Cons.IH [OF v(2) this] v show ?case by auto
qed simp

text \<open>C29: after a line that ends in a NOLINT comment has been parsed, no error reported on that line
  is counted or printed, in any output format and whatever the filters are.\<close>
theorem nolint_line_is_silent:
  assumes "\<not> contains pre ''NOLINT''" and "\<forall>d \<in> set (reports es). d_linenum d = Some l"
  shows "\<exists>w'. perform_all (ParseNolintSuppressions filename (pre @ ''// NOLINT'') l @ es) w = Some w' \<and>
    lint w' = lint w \<and> stdout w' = stdout w \<and> stderr w' = stderr w"
proof -
  let ?v = "w\<lparr>nolint := suppress_line None l (nolint w)\<rparr>"
  have "\<exists>w'. perform_all es ?v = Some w' \<and> lint w' = lint ?v \<and> stdout w' = stdout ?v \<and> stderr w' = stderr ?v"
    by (rule silent_run [OF _ assms(2)]) (simp add: suppressed_lines_suppress)
  then show ?thesis
    by (simp add: nolint_comment [OF assms(1)] perform_all_def perform_def)
qed

theorem nolint_line_is_silent_witness:
  "\<exists>w'. perform_all (ParseNolintSuppressions ''a.cc'' (''  long x = 1;  '' @ ''// NOLINT'') 7 @
       [Report (mk_error ''a.cc'' 7 ''runtime/int'' 4 ''m'')]) example_world = Some w' \<and>
     lint w' = lint example_world \<and> stdout w' = stdout example_world \<and> stderr w' = stderr example_world"
proof (rule nolint_line_is_silent)
  show "\<not> contains ''  long x = 1;  '' ''NOLINT''" by code_simp
qed (simp add: mk_error_def)

section \<open>The JUnit report\<close>

text \<open>
  \<open>FormatJUnitXML\<close> up to the element tree; the text that \<open>xml.etree\<close> makes of the tree is the
  library's. An element has its tag, its attributes, its text and its children.
\<close>

datatype xml = Element string "(string \<times> string) list" string "xml list"

text \<open>\<open>failures_by_file\<close> in the order \<open>failed_file_order\<close>.\<close>

fun add_failure :: "junit_failure \<Rightarrow> (string \<times> junit_failure list) list \<Rightarrow> (string \<times> junit_failure list) list" where
  "add_failure f [] = [(jf_filename f, [f])]"
| "add_failure f ((k, fs) # gs) =
     (if jf_filename f = k then (k, fs @ [f]) # gs else (k, fs) # add_failure f gs)"

definition failures_by_file :: "junit_failure list \<Rightarrow> (string \<times> junit_failure list) list" where
  "failures_by_file fs = fold add_failure fs []"

definition failure_line :: "junit_failure \<Rightarrow> string" where
  "failure_line f = show_linenum (jf_linenum f) @ '': '' @ jf_message f @ '' ['' @ jf_category f @ ''] ['' @
     show_int (jf_confidence f) @ '']''"

definition file_testcase :: "string \<times> junit_failure list \<Rightarrow> xml" where
  "file_testcase g = Element ''testcase'' [(''name'', fst g)] []
     [Element ''failure'' [] (join [LF] (map failure_line (snd g))) []]"

definition junit_tree :: "cpplint_state \<Rightarrow> xml" where
  "junit_tree s =
     (let num_errors = length (junit_errors s); num_failures = length (junit_failures s);
          attrib = (\<lambda>tests. [(''name'', ''cpplint''), (''errors'', show_nat num_errors),
            (''failures'', show_nat num_failures), (''tests'', show_nat tests)])
      in if num_errors = 0 \<and> num_failures = 0
         then Element ''testsuite'' (attrib 1) [] [Element ''testcase'' [(''name'', ''passed'')] [] []]
         else Element ''testsuite'' (attrib (num_errors + num_failures)) []
           ((if num_errors > 0 then [Element ''testcase'' [(''name'', ''errors'')] []
               [Element ''error'' [] (join [LF] (junit_errors s)) []]] else []) @
            map file_testcase (failures_by_file (junit_failures s))))"

definition FormatJUnitXML :: "(xml \<Rightarrow> string) \<Rightarrow> cpplint_state \<Rightarrow> string" where
  \<comment> \<open>\<open>tostring\<close> is \<open>xml.etree.ElementTree.tostring\<close>, decoded\<close>
  "FormatJUnitXML tostring s =
     ''<?xml version='' @ [DQ] @ ''1.0'' @ [DQ] @ '' encoding='' @ [DQ] @ ''UTF-8'' @ [DQ] @ '' ?>'' @ [LF]
     @ tostring (junit_tree s)"

lemma add_failure_keys:
  "fst ` set (add_failure f gs) = insert (jf_filename f) (fst ` set gs)"
  "distinct (map fst gs) \<Longrightarrow> distinct (map fst (add_failure f gs))"
proof (induction gs)
  case (Cons g gs)
  obtain k fs where g: "g = (k, fs)" by (cases g)
  { case 1 show ?case using Cons.IH(1) g by auto }
  { case 2 then show ?case using Cons.IH g by auto }
qed auto

lemma add_failure_lookup:
  "map_of (add_failure f gs) k =
     (if k = jf_filename f then Some ((case map_of gs k of None \<Rightarrow> [] | Some fs \<Rightarrow> fs) @ [f]) else map_of gs k)"
  by (induction gs) auto

lemma failures_by_file_lookup:
  "map_of (failures_by_file fs) k =
     (if k \<in> jf_filename ` set fs then Some (filter (\<lambda>f. jf_filename f = k) fs) else None)"
  unfolding failures_by_file_def
proof (induction fs rule: rev_induct)
  case (snoc f fs)
  have "filter (\<lambda>g. jf_filename g = k) fs = []" if "k \<notin> jf_filename ` set fs"
    using that by (auto simp: filter_empty_conv)
  with snoc show ?case by (auto simp: add_failure_lookup)
qed simp

lemma failures_by_file_distinct: "distinct (map fst (failures_by_file fs))"
  unfolding failures_by_file_def
  by (induction fs rule: rev_induct) (auto simp: add_failure_keys)

text \<open>The JUnit report has one group for each file with a failure, no file twice, and the group of a
  file holds exactly its failures in the order in which they were reported.\<close>
theorem junit_groups_complete:
  "distinct (map fst (failures_by_file fs)) \<and>
   set (failures_by_file fs) = {(k, filter (\<lambda>f. jf_filename f = k) fs) | k. k \<in> jf_filename ` set fs}"
proof
  show d: "distinct (map fst (failures_by_file fs))" by (rule failures_by_file_distinct)
  show "set (failures_by_file fs) = {(k, filter (\<lambda>f. jf_filename f = k) fs) | k. k \<in> jf_filename ` set fs}"
  proof (intro set_eqI)
    fix x :: "string \<times> junit_failure list"
    have "x \<in> set (failures_by_file fs) \<longleftrightarrow> map_of (failures_by_file fs) (fst x) = Some (snd x)"
      using map_of_eq_Some_iff [OF d, of "fst x" "snd x"] by simp
    then show "x \<in> set (failures_by_file fs) \<longleftrightarrow>
        x \<in> {(k, filter (\<lambda>f. jf_filename f = k) fs) | k. k \<in> jf_filename ` set fs}"
      by (cases x) (auto simp: failures_by_file_lookup)
  qed
qed

end
