(* ===== verification/FileChecks.thy ===== *)
theory FileChecks
  imports Paths IncludeState LintState
begin

text \<open>
  The checks of a whole file in \<open>cpplint.py\<close>: copyright notice, header guard, inclusion of
  the file's own header, and the newline at its end. Where a check needs the repository name
  of a file, \<open>None\<close> is the run of \<open>RepositoryName\<close> that never returns.
\<close>

section \<open>Copyright and the end of the file\<close>

text \<open>\<open>re.search(r'Copyright', line, re.I)\<close>.\<close>

definition re_copyright :: re where
  "re_copyright = rseq (map (\<lambda>x. Cls (\<lambda>c. py_lower_char c = x)) ''copyright'')"

definition CheckForCopyright :: "string \<Rightarrow> string list \<Rightarrow> diag list" where
  "CheckForCopyright filename ls =
     (if list_ex (found re_copyright) (take (min (length ls) 11 - 1) (drop 1 ls)) then []
      else [mk_error filename 0 ''legal/copyright'' 5 (''No copyright message found.  '' @
        ''You should have a line: '' @ [DQ] @ ''Copyright [year] <Copyright Owner>'' @ [DQ])])"

definition CheckForNewlineAtEOF :: "string \<Rightarrow> string list \<Rightarrow> diag list" where
  "CheckForNewlineAtEOF filename ls =
     (if length ls < 3 \<or> ls ! (length ls - 2) \<noteq> [] then
        [mk_error filename (int (length ls) - 2) ''whitespace/ending_newline'' 5
          ''Could not find a newline character at the end of the file.'']
      else [])"

definition GetIndentLevel :: "string \<Rightarrow> nat" where
  "GetIndentLevel line =
     (case re_match (rseq [Bol, Grp 1 (Star (rchr (CHR '' ''))), rnonspace]) line of
        Some indent \<Rightarrow> length (group_text indent 1) | None \<Rightarrow> 0)"

section \<open>Header guard\<close>

definition re_nolint_guard :: re where
  "re_nolint_guard = rseq [rlit ''//'', spaces, rlit ''NOLINT(build/header_guard)'']"

definition re_pragma_once :: re where
  "re_pragma_once = rseq [Bol, spaces, rlit ''#pragma'', spaces1, rlit ''once'']"

text \<open>A guard is a word, so that the pattern built from it means its text.\<close>

definition re_endif_line_comment :: "string \<Rightarrow> re" where
  "re_endif_line_comment cppvar = rseq [rlit ''#endif'', spaces, rlit ''//'', spaces, rlit cppvar,
     ropt (Grp 1 (rchr (CHR ''_''))), WordB]"

definition re_endif_block_comment :: "string \<Rightarrow> re" where
  "re_endif_block_comment cppvar = rseq [rlit ''#endif'', spaces, rlit ''/*'', spaces, rlit cppvar,
     ropt (Grp 1 (rchr (CHR ''_''))), spaces, rlit ''*/'']"

definition re_code_then_comment :: re where
  "re_code_then_comment = rseq [Bol, Star (ralt
     [rseq [rchr SQ, Star (ralt [rchr (CHR ''.''), none_of [SQ]]), rchr SQ],
      rseq [rchr DQ, Star (ralt [rchr (CHR ''.''), none_of [DQ]]), rchr DQ], none_of [SQ, DQ]]), rlit ''//'']"

record guard_scan =
  g_ifndef :: string
  g_ifndef_linenum :: nat
  g_define :: string
  g_endif :: string
  g_endif_linenum :: nat

definition scan_guard_line :: "nat \<times> string \<Rightarrow> guard_scan \<Rightarrow> guard_scan" where
  "scan_guard_line numbered gs =
     (let linenum = fst numbered; line = snd numbered; linesplit = split_ws line;
          gs = (if length linesplit \<ge> 2 \<and> g_ifndef gs = [] \<and> linesplit ! 0 = ''#ifndef''
                then gs\<lparr>g_ifndef := linesplit ! 1, g_ifndef_linenum := linenum\<rparr> else gs);
          gs = (if length linesplit \<ge> 2 \<and> g_define gs = [] \<and> linesplit ! 0 = ''#define''
                then gs\<lparr>g_define := linesplit ! 1\<rparr> else gs)
      in if starts_with line ''#endif'' then gs\<lparr>g_endif := line, g_endif_linenum := linenum\<rparr> else gs)"

definition scan_guard :: "string list \<Rightarrow> guard_scan" where
  "scan_guard ls = fold scan_guard_line (enumerate 0 ls)
     \<lparr>g_ifndef = [], g_ifndef_linenum = 0, g_define = [], g_endif = [], g_endif_linenum = 0\<rparr>"

definition guard_error :: "string \<Rightarrow> nat \<Rightarrow> int \<Rightarrow> string \<Rightarrow> effect" where
  "guard_error filename linenum confidence message =
     Report (mk_error filename (int linenum) ''build/header_guard'' confidence message)"

text \<open>The check of the last \<open>#endif\<close>, once the names of the guard agree.\<close>

definition check_endif :: "string \<Rightarrow> string list \<Rightarrow> string \<Rightarrow> guard_scan \<Rightarrow> effect list" where
  "check_endif filename raws cppvar gs =
     (let line_message = ''#endif line should be '' @ [DQ] @ ''#endif  // '' @ cppvar @ [DQ];
          block_message = ''#endif line should be '' @ [DQ] @ ''#endif  /* '' @ cppvar @ '' */'' @ [DQ];
          no_match = [guard_error filename (g_endif_linenum gs) 5 line_message]
      in case re_match (re_endif_line_comment cppvar) (g_endif gs) of
           Some m \<Rightarrow> if m_group m 1 = Some ''_''
             then [guard_error filename (g_endif_linenum gs) 0 line_message] else []
         | None \<Rightarrow>
             if list_ex (matches re_code_then_comment) (butlast (tl raws)) then no_match
             else
               (case re_match (re_endif_block_comment cppvar) (g_endif gs) of
                  Some m \<Rightarrow> if m_group m 1 = Some ''_''
                    then [guard_error filename (g_endif_linenum gs) 0 block_message] else []
                | None \<Rightarrow> no_match))"

definition check_guard :: "string \<Rightarrow> string list \<Rightarrow> string \<Rightarrow> effect list" where
  "check_guard filename raws cppvar =
     (let gs = scan_guard raws in
      if g_ifndef gs = [] \<or> g_define gs = [] \<or> g_ifndef gs \<noteq> g_define gs then
        [guard_error filename 0 5 (''No #ifndef header guard found, suggested CPP variable is: '' @ cppvar)]
      else
        (if g_ifndef gs \<noteq> cppvar then
           ParseNolintSuppressions filename (raws ! g_ifndef_linenum gs) (int (g_ifndef_linenum gs)) @
           [guard_error filename (g_ifndef_linenum gs) (if g_ifndef gs \<noteq> cppvar @ ''_'' then 5 else 0)
             (''#ifndef header guard has wrong style, please use: '' @ cppvar)]
         else []) @
        ParseNolintSuppressions filename (raws ! g_endif_linenum gs) (int (g_endif_linenum gs)) @
        check_endif filename raws cppvar gs)"

definition CheckForHeaderGuard ::
  "path_env \<Rightarrow> string option \<Rightarrow> string option \<Rightarrow> string \<Rightarrow> cleansed_lines \<Rightarrow> effect list option" where
  "CheckForHeaderGuard env root repository filename clean_lines =
     (let raws = lines_without_raw_strings clean_lines in
      if list_ex (found re_nolint_guard) raws \<or> list_ex (found re_pragma_once) raws then Some []
      else do {
        cppvar \<leftarrow> GetHeaderGuardCPPVariable env root repository filename;
        Some (check_guard filename raws cppvar)
      })"

section \<open>The file's own header\<close>

text \<open>\<open>s[0:k]\<close>, where a negative bound counts from the end.\<close>

definition py_take :: "string \<Rightarrow> int \<Rightarrow> string" where
  "py_take s k = (if 0 \<le> k then take (nat k) s else take (nat (int (length s) + k)) s)"

text \<open>
  The loop over the includes: it stops at one that names the header, and otherwise keeps the
  line of the first (a line that is \<open>None\<close> or 0 is replaced by the next).
\<close>

fun first_include :: "string \<Rightarrow> (string \<times> int) list \<Rightarrow> int option \<Rightarrow> int option option" where
  "first_include headername [] first = Some first"
| "first_include headername ((h, n) # includes) first =
     (if contains h headername \<or> contains headername h then None
      else first_include headername includes (if first = None \<or> first = Some 0 then Some n else first))"

text \<open>
  \<open>exts\<close> lists the set of header extensions in the order in which Python iterates over it,
  which the language leaves open.
\<close>

fun check_headers :: "path_env \<Rightarrow> string option \<Rightarrow> string \<Rightarrow> string \<Rightarrow> include_state \<Rightarrow> string list \<Rightarrow> diag list option" where
  "check_headers env repository filename extension st [] = Some []"
| "check_headers env repository filename extension st (ext # exts) =
     (let basefilename = py_take filename (int (length filename) - int (length extension));
          headerfile = basefilename @ ''.'' @ ext
      in if \<not> path_exists env headerfile then check_headers env repository filename extension st exts
         else do {
           headername \<leftarrow> RepositoryName env repository headerfile;
           case first_include headername (concat (include_list st)) None of
             None \<Rightarrow> Some []
           | Some first \<Rightarrow> do {
               name \<leftarrow> RepositoryName env repository filename;
               rest \<leftarrow> check_headers env repository filename extension st exts;
               Some (\<lparr>d_filename = filename, d_linenum = first, d_category = ''build/include'',
                 d_confidence = 5, d_message = name @ '' should include its header file '' @ headername\<rparr> # rest)
             }
         })"

definition CheckHeaderFileIncluded ::
  "path_env \<Rightarrow> string option \<Rightarrow> string list \<Rightarrow> string \<Rightarrow> include_state \<Rightarrow> diag list option" where
  "CheckHeaderFileIncluded env repository exts filename st = do {
     base \<leftarrow> BaseName env repository filename;
     if found TEST_FILE_SUFFIX base then Some []
     else do {
       extension \<leftarrow> Extension env repository filename;
       check_headers env repository filename extension st exts
     }
   }"

section \<open>Correctness\<close>

lemma last_split: "last (split_sub [LF] s) = [] \<longleftrightarrow> s = [] \<or> last s = LF"
proof (induction "[LF]" s rule: split_sub.induct)
  case (1 s)
  show ?case
  proof (cases "find_sub s [LF]")
    case None
    then have "LF \<notin> set s" "split_sub [LF] s = [s]" by (simp, subst split_sub.simps, simp only: None option.case)
    then show ?thesis using last_in_set [of s] by (metis last_ConsL)
  next
    case (Some i)
    then have i: "i < length s" "s ! i = LF" by (auto simp: find_sub_char_Some)
    then have "s \<noteq> []" by auto
    with Some have "split_sub [LF] s = take i s # split_sub [LF] (drop (Suc i) s)"
      by (subst split_sub.simps) simp
    then have "last (split_sub [LF] s) = last (split_sub [LF] (drop (Suc i) s))" by simp
    moreover have "drop (Suc i) s = [] \<or> last (drop (Suc i) s) = LF \<longleftrightarrow> last s = LF"
    proof (cases "Suc i < length s")
      case False
      with i have "length s = Suc i" by simp
      with i \<open>s \<noteq> []\<close> show ?thesis by (simp add: last_conv_nth)
    qed (use i in simp)
    ultimately show ?thesis using 1 Some \<open>s \<noteq> []\<close> by simp
  qed
qed

text \<open>For the lines of a file's text between the two markers that are added around them, the check
  at the end of the file reports exactly a text that is not empty and does not end in a newline.\<close>

theorem CheckForNewlineAtEOF_spec:
  "CheckForNewlineAtEOF filename ([first] @ split_sub [LF] content @ [final]) \<noteq> [] \<longleftrightarrow>
     content \<noteq> [] \<and> last content \<noteq> LF"
proof -
  obtain init where "split_sub [LF] content = init @ [last (split_sub [LF] content)]"
    by (metis append_butlast_last_id split_sub_not_Nil)
  then obtain l where l: "split_sub [LF] content = init @ [l]" "l = last (split_sub [LF] content)" by blast
  have "([first] @ (init @ [l]) @ [final]) ! (length ([first] @ (init @ [l]) @ [final]) - 2) = l"
    by (simp add: nth_append)
  with last_split [of content] show ?thesis
    unfolding CheckForNewlineAtEOF_def l(2) [symmetric] unfolding l(1) by auto
qed

text \<open>C24: a header guard that passes is right: if the check reads the guard and reports nothing about it,
  the first \<open>#ifndef\<close> and the first \<open>#define\<close> name exactly the suggested variable, and the last
  \<open>#endif\<close> carries it in a comment.\<close>

theorem header_guard_sound:
  assumes "check_guard filename raws cppvar = es"
    and "list_all (\<lambda>d. d_category d \<noteq> ''build/header_guard'') (reports es)"
  shows "g_ifndef (scan_guard raws) = cppvar \<and> g_define (scan_guard raws) = cppvar \<and>
    (matches (re_endif_line_comment cppvar) (g_endif (scan_guard raws)) \<or>
     matches (re_endif_block_comment cppvar) (g_endif (scan_guard raws)))"
proof -
  let ?gs = "scan_guard raws"
  have error: "guard_error f n c m \<notin> set es" for f n c m
    using assms(2) by (force simp: guard_error_def mk_error_def reports_def list_all_iff)
  then have none: "es \<noteq> [guard_error f n c m]" for f n c m by (metis list.set_intros(1))
  have names: "g_ifndef ?gs \<noteq> [] \<and> g_define ?gs \<noteq> [] \<and> g_ifndef ?gs = g_define ?gs"
  proof (rule ccontr)
    assume "\<not> ?thesis"
    then have "check_guard filename raws cppvar = [guard_error filename 0 5
        (''No #ifndef header guard found, suggested CPP variable is: '' @ cppvar)]"
      unfolding check_guard_def Let_def by presburger
    with assms(1) none show False by metis
  qed
  then have es: "es = (if g_ifndef ?gs \<noteq> cppvar then
        ParseNolintSuppressions filename (raws ! g_ifndef_linenum ?gs) (int (g_ifndef_linenum ?gs)) @
        [guard_error filename (g_ifndef_linenum ?gs) (if g_ifndef ?gs \<noteq> cppvar @ ''_'' then 5 else 0)
          (''#ifndef header guard has wrong style, please use: '' @ cppvar)] else []) @
      ParseNolintSuppressions filename (raws ! g_endif_linenum ?gs) (int (g_endif_linenum ?gs)) @
      check_endif filename raws cppvar ?gs"
    using assms(1) unfolding check_guard_def Let_def by presburger
  then have cppvar: "g_ifndef ?gs = cppvar"
    using error [of filename "g_ifndef_linenum ?gs"] by (auto split: if_splits)
  have no_error: "guard_error f n c m \<notin> set (check_endif filename raws cppvar ?gs)" for f n c m
    using error es by auto
  have "matches (re_endif_line_comment cppvar) (g_endif ?gs) \<or> matches (re_endif_block_comment cppvar) (g_endif ?gs)"
  proof (rule ccontr)
    assume "\<not> ?thesis"
    then have "guard_error filename (g_endif_linenum ?gs) 5
        (''#endif line should be '' @ [DQ] @ ''#endif  // '' @ cppvar @ [DQ]) \<in> set (check_endif filename raws cppvar ?gs)"
      by (simp add: check_endif_def Let_def matches_def)
    then show False using no_error by blast
  qed
  with names cppvar show ?thesis by simp
qed

definition guarded_header :: "string list" where
  "guarded_header = [''// marker'', ''#ifndef A_H_'', ''#define A_H_'', ''int x;'', ''#endif  // A_H_'', []]"

theorem header_guard_sound_witness:
  "g_ifndef (scan_guard guarded_header) = ''A_H_'' \<and> g_define (scan_guard guarded_header) = ''A_H_'' \<and>
   (matches (re_endif_line_comment ''A_H_'') (g_endif (scan_guard guarded_header)) \<or>
    matches (re_endif_block_comment ''A_H_'') (g_endif (scan_guard guarded_header)))"
proof (rule header_guard_sound)
  show "check_guard ''a.h'' guarded_header ''A_H_'' = []" by code_simp
  show "list_all (\<lambda>d. d_category d \<noteq> ''build/header_guard'') (reports [])" by simp
qed

end
