(* ===== verification/Blocks.thy ===== *)
theory Blocks
  imports Brackets FileChecks
begin

text \<open>
  The blocks of the source that is checked (\<open>cpplint.py\<close>, \<open>_BlockInfo\<close> and the
  classes derived from it). The code compares blocks by identity, so a block carries an
  identifier; the subclass is \<open>b_kind\<close>. An IndexError is \<open>None\<close>.
\<close>

section \<open>Data\<close>

record class_data =
  cls_name :: string
  is_derived :: bool
  access :: string
  is_struct :: bool
  class_indent :: nat
  last_line :: nat

datatype block_kind = Block | Extern_C | Class class_data | Namespace string

record block =
  b_id :: nat
  starting_linenum :: nat
  seen_open_brace :: bool
  open_parentheses :: int
  inline_asm :: asm_state
  check_namespace_indentation :: bool
  b_kind :: block_kind

definition BlockInfo :: "nat \<Rightarrow> nat \<Rightarrow> bool \<Rightarrow> block" where
  "BlockInfo oid linenum seen = \<lparr>b_id = oid, starting_linenum = linenum, seen_open_brace = seen,
     open_parentheses = 0, inline_asm = NO_ASM, check_namespace_indentation = False, b_kind = Block\<rparr>"

definition ExternCInfo :: "nat \<Rightarrow> nat \<Rightarrow> block" where
  "ExternCInfo oid linenum = (BlockInfo oid linenum True)\<lparr>b_kind := Extern_C\<rparr>"

definition NamespaceInfo :: "nat \<Rightarrow> string \<Rightarrow> nat \<Rightarrow> block" where
  "NamespaceInfo oid name linenum =
     (BlockInfo oid linenum False)\<lparr>check_namespace_indentation := True, b_kind := Namespace name\<rparr>"

text \<open>The end of a class: the first line at which its braces balance, and 0 when there is none.\<close>

fun find_last_line :: "string list \<Rightarrow> nat list \<Rightarrow> int \<Rightarrow> nat option" where
  "find_last_line ls [] depth = Some 0"
| "find_last_line ls (i # is) depth = do {
     line \<leftarrow> py_nth ls (int i);
     let depth = depth + int (count_sub line ''{'') - int (count_sub line ''}'');
     if depth = 0 then Some i else find_last_line ls is depth
   }"

definition ClassInfo :: "nat \<Rightarrow> string \<Rightarrow> string \<Rightarrow> cleansed_lines \<Rightarrow> nat \<Rightarrow> block option" where
  "ClassInfo oid name class_or_struct clean_lines linenum = do {
     raw \<leftarrow> py_nth (raw_lines clean_lines) (int linenum);
     last \<leftarrow> find_last_line (elided clean_lines) [linenum ..< NumLines clean_lines] 0;
     Some ((BlockInfo oid linenum False)\<lparr>check_namespace_indentation := True,
       b_kind := Class \<lparr>cls_name = name, is_derived = False,
         access = (if class_or_struct = ''struct'' then ''public'' else ''private''),
         is_struct = (class_or_struct = ''struct''), class_indent = GetIndentLevel raw, last_line = last\<rparr>\<rparr>)
   }"

definition is_namespace :: "block \<Rightarrow> bool" where
  "is_namespace b = (case b_kind b of Namespace _ \<Rightarrow> True | _ \<Rightarrow> False)"

definition is_class :: "block \<Rightarrow> bool" where
  "is_class b = (case b_kind b of Class _ \<Rightarrow> True | _ \<Rightarrow> False)"

definition IsBlockInfo :: "block \<Rightarrow> bool" where
  "IsBlockInfo b = (b_kind b = Block)"

section \<open>Checks at the beginning and the end of a block\<close>

definition re_bare_colon :: re where
  "re_bare_colon = rseq [Grp 1 (ralt [Bol, none_of '':'']), rchr (CHR '':''), Grp 2 (ralt [Eol, none_of '':''])]"

text \<open>Only a class does anything at its beginning: it looks for a base class.\<close>

definition CheckBegin :: "string \<Rightarrow> block \<Rightarrow> block" where
  "CheckBegin line b =
     (case b_kind b of
        Class c \<Rightarrow> if found re_bare_colon line then b\<lparr>b_kind := Class (c\<lparr>is_derived := True\<rparr>)\<rparr> else b
      | _ \<Rightarrow> b)"

text \<open>The name of a class consists of word characters and colons, so that it matches itself.\<close>

definition re_disallow :: "string \<Rightarrow> re" where
  "re_disallow name = rseq [WordB, Grp 1 (ralt [rlit ''DISALLOW_COPY_AND_ASSIGN'', rlit ''DISALLOW_IMPLICIT_CONSTRUCTORS'']),
     rchr (CHR ''(''), rlit name, rchr (CHR '')'')]"

definition re_closing_indent :: re where
  "re_closing_indent = rseq [Bol, Grp 1 (Star (rchr (CHR '' ''))), rchr (CHR ''}'')]"

text \<open>The scan upwards for a DISALLOW macro.\<close>

fun check_disallow :: "string \<Rightarrow> string \<Rightarrow> string list \<Rightarrow> nat list \<Rightarrow> bool \<Rightarrow> diag list option" where
  "check_disallow filename name ls [] seen_last = Some []"
| "check_disallow filename name ls (i # is) seen_last = do {
     line \<leftarrow> py_nth ls (int i);
     case re_search (re_disallow name) line of
       Some m \<Rightarrow> Some (if seen_last then [mk_error filename (int i) ''readability/constructors'' 3
                    (group_text m 1 @ '' should be the last thing in the class'')] else [])
     | None \<Rightarrow> check_disallow filename name ls is
                 (if \<not> matches (rseq [Bol, spaces, Eol]) line then True else seen_last)
   }"

definition class_parent :: "class_data \<Rightarrow> string" where
  "class_parent c = (if is_struct c then ''struct '' @ cls_name c else ''class '' @ cls_name c)"

definition check_end_class :: "string \<Rightarrow> cleansed_lines \<Rightarrow> nat \<Rightarrow> nat \<Rightarrow> class_data \<Rightarrow> diag list option" where
  "check_end_class filename clean_lines linenum start c = do {
     ds \<leftarrow> check_disallow filename (cls_name c) (elided clean_lines) (rev [start + 1 ..< linenum]) False;
     line \<leftarrow> py_nth (elided clean_lines) (int linenum);
     Some (ds @ (case re_match re_closing_indent line of
         Some indent \<Rightarrow> if length (group_text indent 1) \<noteq> class_indent c then
             [mk_error filename (int linenum) ''whitespace/indent'' 3
               (''Closing brace should be aligned with beginning of '' @ class_parent c)] else []
       | None \<Rightarrow> []))
   }"

definition re_end_namespace_prefix :: "re list" where
  "re_end_namespace_prefix = [Bol, spaces, rchr (CHR ''}''), Star (rchr (CHR '';'')), spaces,
     Grp 1 (ralt [rlit ''//'', rlit ''/*'']), Star rdot, WordB, rlit ''namespace'']"

definition re_comment_tail :: "re list" where
  "re_comment_tail = [Star (Cls (\<lambda>c. py_space c \<or> c \<in> set (''*/.'' @ [BSL]))), Eol]"

definition re_some_namespace_end :: re where
  "re_some_namespace_end = rseq (re_end_namespace_prefix @ [WordB])"

definition re_namespace_end :: "string \<Rightarrow> re" where
  "re_namespace_end name = rseq (re_end_namespace_prefix @ [spaces1, rlit name] @ re_comment_tail)"

definition re_anonymous_end :: re where
  "re_anonymous_end = rseq (re_end_namespace_prefix @ re_comment_tail)"

definition re_anonymous_words :: re where
  "re_anonymous_words = rseq [Bol, spaces, rchr (CHR ''}''), Star rdot, WordB,
     Grp 1 (ralt [rlit ''namespace anonymous'', rlit ''anonymous namespace'']), WordB]"

definition check_end_namespace :: "string \<Rightarrow> cleansed_lines \<Rightarrow> nat \<Rightarrow> nat \<Rightarrow> string \<Rightarrow> diag list option" where
  "check_end_namespace filename clean_lines linenum start name = do {
     line \<leftarrow> py_nth (raw_lines clean_lines) (int linenum);
     let report = (\<lambda>message. [mk_error filename (int linenum) ''readability/namespace'' 5 message]);
     Some (if int linenum - int start < 10 \<and> \<not> matches re_some_namespace_end line then []
       else if name \<noteq> [] then
         if \<not> matches (re_namespace_end name) line then
           report (''Namespace should be terminated with '' @ [DQ] @ ''// namespace '' @ name @ [DQ])
         else []
       else if \<not> matches re_anonymous_end line then
         if matches re_anonymous_words line then
           report (''Anonymous namespace should be terminated with '' @ [DQ] @ ''// namespace'' @ [DQ] @
             '' or '' @ [DQ] @ ''// anonymous namespace'' @ [DQ])
         else report (''Anonymous namespace should be terminated with '' @ [DQ] @ ''// namespace'' @ [DQ])
       else [])
   }"

definition CheckEnd :: "string \<Rightarrow> cleansed_lines \<Rightarrow> nat \<Rightarrow> block \<Rightarrow> diag list option" where
  "CheckEnd filename clean_lines linenum b =
     (case b_kind b of
        Class c \<Rightarrow> check_end_class filename clean_lines linenum (starting_linenum b) c
      | Namespace name \<Rightarrow> check_end_namespace filename clean_lines linenum (starting_linenum b) name
      | _ \<Rightarrow> Some [])"

section \<open>The checks never raise\<close>

lemma find_last_line_total: "list_all (\<lambda>i. i < length ls) is \<Longrightarrow> \<exists>n. find_last_line ls is depth = Some n"
  by (induction "is" arbitrary: depth) (simp_all add: Let_def)

lemma ClassInfo_total:
  assumes "well_formed cl" "n < NumLines cl"
  shows "\<exists>b. ClassInfo oid name kind cl n = Some b \<and> b_id b = oid"
proof -
  have "list_all (\<lambda>i. i < length (elided cl)) [n ..< NumLines cl]" "n < length (raw_lines cl)"
    using assms by (auto simp: list_all_iff well_formed_def NumLines_def)
  moreover from find_last_line_total [OF this(1)]
  obtain l where "find_last_line (elided cl) [n ..< NumLines cl] 0 = Some l" by blast
  ultimately show ?thesis by (simp add: ClassInfo_def BlockInfo_def)
qed

lemma check_disallow_total:
  "list_all (\<lambda>i. i < length ls) is \<Longrightarrow> \<exists>ds. check_disallow filename name ls is seen = Some ds"
  by (induction "is" arbitrary: seen) (auto split: option.split)

lemma CheckEnd_total:
  assumes "well_formed cl" "n < NumLines cl"
  shows "\<exists>ds. CheckEnd filename cl n b = Some ds"
proof -
  have n: "n < length (elided cl)" "n < length (raw_lines cl)"
    using assms by (simp_all add: well_formed_def NumLines_def)
  show ?thesis
  proof (cases "b_kind b")
    case (Class c)
    have "list_all (\<lambda>i. i < length (elided cl)) (rev [starting_linenum b + 1 ..< n])"
      using n by (auto simp: list_all_iff)
    from check_disallow_total [OF this, of filename "cls_name c" False]
    obtain ds where "check_disallow filename (cls_name c) (elided cl) (rev [starting_linenum b + 1 ..< n]) False = Some ds"
      by blast
    with n Class show ?thesis by (simp add: CheckEnd_def check_end_class_def)
  next
    case (Namespace name)
    with n show ?thesis by (simp add: CheckEnd_def check_end_namespace_def Let_def)
  qed (simp_all add: CheckEnd_def)
qed

lemma CheckBegin_simps [simp]:
  "b_id (CheckBegin line b) = b_id b" "seen_open_brace (CheckBegin line b) = seen_open_brace b"
  "starting_linenum (CheckBegin line b) = starting_linenum b"
  by (simp_all add: CheckBegin_def split: block_kind.split)

end
