(* ===== verification/Nesting.thy ===== *)
theory Nesting
  imports Blocks
begin

text \<open>
  The stack of nested blocks (\<open>cpplint.py\<close>, class \<open>NestingState\<close>). The stack is a list with its
  top first. \<open>copy.deepcopy\<close> of a stack makes new objects, so it renumbers the blocks; the next
  free identifier is part of the state. An IndexError is \<open>None\<close>.
\<close>

section \<open>The state\<close>

record preprocessor_info =
  stack_before_if :: "block list"
  stack_before_else :: "block list"
  seen_else :: bool

record nesting_state =
  stack :: "block list"
  previous_stack_top :: "block option"
  pp_stack :: "preprocessor_info list"
  next_id :: nat

definition NestingState_init :: nesting_state where
  "NestingState_init = \<lparr>stack = [], previous_stack_top = None, pp_stack = [], next_id = 0\<rparr>"

definition SeenOpenBrace :: "nesting_state \<Rightarrow> bool" where
  "SeenOpenBrace ns = (case stack ns of [] \<Rightarrow> True | b # _ \<Rightarrow> seen_open_brace b)"

definition InNamespaceBody :: "nesting_state \<Rightarrow> bool" where
  "InNamespaceBody ns = (case stack ns of [] \<Rightarrow> False | b # _ \<Rightarrow> is_namespace b)"

definition InExternC :: "nesting_state \<Rightarrow> bool" where
  "InExternC ns = (case stack ns of [] \<Rightarrow> False | b # _ \<Rightarrow> b_kind b = Extern_C)"

definition InClassDeclaration :: "nesting_state \<Rightarrow> bool" where
  "InClassDeclaration ns = (case stack ns of [] \<Rightarrow> False | b # _ \<Rightarrow> is_class b)"

definition InAsmBlock :: "nesting_state \<Rightarrow> bool" where
  "InAsmBlock ns = (case stack ns of [] \<Rightarrow> False | b # _ \<Rightarrow> inline_asm b \<noteq> NO_ASM)"

definition push_block :: "block \<Rightarrow> nesting_state \<Rightarrow> nesting_state" where
  "push_block b ns = ns\<lparr>stack := b # stack ns, next_id := next_id ns + 1\<rparr>"

text \<open>An assignment to an attribute of \<open>stack[-1]\<close>.\<close>

definition update_top :: "(block \<Rightarrow> block) \<Rightarrow> nesting_state \<Rightarrow> nesting_state" where
  "update_top f ns = ns\<lparr>stack := (case stack ns of [] \<Rightarrow> [] | b # bs \<Rightarrow> f b # bs)\<rparr>"

section \<open>Template arguments\<close>

definition re_template_token :: re where
  "re_template_token = rseq [Bol, Star (none_of ''{};=[].<>''), Grp 1 rdot]"

lemma template_token_match:
  assumes "re_match re_template_token s = Some m"
  shows "0 < length (group_text m 0) \<and> length (group_text m 0) \<le> length s"
proof -
  from re_match_mem [OF assms] have "(m_upto m, m_rest m, m_caps m) \<in> set (rmatch re_template_token [] s [])"
    and "m_before m = []" by auto
  then show ?thesis
    unfolding re_template_token_def group_mem by (auto simp: group_mem group_text_def m_group_def)
qed

lemma close_forward_after:
  assumes "close_forward cl line linenum stk = Some (l, n, p)" "\<not> p < 0"
  shows "linenum < n \<and> n < NumLines cl"
  using assms
proof (induction cl line linenum stk rule: close_forward.induct)
  case (1 cl line linenum stk)
  show ?case
  proof (cases "stk \<noteq> None \<and> stk \<noteq> Some [] \<and> linenum + 1 < NumLines cl")
    case False
    with 1(2,3) show ?thesis by (subst (asm) close_forward.simps) auto
  next
    case True
    show ?thesis
    proof (cases "py_nth (elided cl) (int (linenum + 1))")
      case None
      with True 1(2) show ?thesis by (subst (asm) close_forward.simps) simp
    next
      case (Some line')
      obtain e st where f: "FindEndOfExpressionInLine line' 0 (the stk) = (e, st)" by fastforce
      show ?thesis
      proof (cases "e > -1")
        case e: True
        with True Some f 1(2) have "n = linenum + 1" by (subst (asm) close_forward.simps) simp
        with True show ?thesis by simp
      next
        case False
        with True Some f 1(2) have "close_forward cl line' (linenum + 1) st = Some (l, n, p)"
          by (subst (asm) close_forward.simps) simp
        from "1.IH" [OF True Some f [symmetric] refl False this 1(3)] show ?thesis by simp
      qed
    qed
  qed
qed

lemma CloseExpression_after:
  assumes "CloseExpression cl linenum pos = Some (l, n, p)" "\<not> p < 0"
  shows "linenum < n \<and> n < NumLines cl \<or> n = linenum \<and> int pos < p"
proof -
  from assms(1) obtain line c where line: "py_nth (elided cl) (int linenum) = Some line" "py_nth line (int pos) = Some c"
    by (auto simp: CloseExpression_def bind_eq_Some_conv)
  obtain e st where f: "FindEndOfExpressionInLine line pos [] = (e, st)" by fastforce
  show ?thesis
  proof (cases "c \<notin> set ''({[<'' \<or> matches re_shift_or_le (drop pos line)")
    case True
    with assms line show ?thesis by (auto simp: CloseExpression_def)
  next
    case False
    then have eq: "CloseExpression cl linenum pos =
        (if e > -1 then Some (line, linenum, e) else close_forward cl line linenum st)"
      using line f by (auto simp: CloseExpression_def simp del: py_nth_nat)
    with assms find_end_bounds [OF f] close_forward_after [of cl line linenum st l n p]
    show ?thesis by (cases "e > -1") auto
  qed
qed

function in_template_args :: "cleansed_lines \<Rightarrow> nat \<Rightarrow> nat \<Rightarrow> bool option" where
  "in_template_args cl linenum pos =
     (if linenum < NumLines cl then
        (case py_nth (elided cl) (int linenum) of
           None \<Rightarrow> None
         | Some line \<Rightarrow>
             (case re_match re_template_token (drop pos line) of
                None \<Rightarrow> in_template_args cl (linenum + 1) 0
              | Some m \<Rightarrow>
                  let token = group_text m 1; pos' = pos + length (group_text m 0) in
                  if token \<in> {''{'', ''}'', '';''} then Some False
                  else if token \<in> {''>'', ''='', ''['', '']'', ''.''} then Some True
                  else if token \<noteq> ''<'' then
                    if pos' + 1 \<ge> length line then in_template_args cl (linenum + 1) 0
                    else in_template_args cl linenum (pos' + 1)
                  else
                    (case CloseExpression cl linenum (pos' - 1) of
                       None \<Rightarrow> None
                     | Some (_, end_line, end_pos) \<Rightarrow>
                         if end_pos < 0 then Some False else in_template_args cl end_line (nat end_pos))))
      else Some False)"
  by pat_completeness auto
termination
proof (relation "measures [\<lambda>(cl, linenum, pos). NumLines cl - linenum,
    \<lambda>(cl, linenum, pos). length (elided cl ! linenum) - pos]")
  fix cl :: cleansed_lines and linenum pos line m token pos'
  assume n: "linenum < NumLines cl" and line: "py_nth (elided cl) (int linenum) = Some line"
    and m: "re_match re_template_token (drop pos line) = Some m"
    and pos': "pos' = pos + length (group_text m 0)"
  from line have [simp]: "elided cl ! linenum = line" by (auto split: if_splits)
  from template_token_match [OF m] have "0 < length (group_text m 0)" "length (group_text m 0) \<le> length line - pos"
    by (simp_all only: length_drop)
  with pos' have pos: "pos < pos'" "pos' \<le> length line" by linarith+
  { assume "\<not> length line \<le> pos' + 1"
    with pos show "((cl, linenum, pos' + 1), cl, linenum, pos) \<in> measures [\<lambda>(cl, linenum, pos). NumLines cl - linenum,
      \<lambda>(cl, linenum, pos). length (elided cl ! linenum) - pos]" by auto }
  fix r x y end_line end_pos
  assume "CloseExpression cl linenum (pos' - 1) = Some r" "(x, y) = r" "(end_line, end_pos) = y" "\<not> end_pos < 0"
  with CloseExpression_after [of cl linenum "pos' - 1" x end_line end_pos]
  have "linenum < end_line \<and> end_line < NumLines cl \<or> end_line = linenum \<and> int (pos' - 1) < end_pos" by auto
  then show "((cl, end_line, nat end_pos), cl, linenum, pos) \<in> measures [\<lambda>(cl, linenum, pos). NumLines cl - linenum,
      \<lambda>(cl, linenum, pos). length (elided cl ! linenum) - pos]"
    using pos n by auto
qed auto

declare in_template_args.simps [simp del]

definition InTemplateArgumentList :: "cleansed_lines \<Rightarrow> nat \<Rightarrow> nat \<Rightarrow> bool option" where
  "InTemplateArgumentList clean_lines linenum pos = in_template_args clean_lines linenum pos"

section \<open>Preprocessor lines\<close>

fun deepcopy :: "nat \<Rightarrow> block list \<Rightarrow> block list" where
  "deepcopy oid [] = []"
| "deepcopy oid (b # bs) = b\<lparr>b_id := oid\<rparr> # deepcopy (oid + 1) bs"

lemma length_deepcopy [simp]: "length (deepcopy oid bs) = length bs"
  by (induction bs arbitrary: oid) auto

definition re_pp_if :: re where
  "re_pp_if = rseq [Bol, spaces, rchr (CHR ''#''), spaces,
     Grp 1 (ralt [rlit ''if'', rlit ''ifdef'', rlit ''ifndef'']), WordB]"

definition re_pp_else :: re where
  "re_pp_else = rseq [Bol, spaces, rchr (CHR ''#''), spaces, Grp 1 (ralt [rlit ''else'', rlit ''elif'']), WordB]"

definition re_pp_endif :: re where
  "re_pp_endif = rseq [Bol, spaces, rchr (CHR ''#''), spaces, rlit ''endif'', WordB]"

definition pp_if :: "nesting_state \<Rightarrow> nesting_state" where
  "pp_if ns = ns\<lparr>pp_stack := \<lparr>stack_before_if = deepcopy (next_id ns) (stack ns), stack_before_else = [],
       seen_else = False\<rparr> # pp_stack ns,
     next_id := next_id ns + length (stack ns)\<rparr>"

definition remember_else :: "nesting_state \<Rightarrow> preprocessor_info \<Rightarrow> preprocessor_info \<times> nat" where
  "remember_else ns pp =
     (if seen_else pp then (pp, next_id ns)
      else (pp\<lparr>seen_else := True, stack_before_else := deepcopy (next_id ns) (stack ns)\<rparr>,
            next_id ns + length (stack ns)))"

definition pp_else :: "nesting_state \<Rightarrow> nesting_state" where
  "pp_else ns =
     (case pp_stack ns of
        [] \<Rightarrow> ns
      | pp # rest \<Rightarrow>
          let (pp, oid) = remember_else ns pp in
          ns\<lparr>pp_stack := pp # rest, stack := deepcopy oid (stack_before_if pp),
             next_id := oid + length (stack_before_if pp)\<rparr>)"

definition pp_endif :: "nesting_state \<Rightarrow> nesting_state" where
  "pp_endif ns =
     (case pp_stack ns of
        [] \<Rightarrow> ns
      | pp # rest \<Rightarrow> ns\<lparr>stack := (if seen_else pp then stack_before_else pp else stack ns), pp_stack := rest\<rparr>)"

definition UpdatePreprocessor :: "string \<Rightarrow> nesting_state \<Rightarrow> nesting_state" where
  "UpdatePreprocessor line ns =
     (if matches re_pp_if line then pp_if ns
      else if matches re_pp_else line then pp_else ns
      else if matches re_pp_endif line then pp_endif ns
      else ns)"

section \<open>One line\<close>

text \<open>Parentheses, and the state of an inline assembly block, at the innermost block.\<close>

definition count_parentheses :: "string \<Rightarrow> block \<Rightarrow> block" where
  "count_parentheses line b =
     (let depth_change = int (count_sub line ''('') - int (count_sub line '')'');
          b = b\<lparr>open_parentheses := open_parentheses b + depth_change\<rparr>
      in if inline_asm b = NO_ASM \<or> inline_asm b = END_ASM then
           if depth_change \<noteq> 0 \<and> open_parentheses b = 1 \<and> matches MATCH_ASM line
           then b\<lparr>inline_asm := INSIDE_ASM\<rparr> else b\<lparr>inline_asm := NO_ASM\<rparr>
         else if inline_asm b = INSIDE_ASM \<and> open_parentheses b = 0 then b\<lparr>inline_asm := END_ASM\<rparr>
         else b)"

definition re_namespace_decl :: re where
  "re_namespace_decl = rseq [Bol, spaces, rlit ''namespace'', WordB, spaces,
     ropt (Grp 1 (rplus (Cls (\<lambda>c. py_word c \<or> c = CHR '':'')))), Grp 2 (Star rdot), Eol]"

lemma ropt_mem: "x \<in> set (rmatch (ropt r) p q c) \<longleftrightarrow> x \<in> set (rmatch r p q c) \<or> x = (p, q, c)"
  by (auto simp: ropt_def)

lemma namespace_rest_shorter:
  assumes "re_match re_namespace_decl line = Some m"
  shows "length (group_text m 2) < length line"
proof -
  from re_match_mem [OF assms] have "(m_upto m, m_rest m, m_caps m) \<in> set (rmatch re_namespace_decl [] line [])"
    and "m_before m = []" by auto
  then show ?thesis
    unfolding re_namespace_decl_def group_mem
    by (auto simp: group_mem ropt_mem group_text_def m_group_def rel_rlit)
qed

text \<open>The loop over the namespaces at the beginning of the line; it returns what is left of the line.\<close>

function consume_namespaces :: "nat \<Rightarrow> string \<Rightarrow> nesting_state \<Rightarrow> string \<times> nesting_state" where
  "consume_namespaces linenum line ns =
     (case re_match re_namespace_decl line of
        None \<Rightarrow> (line, ns)
      | Some m \<Rightarrow>
          let new_namespace = NamespaceInfo (next_id ns) (group_text m 1) linenum; line = group_text m 2 in
          case find_sub line ''{'' of
            None \<Rightarrow> consume_namespaces linenum line (push_block new_namespace ns)
          | Some i \<Rightarrow> consume_namespaces linenum (drop (i + 1) line)
                        (push_block (new_namespace\<lparr>seen_open_brace := True\<rparr>) ns))"
  by pat_completeness auto
termination
  by (relation "measure (\<lambda>(linenum, line, ns). length line)") (auto dest!: namespace_rest_shorter)

declare consume_namespaces.simps [simp del]

definition re_class_decl :: re where
  "re_class_decl = rseq [Bol,
     Grp 1 (rseq [spaces,
       ropt (rseq [rlit ''template'', spaces, rchr (CHR ''<''),
         Star (Cls (\<lambda>c. py_word c \<or> py_space c \<or> c \<in> set ''<>,:='')), rchr (CHR ''>''), spaces]),
       Grp 2 (ralt [rlit ''class'', rlit ''struct'']), spaces1,
       Star (rseq [rplus (Cls (\<lambda>c. ascii_upper c \<or> c = CHR ''_'')), spaces1]),
       Grp 3 (rseq [rplus rword, Star (rseq [rlit ''::'', rplus rword])])]),
     Grp 4 (Star rdot), Eol]"

definition top_open_parentheses :: "nesting_state \<Rightarrow> int" where
  "top_open_parentheses ns = (case stack ns of [] \<Rightarrow> 0 | b # _ \<Rightarrow> open_parentheses b)"

definition consume_class ::
  "cleansed_lines \<Rightarrow> nat \<Rightarrow> string \<Rightarrow> nesting_state \<Rightarrow> (string \<times> nesting_state) option" where
  "consume_class clean_lines linenum line ns =
     (case re_match re_class_decl line of
        None \<Rightarrow> Some (line, ns)
      | Some m \<Rightarrow>
          if stack ns = [] \<or> top_open_parentheses ns = 0 then do {
            in_template \<leftarrow> InTemplateArgumentList clean_lines linenum (length (group_text m 1));
            if \<not> in_template then do {
              c \<leftarrow> ClassInfo (next_id ns) (group_text m 3) (group_text m 2) clean_lines linenum;
              Some (group_text m 4, push_block c ns)
            }
            else Some (line, ns)
          }
          else Some (line, ns))"

definition re_access :: re where
  "re_access = rseq [Bol, Grp 1 (Star rdot), WordB,
     Grp 2 (ralt [rlit ''public'', rlit ''private'', rlit ''protected'', rlit ''signals'']),
     ropt (Grp 3 (rseq [spaces1, ropt (rseq [rlit ''slots'', spaces])])), rchr (CHR '':''),
     ralt [none_of '':'', Eol]]"

definition update_access :: "string \<Rightarrow> nat \<Rightarrow> string \<Rightarrow> nesting_state \<Rightarrow> diag list \<times> nesting_state" where
  "update_access filename linenum line ns =
     (case stack ns of
        [] \<Rightarrow> ([], ns)
      | b # _ \<Rightarrow>
          (case b_kind b of
             Class c \<Rightarrow>
               (case re_match re_access line of
                  None \<Rightarrow> ([], ns)
                | Some m \<Rightarrow>
                    (if length (group_text m 1) \<noteq> class_indent c + 1 \<and>
                        matches (rseq [Bol, spaces, Eol]) (group_text m 1) then
                       [mk_error filename (int linenum) ''whitespace/indent'' 3
                         (group_text m 2 @ group_text m 3 @ '': should be indented +1 space inside '' @ class_parent c)]
                     else [],
                     update_top (\<lambda>b. b\<lparr>b_kind := Class (c\<lparr>access := group_text m 2\<rparr>)\<rparr>) ns))
           | _ \<Rightarrow> ([], ns)))"

definition re_brace_token :: re where
  "re_brace_token = rseq [Bol, Star (none_of ''{;)}''), Grp 1 (one_of ''{;)}''), Grp 2 (Star rdot), Eol]"

definition re_extern_c :: re where
  "re_extern_c = rseq [Bol, rlit ''extern'', spaces, rchr DQ, Star (none_of [DQ]), rchr DQ, spaces, rchr (CHR ''{'')]"

lemma brace_token_groups:
  assumes "re_match re_brace_token line = Some m"
  obtains w c t rest where "line = w @ c # t @ rest" "group_text m 1 = [c]" "group_text m 2 = t"
    "c \<in> set ''{;)}''" "set w \<inter> set ''{;)}'' = {}" "LF \<notin> set t" "rest = [] \<or> rest = [LF]"
proof -
  from re_match_mem [OF assms] have "(m_upto m, m_rest m, m_caps m) \<in> set (rmatch re_brace_token [] line [])"
    and "m_before m = []" by auto
  then show ?thesis
    unfolding re_brace_token_def group_mem
    by (auto simp: group_mem group_text_def m_group_def intro!: that)
qed

text \<open>What one token does to the stack: an opening brace, a closing brace, or one of the other two.\<close>

definition open_brace :: "nat \<Rightarrow> string \<Rightarrow> nesting_state \<Rightarrow> nesting_state" where
  "open_brace linenum line ns =
     (if \<not> SeenOpenBrace ns then update_top (\<lambda>b. b\<lparr>seen_open_brace := True\<rparr>) ns
      else if matches re_extern_c line then push_block (ExternCInfo (next_id ns) linenum) ns
      else
        let b = BlockInfo (next_id ns) linenum True in
        push_block (if matches MATCH_ASM line then b\<lparr>inline_asm := BLOCK_ASM\<rparr> else b) ns)"

definition pop_stack :: "nesting_state \<Rightarrow> nesting_state" where
  "pop_stack ns = ns\<lparr>stack := tl (stack ns)\<rparr>"

definition close_brace ::
  "string \<Rightarrow> cleansed_lines \<Rightarrow> nat \<Rightarrow> nesting_state \<Rightarrow> (diag list \<times> nesting_state) option" where
  "close_brace filename clean_lines linenum ns =
     (case stack ns of
        [] \<Rightarrow> Some ([], ns)
      | b # _ \<Rightarrow> do { ds \<leftarrow> CheckEnd filename clean_lines linenum b; Some (ds, pop_stack ns) })"

definition consume_token ::
  "string \<Rightarrow> cleansed_lines \<Rightarrow> nat \<Rightarrow> string \<Rightarrow> string \<Rightarrow> nesting_state \<Rightarrow> (diag list \<times> nesting_state) option" where
  "consume_token filename clean_lines linenum token line ns =
     (if token = ''{'' then Some ([], open_brace linenum line ns)
      else if token = '';'' \<or> token = '')'' then
        Some ([], if \<not> SeenOpenBrace ns then pop_stack ns else ns)
      else close_brace filename clean_lines linenum ns)"

function consume_braces ::
  "string \<Rightarrow> cleansed_lines \<Rightarrow> nat \<Rightarrow> string \<Rightarrow> nesting_state \<Rightarrow> (diag list \<times> nesting_state) option" where
  "consume_braces filename clean_lines linenum line ns =
     (case re_match re_brace_token line of
        None \<Rightarrow> Some ([], ns)
      | Some matched \<Rightarrow> do {
          (ds, ns) \<leftarrow> consume_token filename clean_lines linenum (group_text matched 1) line ns;
          (ds', ns) \<leftarrow> consume_braces filename clean_lines linenum (group_text matched 2) ns;
          Some (ds @ ds', ns)
        })"
  by pat_completeness auto
termination
  by (relation "measure (\<lambda>(filename, cl, linenum, line, ns). length line)") (auto elim!: brace_token_groups)

declare consume_braces.simps [simp del]

definition Update :: "string \<Rightarrow> cleansed_lines \<Rightarrow> nat \<Rightarrow> nesting_state \<Rightarrow> (diag list \<times> nesting_state) option" where
  "Update filename clean_lines linenum ns = do {
     line \<leftarrow> py_nth (elided clean_lines) (int linenum);
     let ns = ns\<lparr>previous_stack_top := (case stack ns of [] \<Rightarrow> None | b # _ \<Rightarrow> Some b)\<rparr>;
     let ns = UpdatePreprocessor line ns;
     let ns = update_top (count_parentheses line) ns;
     let (rest, ns) = consume_namespaces linenum line ns;
     (rest, ns) \<leftarrow> consume_class clean_lines linenum rest ns;
     let ns = (if \<not> SeenOpenBrace ns then update_top (CheckBegin line) ns else ns);
     let (ds, ns) = update_access filename linenum rest ns;
     (ds', ns) \<leftarrow> consume_braces filename clean_lines linenum rest ns;
     Some (ds @ ds', ns)
   }"

section \<open>Queries and the end of the file\<close>

definition InnermostClass :: "nesting_state \<Rightarrow> block option" where
  "InnermostClass ns = find is_class (stack ns)"

definition CheckCompletedBlocks :: "string \<Rightarrow> nesting_state \<Rightarrow> diag list" where
  "CheckCompletedBlocks filename ns = concat (map (\<lambda>b.
     case b_kind b of
       Class c \<Rightarrow> [mk_error filename (int (starting_linenum b)) ''build/class'' 5
         (''Failed to find complete declaration of class '' @ cls_name c)]
     | Namespace name \<Rightarrow> [mk_error filename (int (starting_linenum b)) ''build/namespaces'' 5
         (''Failed to find complete declaration of namespace '' @ name)]
     | _ \<Rightarrow> []) (rev (stack ns)))"

section \<open>The update never raises\<close>

lemma in_template_args_total:
  assumes "well_formed cl"
  shows "\<exists>b. in_template_args cl linenum pos = Some b"
  using assms
proof (induction cl linenum pos rule: in_template_args.induct)
  case (1 cl linenum pos)
  show ?case
  proof (cases "linenum < NumLines cl")
    case True
    define line where "line = elided cl ! linenum"
    have line: "py_nth (elided cl) (int linenum) = Some line"
      using True "1.prems" by (simp add: line_def well_formed_def NumLines_def)
    note IH = "1.IH" [OF True line]
    show ?thesis
    proof (cases "re_match re_template_token (drop pos line)")
      case None
      with IH(1) True line "1.prems" show ?thesis
        by (subst in_template_args.simps) (simp del: py_nth_nat)
    next
      case (Some m)
      define pos' where "pos' = pos + length (group_text m 0)"
      from template_token_match [OF Some] have "pos' - 1 < length line"
        unfolding pos'_def length_drop by linarith
      with CloseExpression_pointer [OF "1.prems" True, of "pos' - 1"]
      obtain r where "CloseExpression cl linenum (pos' - 1) = Some r" by (auto simp: line_def)
      then obtain l n p where close: "CloseExpression cl linenum (pos' - 1) = Some (l, n, p)" by (cases r) auto
      note IH = IH(2-) [OF Some refl pos'_def]
      have eq: "in_template_args cl linenum pos =
          (if group_text m 1 \<in> {''{'', ''}'', '';''} then Some False
           else if group_text m 1 \<in> {''>'', ''='', ''['', '']'', ''.''} then Some True
           else if group_text m 1 \<noteq> ''<'' then
             if pos' + 1 \<ge> length line then in_template_args cl (linenum + 1) 0
             else in_template_args cl linenum (pos' + 1)
           else if p < 0 then Some False else in_template_args cl n (nat p))"
        by (subst in_template_args.simps)
          (simp only: True if_True line option.case Some Let_def pos'_def [symmetric] close prod.case)
      consider "group_text m 1 \<in> {''{'', ''}'', '';''}"
        | "group_text m 1 \<notin> {''{'', ''}'', '';''}" "group_text m 1 \<in> {''>'', ''='', ''['', '']'', ''.''}"
        | "group_text m 1 \<notin> {''{'', ''}'', '';''}" "group_text m 1 \<notin> {''>'', ''='', ''['', '']'', ''.''}"
          "group_text m 1 \<noteq> ''<''" "length line \<le> pos' + 1"
        | "group_text m 1 \<notin> {''{'', ''}'', '';''}" "group_text m 1 \<notin> {''>'', ''='', ''['', '']'', ''.''}"
          "group_text m 1 \<noteq> ''<''" "\<not> length line \<le> pos' + 1"
        | "group_text m 1 = ''<''" "p < 0" | "group_text m 1 = ''<''" "\<not> p < 0" by blast
      then show ?thesis
      proof cases
        case 3
        with IH(1) [OF 3 "1.prems"] eq show ?thesis by metis
      next
        case 4
        with IH(2) [OF 4 "1.prems"] eq show ?thesis by metis
      next
        case 6
        have "\<exists>b. in_template_args cl n (nat p) = Some b"
          by (rule IH(3) [OF _ _ _ close refl refl 6(2) "1.prems"]) (use 6(1) in auto)
        with eq 6 show ?thesis by simp
      qed (use eq in \<open>simp_all, blast+\<close>)
    qed
  next
    case False
    then show ?thesis by (intro exI [of _ False]) (subst in_template_args.simps, simp)
  qed
qed

lemma consume_braces_total:
  assumes "well_formed cl" "linenum < NumLines cl"
  shows "\<exists>ds ns'. consume_braces filename cl linenum line ns = Some (ds, ns')"
proof (induction "length line" arbitrary: line ns rule: less_induct)
  case less
  show ?case
  proof (cases "re_match re_brace_token line")
    case (Some m)
    then have "length (group_text m 2) < length line" by (auto elim!: brace_token_groups)
    then have IH: "\<exists>ds ns'. consume_braces filename cl linenum (group_text m 2) ns1 = Some (ds, ns')" for ns1
      using less by blast
    have "\<exists>ds ns'. close_brace filename cl linenum ns = Some (ds, ns')"
    proof (cases "stack ns")
      case (Cons b bs)
      obtain ds where "CheckEnd filename cl linenum b = Some ds" using CheckEnd_total [OF assms] by blast
      with Cons show ?thesis by (simp add: close_brace_def)
    qed (simp add: close_brace_def)
    then obtain ds1 ns1 where step: "consume_token filename cl linenum (group_text m 1) line ns = Some (ds1, ns1)"
      unfolding consume_token_def by (cases "group_text m 1 = ''{''"; cases "group_text m 1 = '';'' \<or> group_text m 1 = '')''") auto
    obtain ds2 ns2 where "consume_braces filename cl linenum (group_text m 2) ns1 = Some (ds2, ns2)" using IH by blast
    with step Some show ?thesis by (subst consume_braces.simps) simp
  qed (subst consume_braces.simps, simp)
qed

lemma consume_class_total:
  assumes "well_formed cl" "linenum < NumLines cl"
  shows "\<exists>rest ns'. consume_class cl linenum line ns = Some (rest, ns')"
proof (cases "re_match re_class_decl line")
  case (Some m)
  obtain b where "InTemplateArgumentList cl linenum (length (group_text m 1)) = Some b"
    using in_template_args_total [OF assms(1)] by (auto simp: InTemplateArgumentList_def)
  moreover obtain c where "ClassInfo (next_id ns) (group_text m 3) (group_text m 2) cl linenum = Some c"
    using ClassInfo_total [OF assms] by blast
  ultimately show ?thesis using Some by (simp add: consume_class_def)
qed (simp add: consume_class_def)

lemma Update_returns:
  assumes "well_formed cl" "linenum < NumLines cl"
  shows "\<exists>ds ns'. Update filename cl linenum ns = Some (ds, ns')"
proof -
  have line: "py_nth (elided cl) (int linenum) = Some (elided cl ! linenum)"
    using assms by (simp add: well_formed_def NumLines_def)
  define ns1 where "ns1 = update_top (count_parentheses (elided cl ! linenum)) (UpdatePreprocessor (elided cl ! linenum)
    (ns\<lparr>previous_stack_top := (case stack ns of [] \<Rightarrow> None | b # _ \<Rightarrow> Some b)\<rparr>))"
  obtain rest2 ns2 where 2: "consume_namespaces linenum (elided cl ! linenum) ns1 = (rest2, ns2)" by fastforce
  obtain rest3 ns3 where 3: "consume_class cl linenum rest2 ns2 = Some (rest3, ns3)"
    using consume_class_total [OF assms] by blast
  define ns4 where "ns4 = (if \<not> SeenOpenBrace ns3 then update_top (CheckBegin (elided cl ! linenum)) ns3 else ns3)"
  obtain ds5 ns5 where 5: "update_access filename linenum rest3 ns4 = (ds5, ns5)" by fastforce
  obtain ds6 ns6 where 6: "consume_braces filename cl linenum rest3 ns5 = Some (ds6, ns6)"
    using consume_braces_total [OF assms] by blast
  from line 2 3 5 6 show ?thesis
    unfolding Update_def Let_def ns1_def ns4_def by (simp del: py_nth_nat)
qed

text \<open>The update of the nesting state never raises on a line of a cleansed file, whatever the state
  is: neither an index of a line nor one of the stack is out of range.\<close>

theorem Update_total:
  assumes "well_formed cl" "linenum < NumLines cl"
  shows "\<exists>ds ns'. Update filename cl linenum ns = Some (ds, ns')"
  using assms by (rule Update_returns)

definition nested_file :: cleansed_lines where
  "nested_file = (let ls = [''namespace a { class B {'', '' public:'', ''  int f() { return 0; }'', ''}; }''] in
     \<lparr>elided = ls, lines = ls, raw_lines = ls, num_lines = 4, lines_without_raw_strings = ls\<rparr>)"

lemma nested_file_ok: "well_formed nested_file" "NumLines nested_file = 4"
  by (simp_all add: nested_file_def well_formed_def NumLines_def Let_def)

theorem Update_total_witness: "\<exists>ds ns'. Update ''a.cc'' nested_file 0 NestingState_init = Some (ds, ns')"
  by (rule Update_total) (simp_all add: nested_file_ok)

section \<open>Identity of blocks\<close>

text \<open>The identifiers of the reachable blocks, and the invariant: no two blocks are one object.\<close>

definition pp_ids :: "preprocessor_info list \<Rightarrow> nat list" where
  "pp_ids pps = concat (map (\<lambda>pp. map b_id (stack_before_if pp) @ map b_id (stack_before_else pp)) pps)"

lemma pp_ids_simps [simp]:
  "pp_ids [] = []"
  "pp_ids (pp # pps) = map b_id (stack_before_if pp) @ map b_id (stack_before_else pp) @ pp_ids pps"
  by (simp_all add: pp_ids_def)

definition block_ids :: "nesting_state \<Rightarrow> nat list" where
  "block_ids ns = map b_id (stack ns) @ pp_ids (pp_stack ns)"

definition ids_ok :: "nesting_state \<Rightarrow> bool" where
  "ids_ok ns = (distinct (block_ids ns) \<and> list_all (\<lambda>i. i < next_id ns) (block_ids ns))"

lemma deepcopy_ids [simp]: "map b_id (deepcopy oid bs) = [oid ..< oid + length bs]"
proof (induction bs arbitrary: oid)
  case (Cons b bs)
  have "map b_id (deepcopy oid (b # bs)) = oid # [Suc oid ..< Suc oid + length bs]" using Cons by simp
  also have "\<dots> = [oid ..< oid + length (b # bs)]" using upt_conv_Cons [of oid "oid + length (b # bs)"] by simp
  finally show ?case .
qed simp

lemma deepcopy_id_set [simp]: "b_id ` set (deepcopy oid bs) = {oid ..< oid + length bs}"
  using deepcopy_ids [of oid bs] by (metis atLeastLessThan_upt set_map)

lemma ids_mono: "list_all (\<lambda>i. i < (n::nat)) is \<Longrightarrow> n \<le> k \<Longrightarrow> list_all (\<lambda>i. i < k) is"
  by (fastforce simp: list_all_iff)

lemma ids_ok_lists:
  "ids_ok ns \<longleftrightarrow> distinct (map b_id (stack ns)) \<and> distinct (pp_ids (pp_stack ns)) \<and>
     set (map b_id (stack ns)) \<inter> set (pp_ids (pp_stack ns)) = {} \<and>
     list_all (\<lambda>i. i < next_id ns) (map b_id (stack ns)) \<and> list_all (\<lambda>i. i < next_id ns) (pp_ids (pp_stack ns))"
  by (auto simp: ids_ok_def block_ids_def)

lemma fresh_ids: "list_all (\<lambda>i. i < (n::nat)) is \<Longrightarrow> n \<le> k \<Longrightarrow> set is \<inter> {k ..< l} = {} \<and> {k ..< l} \<inter> set is = {}"
  by (fastforce simp: list_all_iff)

lemma ids_upt: "l \<le> k \<Longrightarrow> list_all (\<lambda>i. i < (k::nat)) [j ..< l]"
  by (auto simp: list_all_iff)

lemma fresh_id: "list_all (\<lambda>i. i < (n::nat)) is \<Longrightarrow> n \<notin> set is \<and> list_all (\<lambda>i. i < Suc n) is"
  by (fastforce simp: list_all_iff)

lemma ids_push:
  assumes "ids_ok ns" "b_id b = next_id ns" shows "ids_ok (push_block b ns)"
  using assms fresh_id [of "next_id ns" "map b_id (stack ns)"] fresh_id [of "next_id ns" "pp_ids (pp_stack ns)"]
  unfolding ids_ok_lists push_block_def by auto

lemma ids_update_top: "(\<And>b. b_id (f b) = b_id b) \<Longrightarrow> ids_ok (update_top f ns) = ids_ok ns"
  by (cases "stack ns") (auto simp: ids_ok_def update_top_def block_ids_def)

lemma ids_pop: "ids_ok ns \<Longrightarrow> ids_ok (pop_stack ns)"
  by (cases "stack ns") (auto simp: ids_ok_def pop_stack_def block_ids_def)

lemma ids_previous: "ids_ok (ns\<lparr>previous_stack_top := t\<rparr>) = ids_ok ns"
  by (simp add: ids_ok_def block_ids_def)

lemma ids_add_fresh:
  assumes "list_all (\<lambda>i. i < (n::nat)) is" "n \<le> j"
  shows "set is \<inter> {j ..< k} = {}" "{j ..< k} \<inter> set is = {}" "j \<le> k \<Longrightarrow> list_all (\<lambda>i. i < k) is"
  using assms by (fastforce simp: list_all_iff)+

lemma ids_pp_if:
  assumes "ids_ok ns" shows "ids_ok (pp_if ns)"
proof -
  let ?A = "map b_id (stack ns)" and ?R = "pp_ids (pp_stack ns)" and ?k = "next_id ns + length (stack ns)"
  from assms have ok: "distinct ?A" "distinct ?R" "set ?A \<inter> set ?R = {}"
    "list_all (\<lambda>i. i < next_id ns) ?A" "list_all (\<lambda>i. i < next_id ns) ?R" by (simp_all add: ids_ok_lists)
  note fresh = ids_add_fresh [OF ok(4) order_refl, of ?k] ids_add_fresh [OF ok(5) order_refl, of ?k]
  have "stack (pp_if ns) = stack ns" "next_id (pp_if ns) = ?k"
    "pp_ids (pp_stack (pp_if ns)) = [next_id ns ..< ?k] @ ?R" by (simp_all add: pp_if_def)
  then show ?thesis
    unfolding ids_ok_lists using ok fresh by (simp add: ids_upt Int_Un_distrib del: list.set_map)
qed

lemma ids_pp_endif: "ids_ok ns \<Longrightarrow> ids_ok (pp_endif ns)"
  by (cases "pp_stack ns") (auto simp: ids_ok_lists pp_endif_def)

text \<open>Dropping the stack and putting a copy in its place.\<close>

lemma ids_replace_stack:
  assumes "ids_ok ns" "next_id ns \<le> oid"
  shows "ids_ok (ns\<lparr>stack := deepcopy oid bs, next_id := oid + length bs\<rparr>)"
proof -
  let ?R = "pp_ids (pp_stack ns)" and ?k = "oid + length bs"
  from assms have ok: "distinct ?R" "list_all (\<lambda>i. i < next_id ns) ?R" by (simp_all add: ids_ok_lists)
  from ids_add_fresh [OF ok(2) assms(2), of ?k] ok(1) show ?thesis
    unfolding ids_ok_lists by (simp add: ids_upt del: list.set_map)
qed

lemma ids_remember:
  assumes "ids_ok ns" "pp_stack ns = pp # rest" "remember_else ns pp = (pp', oid)"
  shows "ids_ok (ns\<lparr>stack := [], pp_stack := pp' # rest, next_id := oid\<rparr>)"
proof (cases "seen_else pp")
  case True
  with assms show ?thesis by (auto simp: remember_else_def ids_ok_lists)
next
  case False
  let ?B = "map b_id (stack_before_if pp)" and ?R = "pp_ids rest" and ?k = "next_id ns + length (stack ns)"
  from assms(1,2) have ok: "distinct ?B" "distinct ?R" "set ?B \<inter> set ?R = {}"
    "list_all (\<lambda>i. i < next_id ns) ?B" "list_all (\<lambda>i. i < next_id ns) ?R" by (auto simp: ids_ok_lists)
  note fresh = ids_add_fresh [OF ok(4) order_refl, of ?k] ids_add_fresh [OF ok(5) order_refl, of ?k]
  from assms(3) False have "oid = ?k" "pp_ids (pp' # rest) = ?B @ [next_id ns ..< ?k] @ ?R"
    by (auto simp: remember_else_def)
  then show ?thesis
    unfolding ids_ok_lists using ok fresh by (simp add: ids_upt Int_Un_distrib del: list.set_map pp_ids_simps)
qed

lemma ids_pp_else: "ids_ok ns \<Longrightarrow> ids_ok (pp_else ns)"
proof (cases "pp_stack ns")
  case (Cons pp rest)
  assume ok: "ids_ok ns"
  obtain pp' oid where r: "remember_else ns pp = (pp', oid)" by fastforce
  have "stack_before_if pp' = stack_before_if pp" using r by (auto simp: remember_else_def split: if_splits)
  with ids_replace_stack [OF ids_remember [OF ok Cons r], of oid "stack_before_if pp'"]
  show ?thesis by (simp add: pp_else_def Cons r)
qed (simp add: pp_else_def)

lemma ids_UpdatePreprocessor: "ids_ok ns \<Longrightarrow> ids_ok (UpdatePreprocessor line ns)"
  by (simp add: UpdatePreprocessor_def ids_pp_if ids_pp_else ids_pp_endif)

lemma count_parentheses_id: "b_id (count_parentheses line b) = b_id b"
  by (simp add: count_parentheses_def Let_def)

lemma block_id_simps [simp]:
  "b_id (BlockInfo oid n s) = oid" "b_id (NamespaceInfo oid name n) = oid" "b_id (ExternCInfo oid n) = oid"
  by (simp_all add: BlockInfo_def NamespaceInfo_def ExternCInfo_def)

lemma ids_namespaces: "ids_ok ns \<Longrightarrow> ids_ok (snd (consume_namespaces linenum line ns))"
proof (induction linenum line ns rule: consume_namespaces.induct)
  case (1 linenum line ns)
  show ?case
  proof (cases "re_match re_namespace_decl line")
    case None
    with "1.prems" show ?thesis by (subst consume_namespaces.simps) simp
  next
    case (Some m)
    show ?thesis
    proof (cases "find_sub (group_text m 2) ''{''")
      case None
      from "1.IH" (1) [OF Some refl refl None] "1.prems" Some None show ?thesis
        by (subst consume_namespaces.simps) (simp add: Let_def ids_push del: find_sub_char_None)
    next
      case s: (Some i)
      from "1.IH" (2) [OF Some refl refl s] "1.prems" Some s show ?thesis
        by (subst consume_namespaces.simps) (simp add: Let_def ids_push)
    qed
  qed
qed

lemma ids_class: "consume_class cl linenum line ns = Some (rest, ns') \<Longrightarrow> ids_ok ns \<Longrightarrow> ids_ok ns'"
  by (auto simp: consume_class_def ClassInfo_def bind_eq_Some_conv ids_push split: option.splits if_splits)

lemma ids_access: "ids_ok ns \<Longrightarrow> ids_ok (snd (update_access filename linenum line ns))"
  by (auto simp: update_access_def ids_update_top split: list.split block_kind.split option.split)

lemma ids_token:
  "consume_token filename cl linenum token line ns = Some (ds, ns') \<Longrightarrow> ids_ok ns \<Longrightarrow> ids_ok ns'"
  by (auto simp: consume_token_def open_brace_def close_brace_def ids_push ids_pop ids_update_top Let_def
    bind_eq_Some_conv split: if_splits list.splits)

lemma consume_braces_step:
  "re_match re_brace_token line = Some m \<Longrightarrow> consume_braces filename cl linenum line ns =
     do { (ds, ns1) \<leftarrow> consume_token filename cl linenum (group_text m 1) line ns;
          (ds', ns2) \<leftarrow> consume_braces filename cl linenum (group_text m 2) ns1;
          Some (ds @ ds', ns2) }"
  by (subst consume_braces.simps) simp

lemma ids_braces: "consume_braces filename cl linenum line ns = Some (ds, ns') \<Longrightarrow> ids_ok ns \<Longrightarrow> ids_ok ns'"
proof (induction "length line" arbitrary: line ns ds rule: less_induct)
  case less
  show ?case
  proof (cases "re_match re_brace_token line")
    case None
    with less.prems show ?thesis by (subst (asm) consume_braces.simps) simp
  next
    case (Some m)
    then have shorter: "length (group_text m 2) < length line" by (auto elim!: brace_token_groups)
    from less.prems(1) Some obtain ds1 ns1 ds2 where
        "consume_token filename cl linenum (group_text m 1) line ns = Some (ds1, ns1)"
        "consume_braces filename cl linenum (group_text m 2) ns1 = Some (ds2, ns')"
      by (auto simp: consume_braces_step bind_eq_Some_conv)
    with less.hyps [OF shorter] ids_token less.prems(2) show ?thesis by blast
  qed
qed

text \<open>The stages of an update.\<close>

definition start_line :: "string \<Rightarrow> nesting_state \<Rightarrow> nesting_state" where
  "start_line line ns = update_top (count_parentheses line) (UpdatePreprocessor line
     (ns\<lparr>previous_stack_top := (case stack ns of [] \<Rightarrow> None | b # _ \<Rightarrow> Some b)\<rparr>))"

definition begin_block :: "string \<Rightarrow> nesting_state \<Rightarrow> nesting_state" where
  "begin_block line ns = (if \<not> SeenOpenBrace ns then update_top (CheckBegin line) ns else ns)"

lemma Update_stages:
  assumes "Update filename cl linenum ns = Some (ds, ns')"
  obtains line rest1 ns1 rest2 ns2 ds1 ns3 ds2 where
    "consume_namespaces linenum line (start_line line ns) = (rest1, ns1)"
    "consume_class cl linenum rest1 ns1 = Some (rest2, ns2)"
    "update_access filename linenum rest2 (begin_block line ns2) = (ds1, ns3)"
    "consume_braces filename cl linenum rest2 ns3 = Some (ds2, ns')" "ds = ds1 @ ds2"
proof -
  from assms obtain line where line: "py_nth (elided cl) (int linenum) = Some line"
    by (cases "py_nth (elided cl) (int linenum)") (simp_all add: Update_def del: py_nth_nat)
  obtain rest1 ns1 where 1: "consume_namespaces linenum line (start_line line ns) = (rest1, ns1)" by fastforce
  from assms line 1 obtain rest2 ns2 where 2: "consume_class cl linenum rest1 ns1 = Some (rest2, ns2)"
    by (cases "consume_class cl linenum rest1 ns1") (auto simp: Update_def Let_def start_line_def simp del: py_nth_nat)
  obtain ds1 ns3 where 3: "update_access filename linenum rest2 (begin_block line ns2) = (ds1, ns3)" by fastforce
  from assms line 1 2 3 obtain ds2 where "consume_braces filename cl linenum rest2 ns3 = Some (ds2, ns')" "ds = ds1 @ ds2"
    by (cases "consume_braces filename cl linenum rest2 ns3")
      (auto simp: Update_def Let_def start_line_def begin_block_def simp del: py_nth_nat)
  with 1 2 3 that show ?thesis by blast
qed

text \<open>C20: identity is sound: the blocks on the stack and in the saved stacks of the preprocessor are
  pairwise different objects, and every update keeps it so.\<close>

theorem Update_ids_ok:
  assumes "ids_ok ns" "Update filename cl linenum ns = Some (ds, ns')"
  shows "ids_ok ns'"
proof -
  from Update_stages [OF assms(2)] obtain line rest1 ns1 rest2 ns2 ds1 ns3 ds2 where
      1: "consume_namespaces linenum line (start_line line ns) = (rest1, ns1)"
      and 2: "consume_class cl linenum rest1 ns1 = Some (rest2, ns2)"
      and 3: "update_access filename linenum rest2 (begin_block line ns2) = (ds1, ns3)"
      and 4: "consume_braces filename cl linenum rest2 ns3 = Some (ds2, ns')" and "ds = ds1 @ ds2" .
  have "ids_ok (start_line line ns)"
    using assms(1) by (simp add: start_line_def ids_update_top count_parentheses_id ids_UpdatePreprocessor ids_previous)
  from ids_namespaces [OF this, of linenum line] 1 have "ids_ok ns1" by simp
  with 2 have "ids_ok ns2" by (rule ids_class)
  then have "ids_ok (begin_block line ns2)" by (simp add: begin_block_def ids_update_top)
  from ids_access [OF this, of filename linenum rest2] 3 have "ids_ok ns3" by simp
  with 4 show ?thesis by (rule ids_braces)
qed

lemma ids_ok_init: "ids_ok NestingState_init"
  by (simp add: ids_ok_def NestingState_init_def block_ids_def)

theorem Update_ids_ok_witness:
  "\<exists>ds ns'. Update ''a.cc'' nested_file 0 NestingState_init = Some (ds, ns') \<and> length (stack ns') = 2 \<and> ids_ok ns'"
proof -
  have "case Update ''a.cc'' nested_file 0 NestingState_init of None \<Rightarrow> False | Some (ds, ns') \<Rightarrow> length (stack ns') = 2"
    by code_simp
  then obtain ds ns' where "Update ''a.cc'' nested_file 0 NestingState_init = Some (ds, ns')" "length (stack ns') = 2"
    by (auto split: option.splits)
  with Update_ids_ok [OF ids_ok_init] show ?thesis by blast
qed

section \<open>Balanced braces\<close>

inductive brace_balanced :: "string \<Rightarrow> bool" where
  Nil: "brace_balanced []"
| Other: "c \<noteq> CHR ''{'' \<Longrightarrow> c \<noteq> CHR ''}'' \<Longrightarrow> brace_balanced w \<Longrightarrow> brace_balanced (c # w)"
| Nest: "brace_balanced u \<Longrightarrow> brace_balanced w \<Longrightarrow> brace_balanced (CHR ''{'' # u @ CHR ''}'' # w)"

definition no_token :: "string \<Rightarrow> bool" where
  "no_token w = (set w \<inter> set ''{;)}'' = {})"

lemma brace_token_match:
  assumes "no_token w" "c \<in> set ''{;)}''" "LF \<notin> set t"
  shows "\<exists>m. re_match re_brace_token (w @ c # t) = Some m \<and> group_text m 1 = [c] \<and> group_text m 2 = t"
proof -
  have "(([], w @ c # t), (rev (w @ c # t), [])) \<in> re_rel re_brace_token"
    unfolding re_brace_token_def rel_rseq_Cons
    by (intro relcompI [where b = "([], w @ c # t)"] relcompI [where b = "(rev w, c # t)"]
        relcompI [where b = "(c # rev w, t)"] relcompI [where b = "(rev t @ c # rev w, [])"])
       (use assms in \<open>simp_all add: no_token_def disjoint_iff\<close>)
  then obtain m where m: "re_match re_brace_token (w @ c # t) = Some m"
    by (auto simp: re_match_def) (metis first_match_None not_None_eq)
  then obtain w' c' t' rest where parts: "w @ c # t = w' @ c' # t' @ rest" "group_text m 1 = [c']"
    "group_text m 2 = t'" "c' \<in> set ''{;)}''" "set w' \<inter> set ''{;)}'' = {}" "rest = [] \<or> rest = [LF]"
    by (elim brace_token_groups) blast
  have "w = takeWhile (\<lambda>x. x \<notin> set ''{;)}'') (w @ c # t)" using assms by (subst takeWhile_append2) (auto simp: no_token_def)
  also have "\<dots> = w'" unfolding parts(1) using parts by (subst takeWhile_append2) auto
  finally have "w = w'" .
  with parts(1) have "c = c'" "t = t' @ rest" by auto
  with assms(3) parts(6) have "t' = t" by auto
  with m parts \<open>c = c'\<close> show ?thesis by blast
qed

lemma brace_token_none: "no_token w \<Longrightarrow> re_match re_brace_token w = None"
proof (rule ccontr)
  assume "no_token w" "re_match re_brace_token w \<noteq> None"
  then obtain m where "re_match re_brace_token w = Some m" by blast
  then show False using \<open>no_token w\<close> by (elim brace_token_groups) (auto simp: no_token_def)
qed

lemma consume_no_token: "no_token w \<Longrightarrow> consume_braces filename cl n w ns = Some ([], ns)"
  by (subst consume_braces.simps) (simp add: brace_token_none)

lemma consume_next_token:
  assumes "no_token w" "c \<in> set ''{;)}''" "LF \<notin> set t"
    "consume_token filename cl n [c] (w @ c # t) ns = Some ([], ns1)"
  shows "consume_braces filename cl n (w @ c # t) ns = consume_braces filename cl n t ns1"
proof -
  from brace_token_match [OF assms(1-3)] obtain m where
    "re_match re_brace_token (w @ c # t) = Some m" "group_text m 1 = [c]" "group_text m 2 = t" by blast
  with assms(4) show ?thesis
    by (simp add: consume_braces_step split: bind_splits)
qed

lemma open_then_seen:
  assumes "SeenOpenBrace ns"
  shows "\<exists>b. open_brace n line ns = ns\<lparr>stack := b # stack ns, next_id := next_id ns + 1\<rparr> \<and>
    seen_open_brace b \<and> CheckEnd filename cl n b = Some []"
  using assms by (auto simp: open_brace_def push_block_def Let_def BlockInfo_def ExternCInfo_def CheckEnd_def)

lemma consume_balanced:
  assumes "brace_balanced w" "no_token p" "LF \<notin> set (w @ v)" "SeenOpenBrace ns"
  shows "\<exists>p' k. no_token p' \<and> consume_braces filename cl n (p @ w @ v) ns =
    consume_braces filename cl n (p' @ v) (ns\<lparr>next_id := k\<rparr>)"
  using assms
proof (induction w arbitrary: p v ns rule: brace_balanced.induct)
  case Nil
  then show ?case by (intro exI [of _ p] exI [of _ "next_id ns"]) simp
next
  case (Other c w)
  show ?case
  proof (cases "c \<in> set '';)''")
    case True
    then have "consume_token filename cl n [c] (p @ c # w @ v) ns = Some ([], ns)"
      using Other.prems by (auto simp: consume_token_def)
    then have "consume_braces filename cl n (p @ c # w @ v) ns = consume_braces filename cl n (w @ v) ns"
      by (rule consume_next_token [rotated 3]) (use True Other.prems in auto)
    with Other.IH [of "[]" v ns] Other.prems show ?thesis by (simp add: no_token_def)
  next
    case False
    then have "no_token (p @ [c])" using Other by (auto simp: no_token_def)
    from Other.IH [OF this, of v ns] Other.prems show ?thesis by simp
  qed
next
  case (Nest u w)
  obtain b where b: "open_brace n (p @ CHR ''{'' # u @ CHR ''}'' # w @ v) ns =
      ns\<lparr>stack := b # stack ns, next_id := next_id ns + 1\<rparr>" "seen_open_brace b" "CheckEnd filename cl n b = Some []"
    using open_then_seen [OF Nest.prems(3)] by blast
  let ?ns1 = "ns\<lparr>stack := b # stack ns, next_id := next_id ns + 1\<rparr>"
  have "consume_braces filename cl n (p @ CHR ''{'' # u @ CHR ''}'' # w @ v) ns =
      consume_braces filename cl n (u @ CHR ''}'' # w @ v) ?ns1"
    by (rule consume_next_token) (use Nest.prems b(1) in \<open>auto simp: consume_token_def\<close>)
  moreover have "SeenOpenBrace ?ns1" using b(2) by (simp add: SeenOpenBrace_def)
  from Nest.IH(1) [OF _ _ this, of "[]" "CHR ''}'' # w @ v"] Nest.prems obtain p' k where p': "no_token p'"
      "consume_braces filename cl n (u @ CHR ''}'' # w @ v) ?ns1 =
       consume_braces filename cl n (p' @ CHR ''}'' # w @ v) (?ns1\<lparr>next_id := k\<rparr>)"
    by (auto simp: no_token_def)
  moreover have "consume_braces filename cl n (p' @ CHR ''}'' # w @ v) (?ns1\<lparr>next_id := k\<rparr>) =
      consume_braces filename cl n (w @ v) (ns\<lparr>next_id := k\<rparr>)"
    by (rule consume_next_token)
      (use Nest.prems p'(1) b(3) in \<open>auto simp: consume_token_def close_brace_def pop_stack_def\<close>)
  moreover have "SeenOpenBrace (ns\<lparr>next_id := k\<rparr>)" using Nest.prems(3) by (simp add: SeenOpenBrace_def)
  from Nest.IH(2) [OF _ _ this, of "[]" v] Nest.prems
  have "\<exists>p' k'. no_token p' \<and> consume_braces filename cl n (w @ v) (ns\<lparr>next_id := k\<rparr>) =
      consume_braces filename cl n (p' @ v) (ns\<lparr>next_id := k'\<rparr>)"
    by (simp add: no_token_def)
  ultimately show ?case by simp
qed

text \<open>C13: a line of code whose braces are balanced leaves the nesting stack as it was and reports
  nothing, whatever blocks it opens and closes, once the innermost block has its opening brace.\<close>

theorem balanced_line_keeps_stack:
  assumes "brace_balanced line" "LF \<notin> set line" "SeenOpenBrace ns"
  shows "\<exists>ns'. consume_braces filename cl n line ns = Some ([], ns') \<and> stack ns' = stack ns \<and>
    pp_stack ns' = pp_stack ns"
proof -
  from consume_balanced [OF assms(1), of "[]" "[]" ns filename cl n] assms(2,3) obtain p' k where
    "no_token p'" "consume_braces filename cl n line ns = consume_braces filename cl n p' (ns\<lparr>next_id := k\<rparr>)"
    by (auto simp: no_token_def)
  then show ?thesis by (simp add: consume_no_token)
qed

theorem balanced_line_keeps_stack_witness:
  "\<exists>ns'. consume_braces ''a.cc'' nested_file 0 ''if (x) { f(); }'' NestingState_init = Some ([], ns') \<and>
     stack ns' = [] \<and> pp_stack ns' = []"
proof -
  have "brace_balanced (''if (x) '' @ (CHR ''{'' # '' f(); '' @ CHR ''}'' # []))"
    by (simp add: brace_balanced.Other brace_balanced.Nil brace_balanced.Nest [of "'' f(); ''" "[]", simplified])
  then have "brace_balanced ''if (x) { f(); }''" by simp
  from balanced_line_keeps_stack [OF this, of NestingState_init] show ?thesis
    by (simp add: SeenOpenBrace_def NestingState_init_def)
qed

section \<open>Preprocessor branches\<close>

text \<open>Blocks up to their identity.\<close>

definition contents :: "block list \<Rightarrow> block list" where
  "contents bs = map (\<lambda>b. b\<lparr>b_id := 0\<rparr>) bs"

lemma contents_deepcopy [simp]: "contents (deepcopy oid bs) = contents bs"
  unfolding contents_def by (induction bs arbitrary: oid) auto

lemma pp_lines:
  "UpdatePreprocessor ''#if A'' ns = pp_if ns"
  "UpdatePreprocessor ''#else'' ns = pp_else ns"
  "UpdatePreprocessor ''#endif'' ns = pp_endif ns"
proof -
  have "matches re_pp_if ''#if A''" "\<not> matches re_pp_if ''#else''" "matches re_pp_else ''#else''"
    "\<not> matches re_pp_if ''#endif''" "\<not> matches re_pp_else ''#endif''" "matches re_pp_endif ''#endif''" by code_simp+
  then show "UpdatePreprocessor ''#if A'' ns = pp_if ns" "UpdatePreprocessor ''#else'' ns = pp_else ns"
    "UpdatePreprocessor ''#endif'' ns = pp_endif ns" by (simp_all add: UpdatePreprocessor_def)
qed

text \<open>C14: the branches of a preprocessor conditional do not see each other: whatever the lines in
  between do to the nesting stack, the \<open>#else\<close> branch starts from the stack at the \<open>#if\<close>, and
  after the \<open>#endif\<close> the stack is the one that the first branch left.\<close>

theorem preprocessor_branches:
  assumes "pp_stack ns1 = pp_stack (UpdatePreprocessor ''#if A'' ns0)"
    and "pp_stack ns2 = pp_stack (UpdatePreprocessor ''#else'' ns1)"
  shows "contents (stack (UpdatePreprocessor ''#else'' ns1)) = contents (stack ns0) \<and>
    contents (stack (UpdatePreprocessor ''#endif'' ns2)) = contents (stack ns1) \<and>
    pp_stack (UpdatePreprocessor ''#endif'' ns2) = pp_stack ns0"
  using assms unfolding pp_lines
  by (simp add: pp_if_def pp_else_def pp_endif_def remember_else_def)

theorem preprocessor_branches_witness:
  "contents (stack (UpdatePreprocessor ''#else'' (push_block (BlockInfo 0 1 True) (UpdatePreprocessor ''#if A'' NestingState_init)))) =
     contents (stack NestingState_init)"
proof -
  let ?ns1 = "push_block (BlockInfo 0 1 True) (UpdatePreprocessor ''#if A'' NestingState_init)"
  have "pp_stack ?ns1 = pp_stack (UpdatePreprocessor ''#if A'' NestingState_init)" by (simp add: push_block_def)
  from preprocessor_branches [OF this refl] show ?thesis by simp
qed

end
