(* ===== verification/FunctionState.thy ===== *)
theory FunctionState
  imports Cleanse
begin

text \<open>
  The length of function bodies (\<open>cpplint.py\<close>, class \<open>_FunctionState\<close> and
  \<open>CheckForFunctionLengths\<close>). The verbosity level, which the code reads from the module's
  state, is an argument. \<open>None\<close> is an IndexError or the AttributeError of a search that
  found nothing; it is proved that neither happens on a line of the file.
\<close>

section \<open>The state\<close>

record function_state =
  in_a_function :: bool
  lines_in_function :: nat
  current_function :: string

definition FunctionState_init :: function_state where
  "FunctionState_init = \<lparr>in_a_function = False, lines_in_function = 0, current_function = []\<rparr>"

definition NORMAL_TRIGGER :: nat where "NORMAL_TRIGGER = 250"
definition TEST_TRIGGER :: nat where "TEST_TRIGGER = 400"

definition Begin :: "string \<Rightarrow> function_state" where
  "Begin function_name = \<lparr>in_a_function = True, lines_in_function = 0, current_function = function_name\<rparr>"

definition Count :: "function_state \<Rightarrow> function_state" where
  "Count fs = (if in_a_function fs then fs\<lparr>lines_in_function := lines_in_function fs + 1\<rparr> else fs)"

definition End :: "function_state \<Rightarrow> function_state" where
  "End fs = fs\<lparr>in_a_function := False\<rparr>"

text \<open>
  The largest \<open>k\<close> with \<open>b * 2 ^ k \<le> a\<close>: \<open>int(math.log(a / b, 2))\<close> for \<open>a \<ge> b\<close>. For a
  smaller \<open>a\<close>, which takes a negative verbosity level, \<open>int\<close> rounds the logarithm up.
\<close>

function log2_floor :: "nat \<Rightarrow> nat \<Rightarrow> nat" where
  "log2_floor a b = (if 0 < b \<and> 2 * b \<le> a then Suc (log2_floor a (2 * b)) else 0)"
  by pat_completeness auto
termination by (relation "measure (\<lambda>(a, b). a - b)") auto

declare log2_floor.simps [simp del]

definition int_log2_ratio :: "nat \<Rightarrow> nat \<Rightarrow> int" where
  "int_log2_ratio a b = (if b \<le> a then int (log2_floor a b) else - int (log2_floor b a))"

text \<open>\<open>lines_in_function > base_trigger * 2**level\<close>, and the trigger as \<open>%d\<close> prints it.\<close>

definition exceeds_trigger :: "nat \<Rightarrow> nat \<Rightarrow> int \<Rightarrow> bool" where
  "exceeds_trigger n base level =
     (if 0 \<le> level then base * 2 ^ nat level < n else base < n * 2 ^ nat (- level))"

definition shown_trigger :: "nat \<Rightarrow> int \<Rightarrow> nat" where
  "shown_trigger base level = (if 0 \<le> level then base * 2 ^ nat level else base div 2 ^ nat (- level))"

definition re_test_function :: re where
  "re_test_function = rseq [rchr (CHR ''T''), Grp 1 (ralt [rlit ''EST'', rlit ''est''])]"

definition base_trigger :: "function_state \<Rightarrow> nat" where
  "base_trigger fs = (if matches re_test_function (current_function fs) then TEST_TRIGGER else NORMAL_TRIGGER)"

definition Check :: "int \<Rightarrow> string \<Rightarrow> int \<Rightarrow> function_state \<Rightarrow> diag list" where
  "Check verbose filename linenum fs =
     (if \<not> in_a_function fs then []
      else if exceeds_trigger (lines_in_function fs) (base_trigger fs) verbose then
        let error_level = int_log2_ratio (lines_in_function fs) (base_trigger fs);
            error_level = (if error_level > 5 then 5 else error_level)
        in [mk_error filename linenum ''readability/fn_size'' error_level
             (''Small and focused functions are preferred: '' @ current_function fs @ '' has '' @
              show_nat (lines_in_function fs) @ '' non-comment lines (error triggered by exceeding '' @
              show_nat (shown_trigger (base_trigger fs) verbose) @ '' lines).'')]
      else [])"

section \<open>Function lengths\<close>

definition re_function_decl :: re where
  "re_function_decl = rseq [Grp 1 (rseq [rword,
     Star (Grp 2 (ralt [rword, rlit ''::'', rchr (CHR ''*''), rchr (CHR ''&''), rspace]))]), rchr (CHR ''('')]"

definition re_macro_name :: re where
  "re_macro_name = rseq [rplus (Cls (\<lambda>c. ascii_upper c \<or> c \<in> set ''_'')), Eol]"

definition re_called_name :: re where
  "re_called_name = rseq [Grp 1 (Star (Grp 2 (Cls (\<lambda>c. py_word c \<or> c \<in> set '':'')))), rchr (CHR ''('')]"

definition re_parameters :: re where
  "re_parameters = Grp 1 (rseq [rchr (CHR ''(''), Star rdot, rchr (CHR '')'')])"

definition re_function_end :: re where
  "re_function_end = rseq [Bol, rchr (CHR ''}''), spaces, Eol]"

definition re_blank :: re where
  "re_blank = rseq [Bol, spaces, Eol]"

definition starting_func :: "string \<Rightarrow> bool option" where
  "starting_func line =
     (case re_match re_function_decl line of
        None \<Rightarrow> Some False
      | Some match_result \<Rightarrow> do {
          function_name \<leftarrow> py_nth (split_ws (group_text match_result 1)) (- 1);
          Some (function_name = ''TEST'' \<or> function_name = ''TEST_F'' \<or> \<not> matches re_macro_name function_name)
        })"

text \<open>
  The loop that looks for the body from the line of the declaration on: the function's name
  when a body begins, the empty option when the declaration has none, and the third outcome
  when the file ends first.
\<close>

datatype body_search = Body_Begins string | No_Body | Body_Not_Found

fun find_body :: "string \<Rightarrow> string list \<Rightarrow> nat list \<Rightarrow> string \<Rightarrow> body_search option" where
  "find_body line ls [] joined_line = Some Body_Not_Found"
| "find_body line ls (start_linenum # ns) joined_line = do {
     start_line \<leftarrow> py_nth ls (int start_linenum);
     let joined_line = joined_line @ '' '' @ lstrip start_line;
     if found (one_of '';}'') start_line then Some No_Body
     else if found (rchr (CHR ''{'')) start_line then do {
       m \<leftarrow> re_search re_called_name line;
       let function = group_text m 1;
       Some (Body_Begins
         (if starts_with function ''TEST'' then
            (case re_search re_parameters joined_line of
               None \<Rightarrow> function
             | Some parameter_regexp \<Rightarrow> function @ group_text parameter_regexp 1)
          else function @ ''()''))
     }
     else find_body line ls ns joined_line
   }"

definition CheckForFunctionLengths ::
  "int \<Rightarrow> string \<Rightarrow> cleansed_lines \<Rightarrow> nat \<Rightarrow> function_state \<Rightarrow> (diag list \<times> function_state) option" where
  "CheckForFunctionLengths verbose filename clean_lines linenum fs = do {
     line \<leftarrow> py_nth (lines clean_lines) (int linenum);
     starting \<leftarrow> starting_func line;
     if starting then do {
       body \<leftarrow> find_body line (lines clean_lines) [linenum ..< NumLines clean_lines] [];
       Some (case body of
           Body_Begins function \<Rightarrow> ([], Begin function)
         | No_Body \<Rightarrow> ([], fs)
         | Body_Not_Found \<Rightarrow> ([mk_error filename (int linenum) ''readability/fn_size'' 5
             ''Lint failed to find start of function body.''], fs))
     }
     else if matches re_function_end line then
       Some (Check verbose filename (int linenum) fs, End fs)
     else if \<not> matches re_blank line then Some ([], Count fs)
     else Some ([], fs)
   }"

section \<open>The level of a report\<close>

lemma log2_floor_spec:
  assumes "0 < b" "b \<le> a"
  shows "b * 2 ^ log2_floor a b \<le> a \<and> a < b * 2 ^ Suc (log2_floor a b)"
  using assms
proof (induction a b rule: log2_floor.induct)
  case (1 a b)
  show ?case
  proof (cases "2 * b \<le> a")
    case True
    with 1 have "2 * b * 2 ^ log2_floor a (2 * b) \<le> a \<and> a < 2 * b * 2 ^ Suc (log2_floor a (2 * b))" by simp
    moreover from True 1(2) have "log2_floor a b = Suc (log2_floor a (2 * b))"
      by (subst log2_floor.simps) simp
    ultimately show ?thesis by (simp add: mult.assoc mult.left_commute)
  qed (use 1 in \<open>subst (1 2) log2_floor.simps, simp\<close>)
qed

lemma base_trigger_pos: "0 < base_trigger fs"
  by (simp add: base_trigger_def TEST_TRIGGER_def NORMAL_TRIGGER_def)

lemma level_reaches:
  assumes "0 < b" "b * 2 ^ k < a" shows "int k \<le> int_log2_ratio a b"
proof -
  have "b \<le> b * 2 ^ k" by simp
  then have ab: "b \<le> a" using assms(2) by linarith
  from log2_floor_spec [OF assms(1) ab] assms(2) have "b * 2 ^ k < b * 2 ^ Suc (log2_floor a b)" by linarith
  then have "(2::nat) ^ k < 2 ^ Suc (log2_floor a b)" using assms(1) by (simp only: mult_less_cancel1)
  then have "k < Suc (log2_floor a b)" by (metis nat_power_less_imp_less zero_less_numeral)
  with ab show ?thesis by (simp add: int_log2_ratio_def)
qed

text \<open>C37: a long function is reported at a confidence that the verbosity level it exceeded does not
  hide: at the levels 0 to 5 the confidence lies between the level and 5.\<close>

theorem fn_size_level:
  assumes "d \<in> set (Check verbose filename linenum fs)" "0 \<le> verbose" "verbose \<le> 5"
  shows "verbose \<le> d_confidence d \<and> d_confidence d \<le> 5"
proof -
  define level where "level = int_log2_ratio (lines_in_function fs) (base_trigger fs)"
  from assms have "base_trigger fs * 2 ^ nat verbose < lines_in_function fs"
    and d: "d_confidence d = (if level > 5 then 5 else level)"
    by (auto simp: Check_def exceeds_trigger_def mk_error_def level_def Let_def split: if_splits)
  then have "verbose \<le> level"
    using level_reaches [OF base_trigger_pos, of fs "nat verbose"] assms(2) by (simp add: level_def)
  with d assms(3) show ?thesis by simp
qed

theorem fn_size_level_witness:
  "\<exists>d. d \<in> set (Check 1 ''a.cc'' 900 \<lparr>in_a_function = True, lines_in_function = 501, current_function = ''f()''\<rparr>) \<and>
     1 \<le> d_confidence d \<and> d_confidence d \<le> 5"
proof -
  let ?fs = "\<lparr>in_a_function = True, lines_in_function = 501, current_function = ''f()''\<rparr>"
  have "Check 1 ''a.cc'' 900 ?fs \<noteq> []" by code_simp
  then obtain d where "d \<in> set (Check 1 ''a.cc'' 900 ?fs)" using hd_in_set by blast
  from this fn_size_level [OF this] show ?thesis by auto
qed

section \<open>The check never raises\<close>

lemma function_decl_groups:
  assumes "re_match re_function_decl line = Some m"
  obtains x w rest where "py_word x" "group_text m 1 = x # w" "line = x # w @ CHR ''('' # rest"
proof -
  let ?star = "Star (Grp 2 (ralt [rword, rlit ''::'', rchr (CHR ''*''), rchr (CHR ''&''), rspace]))"
  from re_match_mem [OF assms] have "(m_upto m, m_rest m, m_caps m) \<in> set (rmatch re_function_decl [] line [])"
    and before: "m_before m = []" by auto
  then obtain p1 q1 c1 p2 q2 c2 where
      1: "(p1, q1, c1) \<in> set (rmatch rword [] line [])" and 2: "(p2, q2, c2) \<in> set (rmatch ?star p1 q1 c1)"
      and 3: "((p2, q2), (m_upto m, m_rest m)) \<in> re_rel (rchr (CHR ''(''))"
      and caps: "m_caps m = (1, [], p2) # c2"
    unfolding re_function_decl_def rseq_mem grp_mem rmatch_rseq_Nil by (auto simp: groupless_mem)
  from 1 obtain x where "py_word x" "line = x # q1" "p1 = [x]"
    by (auto simp: groupless_mem rword_def)
  moreover from rmatch_ahead [OF 2] obtain w where "q1 = w @ q2" "p2 = rev w @ p1" by blast
  moreover from 3 have "q2 = CHR ''('' # m_rest m" by simp
  ultimately show ?thesis
    using before caps by (intro that [of x w "m_rest m"]) (auto simp: group_text_def m_group_def)
qed

lemma split_ws_Cons: "\<not> py_space x \<Longrightarrow> split_ws (x # w) \<noteq> []"
  by (subst split_ws.simps) simp

lemma starting_func_total:
  "\<exists>b. starting_func line = Some b \<and> (b \<longrightarrow> CHR ''('' \<in> set line)"
proof (cases "re_match re_function_decl line")
  case (Some m)
  then obtain x w rest where g: "py_word x" "group_text m 1 = x # w" "line = x # w @ CHR ''('' # rest"
    by (rule function_decl_groups)
  then have "split_ws (group_text m 1) \<noteq> []" by (simp add: split_ws_Cons py_word_not_space)
  with Some g(3) show ?thesis by (auto simp: starting_func_def py_nth_def Suc_le_eq)
qed (auto simp: starting_func_def)

lemma called_name_found: "CHR ''('' \<in> set line \<Longrightarrow> \<exists>m. re_search re_called_name line = Some m"
proof -
  assume "CHR ''('' \<in> set line"
  then obtain u v where uv: "line = u @ CHR ''('' # v" by (auto simp: in_set_conv_decomp)
  have "((rev u, CHR ''('' # v), (CHR ''('' # rev u, v)) \<in> re_rel re_called_name"
    unfolding re_called_name_def rel_rseq_Cons
    by (intro relcompI [where b = "(rev u, CHR ''('' # v)"] relcompI [where b = "(CHR ''('' # rev u, v)"]) auto
  with uv have "found re_called_name line" unfolding found_rel by blast
  then show ?thesis by (auto simp: found_def)
qed

lemma find_body_total:
  assumes "CHR ''('' \<in> set line" "list_all (\<lambda>n. n < length ls) ns"
  shows "\<exists>b. find_body line ls ns joined = Some b"
  using assms(2)
proof (induction ns arbitrary: joined)
  case (Cons n ns)
  obtain m where "re_search re_called_name line = Some m" using called_name_found [OF assms(1)] by blast
  with Cons show ?case by (simp add: Let_def)
qed simp

lemma function_lengths_return:
  assumes "well_formed cl" "n < NumLines cl"
  shows "\<exists>ds fs'. CheckForFunctionLengths verbose filename cl n fs = Some (ds, fs')"
proof -
  from assms have n: "n < length (lines cl)" and len: "NumLines cl = length (lines cl)"
    by (simp_all add: well_formed_def NumLines_def)
  obtain b where b: "starting_func (lines cl ! n) = Some b" "b \<longrightarrow> CHR ''('' \<in> set (lines cl ! n)"
    using starting_func_total by blast
  have "list_all (\<lambda>i. i < length (lines cl)) [n ..< NumLines cl]" by (simp add: list_all_iff len)
  from find_body_total [OF _ this] b(2)
  have "b \<longrightarrow> (\<exists>body. find_body (lines cl ! n) (lines cl) [n ..< NumLines cl] [] = Some body)" by blast
  with n b(1) show ?thesis
    by (cases b) (auto simp: CheckForFunctionLengths_def split: body_search.split)
qed

text \<open>On every line of a file that has been cleansed the check of function lengths raises nothing,
  whatever the line and the state are.\<close>

theorem CheckForFunctionLengths_total:
  assumes "well_formed cl" "n < NumLines cl"
  shows "\<exists>ds fs'. CheckForFunctionLengths verbose filename cl n fs = Some (ds, fs')"
  using assms by (rule function_lengths_return)

definition small_file :: cleansed_lines where
  "small_file = \<lparr>elided = [''int f() {'', ''  return 1;'', ''}''], lines = [''int f() {'', ''  return 1;'', ''}''],
     raw_lines = [''int f() {'', ''  return 1;'', ''}''], num_lines = 3,
     lines_without_raw_strings = [''int f() {'', ''  return 1;'', ''}'']\<rparr>"

theorem CheckForFunctionLengths_total_witness:
  "\<exists>ds fs'. CheckForFunctionLengths 0 ''a.cc'' small_file 0 FunctionState_init = Some (ds, fs')"
  by (rule CheckForFunctionLengths_total) (simp_all add: small_file_def well_formed_def NumLines_def)

section \<open>What is counted\<close>

text \<open>A line of a body: no function begins or ends on it.\<close>

definition body_line :: "string \<Rightarrow> bool" where
  "body_line line = (starting_func line = Some False \<and> \<not> matches re_function_end line)"

fun check_lines :: "int \<Rightarrow> string \<Rightarrow> cleansed_lines \<Rightarrow> nat list \<Rightarrow> function_state \<Rightarrow> (diag list \<times> function_state) option" where
  "check_lines verbose filename cl [] fs = Some ([], fs)"
| "check_lines verbose filename cl (n # ns) fs = do {
     (ds, fs) \<leftarrow> CheckForFunctionLengths verbose filename cl n fs;
     (ds', fs) \<leftarrow> check_lines verbose filename cl ns fs;
     Some (ds @ ds', fs)
   }"

text \<open>Within a function the check counts exactly the lines that are not blank, and reports nothing
  before the function ends.\<close>

theorem body_lines_counted:
  assumes "list_all (\<lambda>n. n < length (lines cl) \<and> body_line (lines cl ! n)) ns" "in_a_function fs"
  shows "check_lines verbose filename cl ns fs =
    Some ([], fs\<lparr>lines_in_function := lines_in_function fs +
      length (filter (\<lambda>n. \<not> matches re_blank (lines cl ! n)) ns)\<rparr>)"
  using assms
proof (induction ns arbitrary: fs)
  case (Cons n ns)
  then show ?case
    by (cases "matches re_blank (lines cl ! n)")
       (auto simp: CheckForFunctionLengths_def body_line_def Count_def)
qed simp

theorem body_lines_counted_witness:
  "check_lines 0 ''a.cc'' small_file [1, 1] (Begin ''f()'') =
     Some ([], (Begin ''f()'')\<lparr>lines_in_function := 2\<rparr>)"
proof -
  have "list_all (\<lambda>n. n < length (lines small_file) \<and> body_line (lines small_file ! n)) [1, 1]"
    "length (filter (\<lambda>n. \<not> matches re_blank (lines small_file ! n)) [1, 1]) = 2" by code_simp+
  moreover have "in_a_function (Begin ''f()'')" "lines_in_function (Begin ''f()'') = 0" by (simp_all add: Begin_def)
  ultimately show ?thesis using body_lines_counted [of small_file "[1, 1]" "Begin ''f()''"] by simp
qed

end
