(* ===== verification/CheckKit.thy ===== *)
theory CheckKit
  imports Nesting FunctionState LintState
begin

text \<open>
  What the checks of \<open>cpplint.py\<close> share: slices of strings, the texts that the groups of a match
  hold, and the contract of a check. A check of one line yields the errors it reports; \<open>None\<close> is an
  exception. It is sound when it raises nothing on a cleansed file and every error names the file, a
  line of the file, a category of the module's list, and a confidence from 0 to 5.
\<close>

section \<open>Slices\<close>

text \<open>\<open>s[i:]\<close>, \<open>s[:j]\<close> and \<open>s[i:j]\<close>: a negative bound counts from the end, and bounds are clamped.\<close>

definition slice_pos :: "nat \<Rightarrow> int \<Rightarrow> nat" where
  "slice_pos n i = (if i < 0 then nat (int n + i) else min n (nat i))"

definition py_from :: "'a list \<Rightarrow> int \<Rightarrow> 'a list" where
  "py_from s i = drop (slice_pos (length s) i) s"

definition py_upto :: "'a list \<Rightarrow> int \<Rightarrow> 'a list" where
  "py_upto s j = take (slice_pos (length s) j) s"

definition py_slice :: "'a list \<Rightarrow> int \<Rightarrow> int \<Rightarrow> 'a list" where
  "py_slice s i j = drop (slice_pos (length s) i) (py_upto s j)"

text \<open>\<open>s.find(sub)\<close>, \<open>s.find(sub, i)\<close> and \<open>s.rfind(c)\<close> as numbers: \<open>-1\<close> when there is none.\<close>

definition py_find :: "string \<Rightarrow> string \<Rightarrow> int" where
  "py_find s sub = (case find_sub s sub of None \<Rightarrow> -1 | Some i \<Rightarrow> int i)"

definition py_find_from :: "string \<Rightarrow> string \<Rightarrow> int \<Rightarrow> int" where
  "py_find_from s sub i = (case find_from s sub (slice_pos (length s) i) of None \<Rightarrow> -1 | Some k \<Rightarrow> int k)"

definition py_rfind :: "string \<Rightarrow> char \<Rightarrow> int" where
  "py_rfind s c = int (rfind1 c s) - 1"

lemma py_from_nat [simp]: "py_from s (int n) = drop n s"
  by (simp add: py_from_def slice_pos_def min_def)

lemma py_from_0 [simp]: "py_from s 0 = s"
  using py_from_nat [of s 0] by simp

lemma py_upto_nat [simp]: "py_upto s (int n) = take n s"
  by (simp add: py_upto_def slice_pos_def min_def)

lemma length_py_from: "length (py_from s i) \<le> length s"
  by (simp add: py_from_def)

lemma rfind1_length: "rfind1 c s \<le> length s"
  unfolding rfind1_def by (metis length_dropWhile_le length_rev)

lemma rfind1_pos: "c \<in> set s \<Longrightarrow> 0 < rfind1 c s \<and> s ! (rfind1 c s - 1) = c"
proof -
  assume "c \<in> set s"
  then obtain u v where "s = u @ c # v" "c \<notin> set v" by (meson split_list_last)
  then have "dropWhile (\<lambda>x. x \<noteq> c) (rev s) = c # rev u" by (simp, subst dropWhile_append2) auto
  with \<open>s = u @ c # v\<close> show ?thesis by (simp add: rfind1_def)
qed

lemma rfind1_absent: "c \<notin> set s \<longleftrightarrow> rfind1 c s = 0"
  using rfind1_pos [of c s] by (auto simp: rfind1_def)

section \<open>Groups of a match\<close>

primrec group_nums :: "re \<Rightarrow> nat set" where
  "group_nums Eps = {}"
| "group_nums (Cls f) = {}"
| "group_nums (Seq r s) = group_nums r \<union> group_nums s"
| "group_nums (Alt r s) = group_nums r \<union> group_nums s"
| "group_nums (Star r) = group_nums r"
| "group_nums (Lazy r) = group_nums r"
| "group_nums (Grp n r) = insert n (group_nums r)"
| "group_nums Bol = {}"
| "group_nums Eol = {}"
| "group_nums WordB = {}"
| "group_nums (LookA r) = group_nums r"
| "group_nums (NegA r) = {}"

lemma group_nums_rseq [simp]: "group_nums (rseq rs) = (\<Union>r \<in> set rs. group_nums r)"
  by (induction rs rule: rseq.induct) auto

lemma group_nums_ralt [simp]: "group_nums (ralt rs) = (\<Union>r \<in> set rs. group_nums r)"
  by (induction rs rule: ralt.induct) auto

lemma group_nums_basic [simp]:
  "group_nums (rchr x) = {}" "group_nums (rlit s) = {}" "group_nums (one_of cs) = {}" "group_nums (none_of cs) = {}"
  "group_nums rdot = {}" "group_nums rspace = {}" "group_nums rnonspace = {}" "group_nums rword = {}"
  "group_nums rnonword = {}" "group_nums rdigit = {}" "group_nums spaces = {}" "group_nums spaces1 = {}"
  "group_nums (ropt r) = group_nums r" "group_nums (rplus r) = group_nums r" "group_nums (rplus_lazy r) = group_nums r"
  by (auto simp: rchr_def rlit_def one_of_def none_of_def rdot_def rspace_def rnonspace_def rword_def
    rnonword_def rdigit_def spaces_def spaces1_def ropt_def rplus_def rplus_lazy_def)

text \<open>A match only adds captures, and only of the groups of its pattern.\<close>

definition adds_caps :: "re \<Rightarrow> caps \<Rightarrow> caps \<Rightarrow> bool" where
  "adds_caps r c c' \<longleftrightarrow> (\<exists>d. c' = d @ c \<and> fst ` set d \<subseteq> group_nums r)"

lemma adds_caps_refl [simp]: "adds_caps r c c"
  by (simp add: adds_caps_def)

lemma adds_caps_trans:
  assumes "adds_caps r c c1" "adds_caps s c1 c2" "group_nums r \<union> group_nums s \<subseteq> group_nums t"
  shows "adds_caps t c c2"
proof -
  from assms(1,2) obtain d e where "c1 = d @ c" "fst ` set d \<subseteq> group_nums r" "c2 = e @ c1" "fst ` set e \<subseteq> group_nums s"
    by (auto simp: adds_caps_def)
  with assms(3) show ?thesis by (auto simp: adds_caps_def intro!: exI [of _ "e @ d"])
qed

lemma star_adds_caps:
  assumes "\<And>p q c p' q' c'. (p', q', c') \<in> set (rmatch r p q c) \<Longrightarrow> adds_caps r c c'"
  shows "(p', q', c') \<in> set (rmatch (Star r) p q c) \<Longrightarrow> adds_caps r c c'"
proof (induction "length q" arbitrary: p q c rule: less_induct)
  case less
  from less.prems consider "c' = c" | "(p', q', c') \<in> set (rmatch r p q c)"
    | p1 q1 c1 where "(p1, q1, c1) \<in> set (rmatch r p q c)" "length q1 < length q"
        "(p', q', c') \<in> set (rmatch (Star r) p1 q1 c1)"
    unfolding star_mem [of _ r p q c] by (auto split: if_splits)
  then show ?case
  proof cases
    case 3
    from assms [OF 3(1)] less.hyps [OF 3(2,3)] show ?thesis by (rule adds_caps_trans) simp
  qed (auto dest: assms)
qed

lemma rmatch_adds_caps: "(p', q', c') \<in> set (rmatch r p q c) \<Longrightarrow> adds_caps r c c'"
proof (induction r arbitrary: p q c p' q' c')
  case (Cls f)
  then show ?case by (auto split: list.splits if_splits)
next
  case (Seq r s)
  then obtain p1 q1 c1 where "adds_caps r c c1" "adds_caps s c1 c'" unfolding seq_mem by blast
  then show ?case by (rule adds_caps_trans) simp
next
  case (Alt r s)
  then have "adds_caps r c c' \<or> adds_caps s c c'" by auto
  then show ?case by (auto simp: adds_caps_def)
next
  case (Star r)
  from Star.prems have "adds_caps r c c'" by - (rule star_adds_caps [rotated], assumption, rule Star.IH)
  then show ?case by (simp add: adds_caps_def)
next
  case (Lazy r)
  then have "(p', q', c') \<in> set (rmatch (Star r) p q c)" using star_members by blast
  then have "adds_caps r c c'" by (rule star_adds_caps [rotated]) (rule Lazy.IH)
  then show ?case by (simp add: adds_caps_def)
next
  case (Grp n r)
  then obtain c1 where "adds_caps r c c1" "c' = (n, p, p') # c1" unfolding grp_mem by blast
  then show ?case by (fastforce simp: adds_caps_def)
next
  case (LookA r)
  then obtain p1 q1 ts where "rmatch r p q c = (p1, q1, c') # ts" by (cases "rmatch r p q c") auto
  then have "(p1, q1, c') \<in> set (rmatch r p q c)" by simp
  from LookA.IH [OF this] show ?case by (simp add: adds_caps_def)
qed (auto split: if_splits)

text \<open>
  A pattern that starts with a group and a character: the group holds the text before that
  character, which is the way in which the checks find the column of a bracket.
\<close>

lemma re_match_group1:
  assumes "re_match (rseq (Bol # Grp 1 r # rchr x # rs)) s = Some m" "groupless r" "1 \<notin> (\<Union>r \<in> set rs. group_nums r)"
  shows "\<exists>v. s = group_text m 1 @ x # v \<and> (([], s), (rev (group_text m 1), x # v)) \<in> re_rel r"
proof -
  from re_match_mem [OF assms(1)] have m: "m_before m = []"
      "(m_upto m, m_rest m, m_caps m) \<in> set (rmatch (rseq (Bol # Grp 1 r # rchr x # rs)) [] s [])" by auto
  from m(2) obtain p1 v where 1: "(([], s), (p1, x # v)) \<in> re_rel r"
      and rest: "(m_upto m, m_rest m, m_caps m) \<in> set (rmatch (rseq rs) (x # p1) v [(1, [], p1)])"
    by (auto simp: rseq_mem [of _ Bol] rseq_mem [of _ "Grp 1 r"] rseq_mem [of _ "rchr x"] grp_mem
      groupless_mem [OF assms(2)] groupless_mem [of "rchr x"])
  from rmatch_adds_caps [OF rest] obtain d where d: "m_caps m = d @ [(1, [], p1)]" "fst ` set d \<subseteq> (\<Union>r \<in> set rs. group_nums r)"
    by (auto simp: adds_caps_def)
  with assms(3) have "map_of d 1 = None" by (auto simp: map_of_eq_None_iff)
  with d(1) m(1) have "group_text m 1 = rev p1" by (simp add: group_text_def m_group_def map_add_def)
  moreover from re_relD [OF 1] have "s = rev p1 @ x # v" by auto
  ultimately show ?thesis using 1 by auto
qed

lemma re_match_groups3:
  assumes "re_match (rseq [Bol, Grp 1 a, Grp 2 b, Grp 3 c, Eol]) s = Some m" "groupless a" "groupless b" "groupless c"
  obtains u v w rest where "s = u @ v @ w @ rest" "group_text m 1 = u" "group_text m 2 = v" "group_text m 3 = w"
    "(([], s), (rev u, v @ w @ rest)) \<in> re_rel a" "((rev u, v @ w @ rest), (rev v @ rev u, w @ rest)) \<in> re_rel b"
    "((rev v @ rev u, w @ rest), (rev w @ rev v @ rev u, rest)) \<in> re_rel c"
proof -
  from re_match_mem [OF assms(1)] have m: "m_before m = []"
      "(m_upto m, m_rest m, m_caps m) \<in> set (rmatch (rseq [Bol, Grp 1 a, Grp 2 b, Grp 3 c, Eol]) [] s [])" by auto
  from m(2) obtain p1 q1 p2 q2 p3 q3 where r: "(([], s), (p1, q1)) \<in> re_rel a" "((p1, q1), (p2, q2)) \<in> re_rel b"
      "((p2, q2), (p3, q3)) \<in> re_rel c" "m_caps m = [(3, p2, p3), (2, p1, p2), (1, [], p1)]"
    unfolding rseq_mem rmatch_rseq_Nil
    by (auto simp: grp_mem groupless_mem [OF assms(2)] groupless_mem [OF assms(3)] groupless_mem [OF assms(4)] split: if_splits)
  from re_relD [OF r(1)] obtain u where u: "s = u @ q1" "p1 = rev u" by auto
  from re_relD [OF r(2)] obtain v where v: "q1 = v @ q2" "p2 = rev v @ p1" by auto
  from re_relD [OF r(3)] obtain w where w: "q2 = w @ q3" "p3 = rev w @ p2" by auto
  from that [of u v w q3] r u v w m(1) show ?thesis by (simp add: group_text_def m_group_def)
qed

lemma re_search_rel:
  assumes "re_search r s = Some m"
  shows "\<exists>q. s = rev (m_before m) @ q \<and> ((m_before m, q), (m_upto m, m_rest m)) \<in> re_rel r"
  using assms by (auto simp: re_search_def elim!: search_from_Some first_match_Some)

text \<open>The last character of a match, for a pattern that ends in a character.\<close>

lemma re_rel_rseq_append: "re_rel (rseq (rs @ ts)) = re_rel (rseq rs) O re_rel (rseq ts)"
  by (induction rs) (auto simp: O_assoc)

lemma re_search_last:
  assumes "re_search (rseq (rs @ [rchr x])) s = Some m"
  shows "\<exists>k. m_end m = Suc k \<and> k < length s \<and> s ! k = x"
proof -
  obtain q where q: "s = rev (m_before m) @ q" "((m_before m, q), (m_upto m, m_rest m)) \<in> re_rel (rseq (rs @ [rchr x]))"
    using re_search_rel [OF assms] by blast
  then obtain p1 q1 where 1: "((m_before m, q), (p1, q1)) \<in> re_rel (rseq rs)"
      and 2: "((p1, q1), (m_upto m, m_rest m)) \<in> re_rel (rchr x)"
    by (auto simp: re_rel_rseq_append)
  from re_relD [OF 1] obtain w where "q = w @ q1" "p1 = rev w @ m_before m" by blast
  with q(1) 2 have "s = rev p1 @ x # m_rest m" "m_upto m = x # p1" by auto
  moreover have "(rev p1 @ x # m_rest m) ! length p1 = x" by (metis length_rev nth_append_length)
  ultimately show ?thesis by (simp add: m_end_def)
qed

lemma re_match_rel:
  assumes "re_match r s = Some m"
  shows "(([], s), (m_upto m, m_rest m)) \<in> re_rel r"
  using assms by (auto simp: re_match_def elim!: first_match_Some)

text \<open>A character of a pattern occurs in the text.\<close>

lemma rel_char_mem: "((p, q), y) \<in> re_rel (rseq (rs @ rchr x # ts)) \<Longrightarrow> x \<in> set q"
proof -
  assume "((p, q), y) \<in> re_rel (rseq (rs @ rchr x # ts))"
  then obtain p1 q1 p2 where 1: "((p, q), (p1, q1)) \<in> re_rel (rseq rs)" and "((p1, q1), p2) \<in> re_rel (rchr x)"
    by (auto simp: re_rel_rseq_append)
  then have "x \<in> set q1" by (cases p2) (auto simp: rchr_def)
  with re_relD [OF 1] show ?thesis by auto
qed

lemma re_match_char: "re_match (rseq (rs @ rchr x # ts)) s = Some m \<Longrightarrow> x \<in> set s"
  by (drule re_match_rel) (rule rel_char_mem)

lemma re_search_char: "re_search (rseq (rs @ rchr x # ts)) s = Some m \<Longrightarrow> x \<in> set s"
  by (drule re_search_rel) (auto dest: rel_char_mem)

lemma rseq_append_mem:
  "x \<in> set (rmatch (rseq (rs @ ts)) p q c) \<longleftrightarrow>
     (\<exists>p1 q1 c1. (p1, q1, c1) \<in> set (rmatch (rseq rs) p q c) \<and> x \<in> set (rmatch (rseq ts) p1 q1 c1))"
proof (induction rs arbitrary: p q c)
  case (Cons r rs)
  show ?case by (simp only: append_Cons rseq_mem Cons.IH) blast
qed (simp add: rmatch_rseq_Nil)

lemma group_rel:
  assumes "(m_upto m, m_rest m, m_caps m) \<in> set (rmatch (rseq (pre @ Grp n b # post)) (m_before m) q [])"
    "list_all groupless pre" "groupless b" "n \<noteq> 0" "n \<notin> (\<Union>r \<in> set post. group_nums r)"
  shows "\<exists>u w v. q = u @ w @ v \<and> m_group m n = Some w \<and>
    ((m_before m, q), (rev u @ m_before m, w @ v)) \<in> re_rel (rseq pre) \<and>
    ((rev u @ m_before m, w @ v), (rev w @ rev u @ m_before m, v)) \<in> re_rel b"
proof -
  from assms(1-3) obtain p1 q1 p2 q2 where 1: "((m_before m, q), (p1, q1)) \<in> re_rel (rseq pre)"
      "((p1, q1), (p2, q2)) \<in> re_rel b"
      "(m_upto m, m_rest m, m_caps m) \<in> set (rmatch (rseq post) p2 q2 [(n, p1, p2)])"
    by (auto simp: rseq_append_mem rseq_mem [of _ "Grp n b"] grp_mem groupless_mem)
  from re_relD [OF 1(1)] obtain u where u: "q = u @ q1" "p1 = rev u @ m_before m" by auto
  from re_relD [OF 1(2)] obtain w where w: "q1 = w @ q2" "p2 = rev w @ p1" by auto
  from rmatch_adds_caps [OF 1(3)] obtain d where d: "m_caps m = d @ [(n, p1, p2)]"
      "fst ` set d \<subseteq> (\<Union>r \<in> set post. group_nums r)" by (auto simp: adds_caps_def)
  with assms(5) have "map_of d n = None" by (auto simp: map_of_eq_None_iff)
  with d(1) w(2) assms(4) have "m_group m n = Some w" by (simp add: m_group_def map_add_def)
  with u w 1(1,2) show ?thesis by auto
qed

text \<open>A pattern that ends in two groups: what they hold is what is left of the text.\<close>

lemma re_match_groups2:
  assumes "re_match (rseq (pre @ [Grp 1 b, Grp 2 c, Eol])) s = Some m" "list_all groupless pre" "groupless b" "groupless c"
  obtains u v w rest where "s = u @ v @ w @ rest" "group_text m 1 = v" "group_text m 2 = w" "rest = [] \<or> rest = [LF]"
    "(([], s), (rev u, v @ w @ rest)) \<in> re_rel (rseq pre)" "((rev u, v @ w @ rest), (rev v @ rev u, w @ rest)) \<in> re_rel b"
    "((rev v @ rev u, w @ rest), (rev w @ rev v @ rev u, rest)) \<in> re_rel c"
proof -
  from re_match_mem [OF assms(1)] have m: "m_before m = []"
      "(m_upto m, m_rest m, m_caps m) \<in> set (rmatch (rseq (pre @ [Grp 1 b, Grp 2 c, Eol])) [] s [])" by auto
  from m(2) obtain p1 q1 p2 q2 p3 q3 where r: "(([], s), (p1, q1)) \<in> re_rel (rseq pre)" "((p1, q1), (p2, q2)) \<in> re_rel b"
      "((p2, q2), (p3, q3)) \<in> re_rel c" "m_caps m = [(2, p2, p3), (1, p1, p2)]" "q3 = [] \<or> q3 = [LF]"
    unfolding rseq_append_mem rseq_mem rmatch_rseq_Nil
    by (auto simp: grp_mem groupless_mem [of "rseq pre"] assms(2) groupless_mem [OF assms(3)] groupless_mem [OF assms(4)]
      split: if_splits)
  from re_relD [OF r(1)] obtain u where u: "s = u @ q1" "p1 = rev u" by auto
  from re_relD [OF r(2)] obtain v where v: "q1 = v @ q2" "p2 = rev v @ p1" by auto
  from re_relD [OF r(3)] obtain w where w: "q2 = w @ q3" "p3 = rev w @ p2" by auto
  from that [of u v w q3] r u v w m(1) show ?thesis by (simp add: group_text_def m_group_def)
qed

section \<open>\<open>re.finditer\<close>\<close>

text \<open>The matches that \<open>re.finditer\<close> yields, in the order of the text.\<close>

function finditer_from :: "bool \<Rightarrow> re \<Rightarrow> string \<Rightarrow> string \<Rightarrow> match_obj list" where
  "finditer_from moved r p q =
     (case sub_match moved r p q of
        Some m \<Rightarrow> if length (m_rest m) < length q then m # finditer_from True r (m_upto m) (m_rest m)
                  else if moved then m # finditer_from False r p q
                  else []
      | None \<Rightarrow> (case q of [] \<Rightarrow> [] | x # q' \<Rightarrow> finditer_from True r (x # p) q'))"
  by pat_completeness auto
termination
  by (relation "measures [\<lambda>(moved, r, p, q). length q, \<lambda>(moved, r, p, q). of_bool moved]") auto

declare finditer_from.simps [simp del]

definition re_finditer :: "re \<Rightarrow> string \<Rightarrow> match_obj list" where
  "re_finditer r s = finditer_from True r [] s"

lemma sub_match_mem: "sub_match moved r p q = Some m \<Longrightarrow>
    m_before m = p \<and> (m_upto m, m_rest m, m_caps m) \<in> set (rmatch r p q [])"
  by (cases moved) (auto simp: sub_match_def dest: filter_eq_ConsD split: list.splits
    dest!: arg_cong [where f = set])

lemma finditer_from_mem:
  "m \<in> set (finditer_from moved r p q) \<Longrightarrow> \<exists>q. (m_upto m, m_rest m, m_caps m) \<in> set (rmatch r (m_before m) q [])"
proof (induction moved r p q rule: finditer_from.induct)
  case (1 moved r p q)
  from 1(4) show ?case
    by (subst (asm) finditer_from.simps) (use 1(1-3) sub_match_mem in \<open>force split: option.splits if_splits list.splits\<close>)
qed

lemma re_finditer_mem:
  "m \<in> set (re_finditer r s) \<Longrightarrow> \<exists>q. (m_upto m, m_rest m, m_caps m) \<in> set (rmatch r (m_before m) q [])"
  by (simp add: re_finditer_def finditer_from_mem)


section \<open>Lines\<close>

lemma cl_lines:
  assumes "well_formed cl" "n < NumLines cl"
  shows "py_nth (elided cl) (int n) = Some (elided cl ! n)" "py_nth (lines cl) (int n) = Some (lines cl ! n)"
    "py_nth (raw_lines cl) (int n) = Some (raw_lines cl ! n)"
    "py_nth (lines_without_raw_strings cl) (int n) = Some (lines_without_raw_strings cl ! n)"
  using assms by (simp_all add: well_formed_def NumLines_def)

lemma cl_lengths:
  assumes "well_formed cl"
  shows "length (elided cl) = NumLines cl" "length (lines cl) = NumLines cl" "length (raw_lines cl) = NumLines cl"
    "length (lines_without_raw_strings cl) = NumLines cl"
  using assms by (simp_all add: well_formed_def NumLines_def)

text \<open>\<open>xs[linenum - 1]\<close> is the last line when the line number is 0.\<close>

lemma py_nth_pred: "n < length xs \<Longrightarrow> py_nth xs (int n - 1) = Some (if n = 0 then last xs else xs ! (n - 1))"
  by (cases n; cases xs) (auto simp: py_nth_def last_conv_nth nat_diff_distrib Suc_nat_eq_nat_zadd1)

lemma py_nth_Some: "- int (length xs) \<le> i \<Longrightarrow> i < int (length xs) \<Longrightarrow> \<exists>x. py_nth xs i = Some x"
  by (auto simp: py_nth_def)

section \<open>The contract of a check\<close>

definition file_diag :: "string \<Rightarrow> cleansed_lines \<Rightarrow> diag \<Rightarrow> bool" where
  "file_diag filename cl d \<longleftrightarrow> d_filename d = filename \<and>
     (\<exists>l. d_linenum d = Some l \<and> -1 \<le> l \<and> l < int (NumLines cl)) \<and>
     d_category d \<in> set ERROR_CATEGORIES \<and> 0 \<le> d_confidence d \<and> d_confidence d \<le> 5"

definition sound :: "string \<Rightarrow> cleansed_lines \<Rightarrow> diag list option \<Rightarrow> bool" where
  "sound filename cl r \<longleftrightarrow> (\<exists>ds. r = Some ds \<and> list_all (file_diag filename cl) ds)"

definition report_if :: "bool \<Rightarrow> diag \<Rightarrow> diag list" where
  "report_if b d = (if b then [d] else [])"

lemma list_all_report_if [simp]: "list_all P (report_if b d) \<longleftrightarrow> (b \<longrightarrow> P d)"
  by (simp add: report_if_def)

lemma report_if_True [simp]: "report_if True d = [d]" and report_if_False [simp]: "report_if False d = []"
  by (simp_all add: report_if_def)

lemma file_diag_mk [simp]:
  "file_diag filename cl (mk_error f l category confidence message) \<longleftrightarrow> f = filename \<and> -1 \<le> l \<and> l < int (NumLines cl) \<and>
     category \<in> set ERROR_CATEGORIES \<and> 0 \<le> confidence \<and> confidence \<le> 5"
  by (auto simp: file_diag_def mk_error_def)

lemma sound_Some [simp]: "sound filename cl (Some ds) \<longleftrightarrow> list_all (file_diag filename cl) ds"
  by (simp add: sound_def)

lemma sound_None [simp]: "\<not> sound filename cl None"
  by (simp add: sound_def)

lemma soundE:
  assumes "sound filename cl r" obtains ds where "r = Some ds" "list_all (file_diag filename cl) ds"
  using assms by (auto simp: sound_def)

lemma sound_bind: "sound filename cl r \<Longrightarrow> (\<And>ds. list_all (file_diag filename cl) ds \<Longrightarrow> sound filename cl (f ds)) \<Longrightarrow>
    sound filename cl (r \<bind> f)"
  by (auto simp: sound_def)

lemma sound_lookup: "\<exists>x. r = Some x \<Longrightarrow> (\<And>x. r = Some x \<Longrightarrow> sound filename cl (f x)) \<Longrightarrow> sound filename cl (r \<bind> f)"
  by auto

text \<open>Two checks in a row, and a run of checks.\<close>

definition and_then :: "diag list option \<Rightarrow> diag list option \<Rightarrow> diag list option" where
  "and_then a b = do { ds \<leftarrow> a; ds' \<leftarrow> b; Some (ds @ ds') }"

fun run_all :: "diag list option list \<Rightarrow> diag list option" where
  "run_all [] = Some []"
| "run_all (r # rs) = and_then r (run_all rs)"

lemma sound_and_then: "sound filename cl a \<Longrightarrow> sound filename cl b \<Longrightarrow> sound filename cl (and_then a b)"
  by (auto simp: sound_def and_then_def)

lemma sound_run_all: "list_all (sound filename cl) rs \<Longrightarrow> sound filename cl (run_all rs)"
  by (induction rs) (auto intro: sound_and_then)

lemma sound_if: "(b \<Longrightarrow> sound filename cl x) \<Longrightarrow> (\<not> b \<Longrightarrow> sound filename cl y) \<Longrightarrow> sound filename cl (if b then x else y)"
  by simp

text \<open>The categories the checks report in.\<close>

lemma category_all: "cs = ERROR_CATEGORIES \<Longrightarrow> list_all (\<lambda>c. c \<in> set ERROR_CATEGORIES) cs"
  by (simp add: list_all_iff)

lemmas category [simp] = category_all [OF ERROR_CATEGORIES_def [symmetric], unfolded list.pred_inject simp_thms]

text \<open>
  The interface of a check of one line. The precondition says what the check relies on beyond the
  cleansed lines: for the checks that walk the nesting stack, that its blocks begin in the file.
\<close>

locale file_check =
  fixes pre :: "cleansed_lines \<Rightarrow> nat \<Rightarrow> bool" and check :: "string \<Rightarrow> cleansed_lines \<Rightarrow> nat \<Rightarrow> diag list option"
  assumes check_sound: "well_formed cl \<Longrightarrow> n < NumLines cl \<Longrightarrow> pre cl n \<Longrightarrow> sound filename cl (check filename cl n)"
begin

lemma returns:
  assumes "well_formed cl" "n < NumLines cl" "pre cl n"
  obtains ds where "check filename cl n = Some ds" "list_all (file_diag filename cl) ds"
  using check_sound [OF assms, of filename] by (auto simp: sound_def)

end

end
