(* ===== verification/NestingLines.thy ===== *)
theory NestingLines
  imports CheckKit
begin

text \<open>
  The lines on which the blocks of the nesting stack begin, the invariant that the checks of the
  braces and of the sections of a class rest on; and the errors of the update of the stack and of the
  check of function lengths.
\<close>

section \<open>The lines of the blocks\<close>

text \<open>From the top down the blocks begin on earlier lines, none after line \<open>n\<close>.\<close>

definition lines_down :: "nat \<Rightarrow> block list \<Rightarrow> bool" where
  "lines_down n bs \<longleftrightarrow> sorted_wrt (\<ge>) (map starting_linenum bs) \<and> list_all (\<lambda>b. starting_linenum b \<le> n) bs"

definition nesting_lines :: "nat \<Rightarrow> nesting_state \<Rightarrow> bool" where
  "nesting_lines n ns \<longleftrightarrow> lines_down n (stack ns) \<and>
     list_all (\<lambda>pp. lines_down n (stack_before_if pp) \<and> lines_down n (stack_before_else pp)) (pp_stack ns)"

lemma lines_down_Nil [simp]: "lines_down n []"
  by (simp add: lines_down_def)

lemma lines_down_Cons: "lines_down n (b # bs) \<longleftrightarrow>
    starting_linenum b \<le> n \<and> list_all (\<lambda>c. starting_linenum c \<le> starting_linenum b) bs \<and> lines_down n bs"
  by (auto simp: lines_down_def list_all_iff)

lemma lines_down_mono: "lines_down n bs \<Longrightarrow> n \<le> k \<Longrightarrow> lines_down k bs"
  by (auto simp: lines_down_def list_all_iff)

lemma deepcopy_starts [simp]: "map starting_linenum (deepcopy oid bs) = map starting_linenum bs"
  by (induction bs arbitrary: oid) auto

lemma lines_down_map: "lines_down n bs \<longleftrightarrow> sorted_wrt (\<ge>) (map starting_linenum bs) \<and> (\<forall>l \<in> set (map starting_linenum bs). l \<le> n)"
  by (auto simp: lines_down_def list_all_iff)

lemma lines_down_deepcopy [simp]: "lines_down n (deepcopy oid bs) = lines_down n bs"
  by (simp only: lines_down_map deepcopy_starts)

lemma nesting_lines_init: "nesting_lines n NestingState_init"
  by (simp add: nesting_lines_def NestingState_init_def)

lemma nesting_lines_mono: "nesting_lines n ns \<Longrightarrow> n \<le> k \<Longrightarrow> nesting_lines k ns"
  by (auto simp: nesting_lines_def list_all_iff intro: lines_down_mono)

lemma nesting_lines_push: "nesting_lines n ns \<Longrightarrow> starting_linenum b = n \<Longrightarrow> nesting_lines n (push_block b ns)"
  by (auto simp: nesting_lines_def push_block_def lines_down_Cons) (simp add: lines_down_def)

lemma nesting_lines_update_top:
  "(\<And>b. starting_linenum (f b) = starting_linenum b) \<Longrightarrow> nesting_lines n (update_top f ns) = nesting_lines n ns"
  by (cases "stack ns") (simp_all add: nesting_lines_def update_top_def lines_down_Cons)

lemma nesting_lines_pop: "nesting_lines n ns \<Longrightarrow> nesting_lines n (pop_stack ns)"
  by (cases "stack ns") (simp_all add: nesting_lines_def pop_stack_def lines_down_Cons)

lemma nesting_lines_preprocessor: "nesting_lines n ns \<Longrightarrow> nesting_lines n (UpdatePreprocessor line ns)"
  by (cases "pp_stack ns")
    (auto simp: UpdatePreprocessor_def pp_if_def pp_else_def pp_endif_def remember_else_def nesting_lines_def)

lemma count_parentheses_start: "starting_linenum (count_parentheses line b) = starting_linenum b"
  by (simp add: count_parentheses_def Let_def)

lemma CheckBegin_start: "starting_linenum (CheckBegin line b) = starting_linenum b"
  by (simp add: CheckBegin_def split: block_kind.split)

lemma block_start_simps [simp]:
  "starting_linenum (BlockInfo oid n s) = n" "starting_linenum (NamespaceInfo oid name n) = n" "starting_linenum (ExternCInfo oid n) = n"
  by (simp_all add: BlockInfo_def NamespaceInfo_def ExternCInfo_def)

lemma nesting_lines_namespaces: "nesting_lines n ns \<Longrightarrow> nesting_lines n (snd (consume_namespaces n line ns))"
proof (induction n line ns rule: consume_namespaces.induct)
  case (1 linenum line ns)
  show ?case
  proof (cases "re_match re_namespace_decl line")
    case None
    with "1.prems" show ?thesis by (subst consume_namespaces.simps) simp
  next
    case (Some m)
    show ?thesis
    proof (cases "find_sub (group_text m 2) ''{''")
      case None
      from "1.IH" (1) [OF Some refl refl None] "1.prems" Some None show ?thesis
        by (subst consume_namespaces.simps) (simp add: Let_def nesting_lines_push del: find_sub_char_None)
    next
      case s: (Some i)
      from "1.IH" (2) [OF Some refl refl s] "1.prems" Some s show ?thesis
        by (subst consume_namespaces.simps) (simp add: Let_def nesting_lines_push)
    qed
  qed
qed

lemma nesting_lines_class:
  "consume_class cl n line ns = Some (rest, ns') \<Longrightarrow> nesting_lines n ns \<Longrightarrow> nesting_lines n ns'"
  by (auto simp: consume_class_def ClassInfo_def bind_eq_Some_conv nesting_lines_push split: option.splits if_splits)

lemma nesting_lines_access: "nesting_lines n ns \<Longrightarrow> nesting_lines n (snd (update_access filename n line ns))"
  by (auto simp: update_access_def nesting_lines_update_top split: list.split block_kind.split option.split)

lemma nesting_lines_token:
  "consume_token filename cl n token line ns = Some (ds, ns') \<Longrightarrow> nesting_lines n ns \<Longrightarrow> nesting_lines n ns'"
  by (auto simp: consume_token_def open_brace_def close_brace_def nesting_lines_push nesting_lines_pop nesting_lines_update_top
    Let_def bind_eq_Some_conv split: if_splits list.splits)

section \<open>The errors of an update\<close>

lemma check_disallow_diags:
  "check_disallow filename name ls is seen = Some ds \<Longrightarrow> list_all (\<lambda>i. i < NumLines cl) is \<Longrightarrow> list_all (file_diag filename cl) ds"
  by (induction "is" arbitrary: seen) (auto simp: bind_eq_Some_conv split: option.splits if_splits)

lemma CheckEnd_diags:
  assumes "CheckEnd filename cl n b = Some ds" "n < NumLines cl"
  shows "list_all (file_diag filename cl) ds"
proof (cases "b_kind b")
  case (Class c)
  with assms(1) obtain ds1 line where
      1: "check_disallow filename (cls_name c) (elided cl) (rev [starting_linenum b + 1 ..< n]) False = Some ds1"
      and ds: "ds = ds1 @ (case re_match re_closing_indent line of
         Some indent \<Rightarrow> if length (group_text indent 1) \<noteq> class_indent c then
             [mk_error filename (int n) ''whitespace/indent'' 3
               (''Closing brace should be aligned with beginning of '' @ class_parent c)] else []
       | None \<Rightarrow> [])"
    by (auto simp: CheckEnd_def check_end_class_def bind_eq_Some_conv)
  have "list_all (\<lambda>i. i < NumLines cl) (rev [starting_linenum b + 1 ..< n])" using assms(2) by (auto simp: list_all_iff)
  from check_disallow_diags [OF 1 this] ds assms(2) show ?thesis by (auto split: option.split)
next
  case (Namespace name)
  with assms show ?thesis
    by (auto simp: CheckEnd_def check_end_namespace_def Let_def bind_eq_Some_conv split: if_splits)
qed (use assms in \<open>simp_all add: CheckEnd_def\<close>)

lemma consume_token_diags:
  "consume_token filename cl n token line ns = Some (ds, ns') \<Longrightarrow> n < NumLines cl \<Longrightarrow> list_all (file_diag filename cl) ds"
  by (auto simp: consume_token_def close_brace_def bind_eq_Some_conv split: if_splits list.splits dest: CheckEnd_diags)

lemma consume_braces_lines:
  "consume_braces filename cl n line ns = Some (ds, ns') \<Longrightarrow> n < NumLines cl \<Longrightarrow>
     list_all (file_diag filename cl) ds \<and> (nesting_lines n ns \<longrightarrow> nesting_lines n ns')"
proof (induction "length line" arbitrary: line ns ds rule: less_induct)
  case less
  show ?case
  proof (cases "re_match re_brace_token line")
    case None
    with less.prems show ?thesis by (subst (asm) consume_braces.simps) simp
  next
    case (Some m)
    then have shorter: "length (group_text m 2) < length line" by (auto elim!: brace_token_groups)
    from less.prems(1) Some obtain ds1 ns1 ds2 where
        1: "consume_token filename cl n (group_text m 1) line ns = Some (ds1, ns1)"
        and 2: "consume_braces filename cl n (group_text m 2) ns1 = Some (ds2, ns')" and "ds = ds1 @ ds2"
      by (auto simp: consume_braces_step bind_eq_Some_conv)
    with less.hyps [OF shorter 2 less.prems(2)] nesting_lines_token [OF 1] consume_token_diags [OF 1 less.prems(2)]
    show ?thesis by auto
  qed
qed

lemma update_access_diags:
  "n < NumLines cl \<Longrightarrow> list_all (file_diag filename cl) (fst (update_access filename n line ns))"
  by (auto simp: update_access_def split: list.split block_kind.split option.split)

text \<open>An update at line \<open>n\<close> reports about the file, and keeps the lines of the blocks in order.\<close>

lemma nesting_lines_start: "nesting_lines n ns \<Longrightarrow> nesting_lines n (start_line line ns)"
  unfolding start_line_def
  by (subst nesting_lines_update_top, rule count_parentheses_start, rule nesting_lines_preprocessor) (simp add: nesting_lines_def)

lemma nesting_lines_begin: "nesting_lines n ns \<Longrightarrow> nesting_lines n (begin_block line ns)"
  by (simp add: begin_block_def nesting_lines_update_top CheckBegin_start)

lemma Update_lines:
  assumes "Update filename cl n ns = Some (ds, ns')" "n < NumLines cl"
  shows "list_all (file_diag filename cl) ds \<and> (nesting_lines n ns \<longrightarrow> nesting_lines n ns')"
proof -
  from Update_stages [OF assms(1)] obtain line rest1 ns1 rest2 ns2 ds1 ns3 ds2 where
      1: "consume_namespaces n line (start_line line ns) = (rest1, ns1)"
      and 2: "consume_class cl n rest1 ns1 = Some (rest2, ns2)"
      and 3: "update_access filename n rest2 (begin_block line ns2) = (ds1, ns3)"
      and 4: "consume_braces filename cl n rest2 ns3 = Some (ds2, ns')" and ds: "ds = ds1 @ ds2" by metis
  have "nesting_lines n ns'" if "nesting_lines n ns"
  proof -
    from nesting_lines_namespaces [OF nesting_lines_start [OF that], of line line] 1 have "nesting_lines n ns1" by simp
    with 2 have "nesting_lines n ns2" by (rule nesting_lines_class)
    from nesting_lines_access [OF nesting_lines_begin [OF this], of filename rest2 line] 3 have "nesting_lines n ns3" by simp
    with consume_braces_lines [OF 4 assms(2)] show ?thesis by blast
  qed
  moreover have "list_all (file_diag filename cl) ds1" using update_access_diags [OF assms(2)] 3 by (metis fst_conv)
  ultimately show ?thesis using ds consume_braces_lines [OF 4 assms(2)] by simp
qed

end
