(* ===== verification/LineChecks.thy ===== *)
theory LineChecks
  imports CheckKit
begin

text \<open>
  Checks of one line in \<open>cpplint.py\<close> that keep no state of their own: comments and strings that
  go on, thread-unsafe functions, VLOG arguments, invalid increments, and the indentation in
  namespaces. An IndexError is \<open>None\<close>.
\<close>

section \<open>Comments, strings and calls\<close>

definition CheckForMultilineCommentsAndStrings :: "string \<Rightarrow> cleansed_lines \<Rightarrow> nat \<Rightarrow> diag list option" where
  "CheckForMultilineCommentsAndStrings filename clean_lines linenum = do {
     line \<leftarrow> py_nth (elided clean_lines) (int linenum);
     let line = replace_sub [BSL, BSL] [] line;
     Some ((if count_sub line ''/*'' > count_sub line ''*/'' then
         [mk_error filename (int linenum) ''readability/multiline_comment'' 5
           (''Complex multi-line /*...*/-style comment found. '' @ ''Lint may give bogus warnings.  '' @
            ''Consider replacing these with //-style comments, '' @ ''with #if 0...#endif, '' @
            ''or with more clearly structured multi-line comments.'')] else []) @
       (if odd (int (count_sub line [DQ]) - int (count_sub line [BSL, DQ])) then
         [mk_error filename (int linenum) ''readability/multiline_string'' 5
           (''Multi-line string ('' @ [DQ] @ ''...'' @ [DQ] @ '') found.  This lint script doesn'' @ [SQ] @ ''t '' @
            ''do well with such strings, and may give bogus warnings.  '' @
            ''Use C++11 raw strings or concatenation instead.'')] else []))
   }"

text \<open>The list of functions with their replacements; the pattern is built from the function's name.\<close>

definition UNSAFE_FUNC_PREFIX :: re where
  "UNSAFE_FUNC_PREFIX = ralt [rseq [one_of ''-+*/=%^&|(<'', spaces], rseq [rchr (CHR ''>''), spaces1]]"

definition call_with_args :: "string \<Rightarrow> re" where
  "call_with_args f = rseq [UNSAFE_FUNC_PREFIX, rlit f, rchr (CHR ''(''), rplus (none_of '')''), rchr (CHR '')'')]"

definition call_without_args :: "string \<Rightarrow> re" where
  "call_without_args f = rseq [UNSAFE_FUNC_PREFIX, rlit f, rchr (CHR ''(''), rchr (CHR '')'')]"

definition THREADING_LIST :: "(string \<times> string \<times> re) list" where
  "THREADING_LIST =
    [(''asctime('', ''asctime_r('', call_with_args ''asctime''),
     (''ctime('', ''ctime_r('', call_with_args ''ctime''),
     (''getgrgid('', ''getgrgid_r('', call_with_args ''getgrgid''),
     (''getgrnam('', ''getgrnam_r('', call_with_args ''getgrnam''),
     (''getlogin('', ''getlogin_r('', call_without_args ''getlogin''),
     (''getpwnam('', ''getpwnam_r('', call_with_args ''getpwnam''),
     (''getpwuid('', ''getpwuid_r('', call_with_args ''getpwuid''),
     (''gmtime('', ''gmtime_r('', call_with_args ''gmtime''),
     (''localtime('', ''localtime_r('', call_with_args ''localtime''),
     (''rand('', ''rand_r('', call_without_args ''rand''),
     (''strtok('', ''strtok_r('', call_with_args ''strtok''),
     (''ttyname('', ''ttyname_r('', call_with_args ''ttyname'')]"

definition CheckPosixThreading :: "string \<Rightarrow> cleansed_lines \<Rightarrow> nat \<Rightarrow> diag list option" where
  "CheckPosixThreading filename clean_lines linenum = do {
     line \<leftarrow> py_nth (elided clean_lines) (int linenum);
     Some (concat (map (\<lambda>(single_thread_func, multithread_safe_func, pattern).
       if found pattern line then
         [mk_error filename (int linenum) ''runtime/threadsafe_fn'' 2
           (''Consider using '' @ multithread_safe_func @ ''...) instead of '' @ single_thread_func @
            ''...) for improved thread safety.'')] else []) THREADING_LIST))
   }"

definition re_vlog :: re where
  "re_vlog = rseq [WordB, rlit ''VLOG('',
     Grp 1 (ralt [rlit ''INFO'', rlit ''ERROR'', rlit ''WARNING'', rlit ''DFATAL'', rlit ''FATAL'']), rchr (CHR '')'')]"

definition CheckVlogArguments :: "string \<Rightarrow> cleansed_lines \<Rightarrow> nat \<Rightarrow> diag list option" where
  "CheckVlogArguments filename clean_lines linenum = do {
     line \<leftarrow> py_nth (elided clean_lines) (int linenum);
     Some (if found re_vlog line then
       [mk_error filename (int linenum) ''runtime/vlog'' 5
         (''VLOG() should be used with numeric verbosity level.  '' @
          ''Use LOG() if you want symbolic severity levels.'')] else [])
   }"

definition RE_PATTERN_INVALID_INCREMENT :: re where
  "RE_PATTERN_INVALID_INCREMENT = rseq [Bol, spaces, rchr (CHR ''*''), rplus rword,
     Grp 1 (ralt [rlit ''++'', rlit ''--'']), rchr (CHR '';'')]"

definition CheckInvalidIncrement :: "string \<Rightarrow> cleansed_lines \<Rightarrow> nat \<Rightarrow> diag list option" where
  "CheckInvalidIncrement filename clean_lines linenum = do {
     line \<leftarrow> py_nth (elided clean_lines) (int linenum);
     Some (if matches RE_PATTERN_INVALID_INCREMENT line then
       [mk_error filename (int linenum) ''runtime/invalid_increment'' 5
         ''Changing pointer instead of value (or unused value of operator*).''] else [])
   }"

definition IsBlankLine :: "string \<Rightarrow> bool" where
  "IsBlankLine line = (line = [] \<or> list_all py_space line)"

section \<open>Indentation in namespaces\<close>

definition IsMacroDefinition :: "string list \<Rightarrow> nat \<Rightarrow> bool option" where
  "IsMacroDefinition clean_lines linenum = do {
     line \<leftarrow> py_nth clean_lines (int linenum);
     if found (rseq [Bol, rlit ''#define'']) line then Some True
     else if linenum > 0 then do {
       previous \<leftarrow> py_nth clean_lines (int linenum - 1);
       Some (found (rseq [rchr BSL, Eol]) previous)
     }
     else Some False
   }"

definition re_forward_class :: re where
  "re_forward_class = rseq [Bol, spaces, Star (Grp 1 (rseq [WordB, rlit ''template'', WordB])), Star rdot,
     rlit ''class'', spaces1, rplus rword, rchr (CHR '';''), spaces, Eol]"

definition IsForwardClassDeclaration :: "string list \<Rightarrow> nat \<Rightarrow> bool option" where
  "IsForwardClassDeclaration clean_lines linenum = do {
     line \<leftarrow> py_nth clean_lines (int linenum);
     Some (matches re_forward_class line)
   }"

text \<open>The block on top of the stack, and the one below it.\<close>

definition IsBlockInNameSpace :: "nesting_state \<Rightarrow> bool \<Rightarrow> bool" where
  "IsBlockInNameSpace ns is_forward_declaration =
     (if is_forward_declaration then (case stack ns of [] \<Rightarrow> False | b # _ \<Rightarrow> is_namespace b)
      else (case stack ns of b # c # _ \<Rightarrow> check_namespace_indentation b \<and> is_namespace c | _ \<Rightarrow> False))"

definition ShouldCheckNamespaceIndentation :: "nesting_state \<Rightarrow> bool \<Rightarrow> string list \<Rightarrow> nat \<Rightarrow> bool option" where
  "ShouldCheckNamespaceIndentation ns is_namespace_indent_item raw_lines_no_comments linenum = do {
     is_forward_declaration \<leftarrow> IsForwardClassDeclaration raw_lines_no_comments linenum;
     if \<not> (is_namespace_indent_item \<or> is_forward_declaration) then Some False
     else do {
       in_macro \<leftarrow> IsMacroDefinition raw_lines_no_comments linenum;
       Some (if in_macro then False else IsBlockInNameSpace ns is_forward_declaration)
     }
   }"

definition CheckItemIndentationInNamespace :: "string \<Rightarrow> string list \<Rightarrow> nat \<Rightarrow> diag list option" where
  "CheckItemIndentationInNamespace filename raw_lines_no_comments linenum = do {
     line \<leftarrow> py_nth raw_lines_no_comments (int linenum);
     Some (if matches (rseq [Bol, spaces1]) line then
       [mk_error filename (int linenum) ''runtime/indentation_namespace'' 4 ''Do not indent within a namespace'']
       else [])
   }"

text \<open>\<open>==\<close> of two blocks is identity.\<close>

definition is_namespace_indent_item :: "nesting_state \<Rightarrow> bool" where
  "is_namespace_indent_item ns =
     (case stack ns of
        b # c # _ \<Rightarrow> check_namespace_indentation b \<and>
          (case previous_stack_top ns of None \<Rightarrow> False | Some p \<Rightarrow> is_namespace p \<and> b_id p = b_id c)
      | _ \<Rightarrow> False)"

definition CheckForNamespaceIndentation ::
  "string \<Rightarrow> nesting_state \<Rightarrow> cleansed_lines \<Rightarrow> nat \<Rightarrow> diag list option" where
  "CheckForNamespaceIndentation filename ns clean_lines linenum = do {
     should \<leftarrow> ShouldCheckNamespaceIndentation ns (is_namespace_indent_item ns) (elided clean_lines) linenum;
     if should then CheckItemIndentationInNamespace filename (elided clean_lines) linenum else Some []
   }"

section \<open>The checks together\<close>

text \<open>
  A check of one line is total on the lines of a file and reports only on its own line, in a
  category of the module's list and at a confidence from 0 to 5.
\<close>

definition line_diag :: "string \<Rightarrow> nat \<Rightarrow> diag \<Rightarrow> bool" where
  "line_diag filename n d = (d_filename d = filename \<and> d_linenum d = Some (int n) \<and>
     d_category d \<in> set ERROR_CATEGORIES \<and> 0 \<le> d_confidence d \<and> d_confidence d \<le> 5)"

text \<open>A run of a check over a list of lines, and two checks in a row.\<close>

fun run_check ::
  "(string \<Rightarrow> cleansed_lines \<Rightarrow> nat \<Rightarrow> diag list option) \<Rightarrow> string \<Rightarrow> cleansed_lines \<Rightarrow> nat list \<Rightarrow> diag list option" where
  "run_check check filename cl [] = Some []"
| "run_check check filename cl (n # ns) = do {
     ds \<leftarrow> check filename cl n; ds' \<leftarrow> run_check check filename cl ns; Some (ds @ ds') }"

definition both_checks ::
  "(string \<Rightarrow> cleansed_lines \<Rightarrow> nat \<Rightarrow> diag list option) \<Rightarrow> (string \<Rightarrow> cleansed_lines \<Rightarrow> nat \<Rightarrow> diag list option) \<Rightarrow>
   string \<Rightarrow> cleansed_lines \<Rightarrow> nat \<Rightarrow> diag list option" where
  "both_checks c1 c2 filename cl n = do { ds \<leftarrow> c1 filename cl n; ds' \<leftarrow> c2 filename cl n; Some (ds @ ds') }"

locale line_check =
  fixes check :: "string \<Rightarrow> cleansed_lines \<Rightarrow> nat \<Rightarrow> diag list option"
  assumes check_line: "well_formed cl \<Longrightarrow> n < NumLines cl \<Longrightarrow>
    \<exists>ds. check filename cl n = Some ds \<and> list_all (line_diag filename n) ds"
begin

lemma run_diags:
  assumes "well_formed cl" "list_all (\<lambda>n. n < NumLines cl) ns"
  shows "\<exists>ds. run_check check filename cl ns = Some ds \<and>
    list_all (\<lambda>d. \<exists>n. n \<in> set ns \<and> line_diag filename n d) ds"
  using assms(2)
proof (induction ns)
  case (Cons n ns)
  then obtain ds ds' where "check filename cl n = Some ds" "list_all (line_diag filename n) ds"
    "run_check check filename cl ns = Some ds'" "list_all (\<lambda>d. \<exists>n. n \<in> set ns \<and> line_diag filename n d) ds'"
    using check_line [OF assms(1)] by fastforce
  then show ?case by (auto simp: list_all_iff)
qed simp

end

sublocale line_check \<subseteq> on_file: file_check "\<lambda>_ _. True" check
proof
  fix cl :: cleansed_lines and n filename
  assume "well_formed cl" "n < NumLines cl"
  from check_line [OF this, of filename] obtain ds where "check filename cl n = Some ds" "list_all (line_diag filename n) ds"
    by blast
  with \<open>n < NumLines cl\<close> show "sound filename cl (check filename cl n)"
    by (auto simp: sound_def line_diag_def file_diag_def list_all_iff)
qed

locale line_check_pair = first: line_check c1 + second: line_check c2
  for c1 :: "string \<Rightarrow> cleansed_lines \<Rightarrow> nat \<Rightarrow> diag list option"
    and c2 :: "string \<Rightarrow> cleansed_lines \<Rightarrow> nat \<Rightarrow> diag list option"
begin

lemma both: "line_check (both_checks c1 c2)"
proof
  fix cl :: cleansed_lines and n filename
  assume "well_formed cl" "n < NumLines cl"
  from first.check_line [OF this] second.check_line [OF this]
  show "\<exists>ds. both_checks c1 c2 filename cl n = Some ds \<and> list_all (line_diag filename n) ds"
    unfolding both_checks_def by (metis bind.bind_lunit list_all_append)
qed

end

lemma elided_line: "well_formed cl \<Longrightarrow> n < NumLines cl \<Longrightarrow> py_nth (elided cl) (int n) = Some (elided cl ! n)"
  by (simp add: well_formed_def NumLines_def)

lemma line_diag_mk:
  "line_diag filename n (mk_error filename (int n) category confidence message) \<longleftrightarrow>
     category \<in> set ERROR_CATEGORIES \<and> 0 \<le> confidence \<and> confidence \<le> 5"
  by (simp add: line_diag_def mk_error_def)

interpretation multiline: line_check CheckForMultilineCommentsAndStrings
  by unfold_locales
    (simp add: CheckForMultilineCommentsAndStrings_def elided_line line_diag_mk Let_def del: py_nth_nat)

interpretation vlog: line_check CheckVlogArguments
  by unfold_locales (simp add: CheckVlogArguments_def elided_line line_diag_mk del: py_nth_nat)

interpretation threading: line_check CheckPosixThreading
  by unfold_locales
    (auto simp: CheckPosixThreading_def elided_line line_diag_mk list_all_iff simp del: py_nth_nat split: if_splits)

interpretation increment: line_check CheckInvalidIncrement
  by unfold_locales (simp add: CheckInvalidIncrement_def elided_line line_diag_mk del: py_nth_nat)

lemma namespace_check_total:
  assumes "well_formed cl" "n < NumLines cl"
  shows "\<exists>b. ShouldCheckNamespaceIndentation ns item (elided cl) n = Some b"
proof -
  have "n < length (elided cl)" using assms by (simp add: well_formed_def NumLines_def)
  moreover from this have "\<exists>l. py_nth (elided cl) (int n - 1) = Some l" if "n > 0"
    using that by (simp add: py_nth_def)
  ultimately show ?thesis
    by (auto simp: ShouldCheckNamespaceIndentation_def IsForwardClassDeclaration_def IsMacroDefinition_def)
qed

interpretation namespace_indent: line_check "\<lambda>filename. CheckForNamespaceIndentation filename ns" for ns
proof
  fix cl :: cleansed_lines and n filename
  assume cl: "well_formed cl" "n < NumLines cl"
  from namespace_check_total [OF this]
  obtain b where "ShouldCheckNamespaceIndentation ns (is_namespace_indent_item ns) (elided cl) n = Some b" by blast
  then show "\<exists>ds. CheckForNamespaceIndentation filename ns cl n = Some ds \<and> list_all (line_diag filename n) ds"
    using cl by (simp add: CheckForNamespaceIndentation_def CheckItemIndentationInNamespace_def elided_line line_diag_mk
      del: py_nth_nat)
qed

text \<open>The stateless checks in the order in which \<open>ProcessLine\<close> makes them.\<close>

definition stateless_checks :: "string \<Rightarrow> cleansed_lines \<Rightarrow> nat \<Rightarrow> diag list option" where
  "stateless_checks = both_checks CheckForMultilineCommentsAndStrings
     (both_checks CheckVlogArguments (both_checks CheckPosixThreading CheckInvalidIncrement))"

interpretation pair3: line_check_pair CheckPosixThreading CheckInvalidIncrement ..
interpretation check3: line_check "both_checks CheckPosixThreading CheckInvalidIncrement" by (rule pair3.both)
interpretation pair2: line_check_pair CheckVlogArguments "both_checks CheckPosixThreading CheckInvalidIncrement" ..
interpretation check2: line_check "both_checks CheckVlogArguments (both_checks CheckPosixThreading CheckInvalidIncrement)"
  by (rule pair2.both)
interpretation pair1: line_check_pair CheckForMultilineCommentsAndStrings
  "both_checks CheckVlogArguments (both_checks CheckPosixThreading CheckInvalidIncrement)" ..
interpretation stateless: line_check stateless_checks
  unfolding stateless_checks_def by (rule pair1.both)

text \<open>Over all lines of a cleansed file the stateless checks raise nothing, and every error they
  report names this file, a line of it, a category of the module's list and a confidence from 0 to 5.\<close>

theorem stateless_checks_valid:
  assumes "well_formed cl"
  shows "\<exists>ds. run_check stateless_checks filename cl [0 ..< NumLines cl] = Some ds \<and>
    list_all (\<lambda>d. \<exists>n. n < NumLines cl \<and> line_diag filename n d) ds"
proof -
  have "list_all (\<lambda>n. n < NumLines cl) [0 ..< NumLines cl]" by (simp add: list_all_iff)
  from stateless.run_diags [OF assms this, of filename] show ?thesis by (auto simp: list_all_iff)
qed

theorem stateless_checks_valid_witness:
  "\<exists>ds. run_check stateless_checks ''a.cc'' nested_file [0 ..< NumLines nested_file] = Some ds \<and>
    list_all (\<lambda>d. \<exists>n. n < NumLines nested_file \<and> line_diag ''a.cc'' n d) ds"
  by (rule stateless_checks_valid) (rule nested_file_ok(1))

text \<open>The check of the indentation in namespaces reports at most its own line, and nothing unless
  the line is a forward declaration in a namespace or opens a block directly in the namespace that was
  innermost before the line.\<close>

theorem namespace_indent_sound:
  assumes "CheckForNamespaceIndentation filename ns cl n = Some ds" "ds \<noteq> []"
  shows "(IsForwardClassDeclaration (elided cl) n = Some True \<and> InNamespaceBody ns) \<or>
    (\<exists>b c bs. stack ns = b # c # bs \<and> check_namespace_indentation b \<and> is_namespace c \<and>
       map_option b_id (previous_stack_top ns) = Some (b_id c))"
proof -
  from assms have "ShouldCheckNamespaceIndentation ns (is_namespace_indent_item ns) (elided cl) n = Some True"
    by (cases "ShouldCheckNamespaceIndentation ns (is_namespace_indent_item ns) (elided cl) n")
      (auto simp: CheckForNamespaceIndentation_def split: if_splits)
  then obtain f where f: "IsForwardClassDeclaration (elided cl) n = Some f" "is_namespace_indent_item ns \<or> f"
    "IsBlockInNameSpace ns f"
    by (auto simp: ShouldCheckNamespaceIndentation_def bind_eq_Some_conv split: if_splits)
  show ?thesis
  proof (cases f)
    case True
    with f show ?thesis by (auto simp: IsBlockInNameSpace_def InNamespaceBody_def)
  next
    case False
    with f(2,3) show ?thesis
      by (auto simp: IsBlockInNameSpace_def is_namespace_indent_item_def split: list.splits option.splits)
  qed
qed

definition indented_file :: cleansed_lines where
  "indented_file = (let ls = [''namespace a {'', ''  class B {'', ''  };'', ''}''] in
     \<lparr>elided = ls, lines = ls, raw_lines = ls, num_lines = 4, lines_without_raw_strings = ls\<rparr>)"

definition indented_state :: nesting_state where
  "indented_state = (let a = (NamespaceInfo 0 ''a'' 0)\<lparr>seen_open_brace := True\<rparr> in
     \<lparr>stack = [(BlockInfo 1 1 True)\<lparr>check_namespace_indentation := True\<rparr>, a], previous_stack_top = Some a,
      pp_stack = [], next_id = 2\<rparr>)"

theorem namespace_indent_sound_witness:
  "(IsForwardClassDeclaration (elided indented_file) 1 = Some True \<and> InNamespaceBody indented_state) \<or>
    (\<exists>b c bs. stack indented_state = b # c # bs \<and> check_namespace_indentation b \<and> is_namespace c \<and>
       map_option b_id (previous_stack_top indented_state) = Some (b_id c))"
proof -
  have "(case CheckForNamespaceIndentation ''a.cc'' indented_state indented_file 1 of None \<Rightarrow> False | Some ds \<Rightarrow> ds \<noteq> [])"
    by code_simp
  then obtain ds where "CheckForNamespaceIndentation ''a.cc'' indented_state indented_file 1 = Some ds" "ds \<noteq> []"
    by (auto split: option.splits)
  then show ?thesis by (rule namespace_indent_sound)
qed

end
