(* ===== verification/Spacing.thy ===== *)
theory Spacing
  imports LineChecks
begin

text \<open>
  The checks of the spacing of a line (\<open>cpplint.py\<close>, from \<open>CheckComment\<close> to
  \<open>GetPreviousNonBlankLine\<close>, and \<open>CheckSpacingForFunctionCall\<close>). They read the lines around the
  current one, and the nesting stack for the names of template parameters.
\<close>

section \<open>Function calls\<close>

definition re_if_call :: re where
  "re_if_call =
     rseq [WordB, rlit ''if'', spaces, rchr (CHR ''(''), Grp 1 (Star rdot), rchr (CHR '')''), spaces,
     rchr (CHR ''{'')]"

definition re_for_call :: re where
  "re_for_call =
     rseq [WordB, rlit ''for'', spaces, rchr (CHR ''(''), Grp 1 (Star rdot), rchr (CHR '')''), spaces,
     rchr (CHR ''{'')]"

definition re_while_call :: re where
  "re_while_call =
     rseq [WordB, rlit ''while'', spaces, rchr (CHR ''(''), Grp 1 (Star rdot), rchr (CHR '')''), spaces,
     one_of ''{;'']"

definition re_switch_call :: re where
  "re_switch_call =
     rseq [WordB, rlit ''switch'', spaces, rchr (CHR ''(''), Grp 1 (Star rdot), rchr (CHR '')''), spaces,
     rchr (CHR ''{'')]"

definition re_not_a_call :: re where
  "re_not_a_call =
     rseq [WordB,
     Grp 1 (ralt [rlit ''if'', rlit ''for'', rlit ''while'', rlit ''switch'', rlit ''return'', rlit ''new'', rlit ''delete'', rlit ''catch'', rlit ''sizeof'']),
     WordB]"

definition re_function_pointer :: re where
  "re_function_pointer =
     rseq [rlit '' ('', rplus (none_of '')''), rlit '')('', Star (none_of '')''),
     Grp 1 (ralt [rchr (CHR '')''), rseq [rchr (CHR '',''), Eol]])]"

definition re_array_pointer :: re where
  "re_array_pointer =
     rseq [rlit '' ('', rplus (none_of '')''), rlit '')['', rplus (none_of '']''), rchr (CHR '']'')]"

definition re_space_after_call :: re where
  "re_space_after_call = rseq [rword, spaces, rchr (CHR ''(''), rspace, NegA (rseq [spaces, rchr BSL, Eol])]"

definition re_space_after_paren :: re where
  "re_space_after_paren =
     rseq [rchr (CHR ''(''), spaces1, NegA (ralt [Grp 1 (rseq [spaces, rchr BSL]), rchr (CHR ''('')])]"

definition re_space_before_call :: re where
  "re_space_before_call = rseq [rword, spaces1, rchr (CHR ''('')]"

definition re_asm_volatile :: re where
  "re_asm_volatile =
     rseq [ropt (Seq (rchr (CHR ''_'')) (ropt (rchr (CHR ''_'')))), rlit ''asm'',
     ropt (Seq (rchr (CHR ''_'')) (ropt (rchr (CHR ''_'')))), spaces1,
     ropt (Seq (rchr (CHR ''_'')) (ropt (rchr (CHR ''_'')))), rlit ''volatile'',
     ropt (Seq (rchr (CHR ''_'')) (ropt (rchr (CHR ''_'')))), spaces1, rchr (CHR ''('')]"

definition re_define_or_alias :: re where
  "re_define_or_alias =
     ralt [rseq [rchr (CHR ''#''), spaces, rlit ''define''], rlit ''typedef'',
     rseq [rlit ''using'', spaces1, rplus rword, spaces, rchr (CHR ''='')]]"

definition re_member_pointer :: re where
  "re_member_pointer =
     rseq [rword, spaces1, rchr (CHR ''(''), Star (Grp 1 (rseq [rplus rword, rlit ''::''])), rchr (CHR ''*''),
     rplus rword, rlit '')('']"

definition re_case_paren :: re where
  "re_case_paren = rseq [WordB, rlit ''case'', spaces1, rchr (CHR ''('')]"

definition re_operator_word :: re where
  "re_operator_word = rseq [WordB, rlit ''operator'', Star (rchr (CHR ''_'')), WordB]"

definition re_space_before_close :: re where
  "re_space_before_close =
     rseq [none_of '')'', spaces1, rchr (CHR '')''), spaces,
     Cls (\<lambda>c. \<not> (py_space c \<or> c \<in> set ''{''))]"

definition re_only_close :: re where
  "re_only_close = rseq [Bol, spaces1, rchr (CHR '')'')]"

text \<open>The text inside the parentheses of the first control structure that matches, or the whole line.\<close>

fun control_text :: "re list \<Rightarrow> string \<Rightarrow> string" where
  "control_text [] line = line"
| "control_text (r # rs) line =
     (case re_search r line of Some m \<Rightarrow> group_text m 1 | None \<Rightarrow> control_text rs line)"

definition CheckSpacingForFunctionCall :: "string \<Rightarrow> cleansed_lines \<Rightarrow> nat \<Rightarrow> diag list option" where
  "CheckSpacingForFunctionCall filename clean_lines linenum = do {
     line \<leftarrow> py_nth (elided clean_lines) (int linenum);
     let fncall = control_text [re_if_call, re_for_call, re_while_call, re_switch_call] line;
     let err = mk_error filename (int linenum) ''whitespace/parens'';
     if found re_not_a_call fncall \<or> found re_function_pointer fncall \<or> found re_array_pointer fncall then Some []
     else Some (
       (if found re_space_after_call fncall then [err 4 ''Extra space after ( in function call'']
        else report_if (found re_space_after_paren fncall) (err 2 ''Extra space after (''))
       @ (if found re_space_before_call fncall \<and> \<not> found re_asm_volatile fncall \<and>
            \<not> found re_define_or_alias fncall \<and> \<not> found re_member_pointer fncall \<and> \<not> found re_case_paren fncall
          then [err (if found re_operator_word line then 0 else 4) ''Extra space before ( in function call'']
          else [])
       @ (if found re_space_before_close fncall then
            [err 2 (if found re_only_close fncall then ''Closing ) should be moved to the previous line''
                    else ''Extra space before )'')]
          else []))
   }"

section \<open>Comments\<close>

definition RE_PATTERN_TODO :: re where
  "RE_PATTERN_TODO =
     rseq [Bol, rlit ''//'', Grp 1 spaces, rlit ''TODO'',
     ropt (Grp 2 (rseq [rchr (CHR ''(''), rplus_lazy rdot, rchr (CHR '')'')])), ropt (rchr (CHR '':'')),
     ropt (Grp 3 (ralt [rspace, Eol]))]"

definition re_escaped_char :: re where
  "re_escaped_char = rseq [rchr BSL, rdot]"

definition re_brace_comment :: re where
  "re_brace_comment = rseq [Bol, Star rdot, rchr (CHR ''{''), Star (rchr (CHR '' '')), rlit ''//'']"

definition re_tight_comment :: re where
  "re_tight_comment = rseq [rlit ''//'', Star (none_of '' ''), rword]"

definition re_doxygen_comment :: re where
  "re_doxygen_comment = rseq [Grp 1 (rseq [rlit ''//'', one_of ''/!'']), Grp 2 (ralt [spaces1, Eol])]"

text \<open>\<open>string.whitespace\<close>\<close>

definition ascii_whitespace :: "char \<Rightarrow> bool" where
  "ascii_whitespace c = (c \<in> {CHR '' '', TAB, LF, CR, CHR 0x0B, CHR 0x0C})"

definition check_todo :: "string \<Rightarrow> nat \<Rightarrow> string \<Rightarrow> diag list" where
  "check_todo filename linenum comment =
     (case re_match RE_PATTERN_TODO comment of
        None \<Rightarrow> []
      | Some m \<Rightarrow>
          report_if (length (group_text m 1) > 1)
            (mk_error filename (int linenum) ''whitespace/todo'' 2 ''Too many spaces before TODO'')
          @ report_if (group_text m 2 = [])
              (mk_error filename (int linenum) ''readability/todo'' 2
                (''Missing username in TODO; it should look like '' @ [DQ] @ ''// TODO(my_username): Stuff.'' @ [DQ]))
          @ report_if (m_group m 3 \<noteq> Some '' '' \<and> m_group m 3 \<noteq> Some [])
              (mk_error filename (int linenum) ''whitespace/todo'' 2 ''TODO(my_username) should be followed by a space''))"

definition CheckComment :: "string \<Rightarrow> string \<Rightarrow> nat \<Rightarrow> nat \<Rightarrow> diag list" where
  "CheckComment line filename linenum next_line_start =
     (case find_sub line ''//'' of
        None \<Rightarrow> []
      | Some commentpos \<Rightarrow>
          if even (count_sub (re_sub re_escaped_char (\<lambda>_. []) (take commentpos line)) [DQ]) then
            let comment = drop commentpos line in
            report_if (\<not> (matches re_brace_comment line \<and> next_line_start = commentpos) \<and>
                (commentpos \<ge> 1 \<and> \<not> ascii_whitespace (line ! (commentpos - 1)) \<or>
                 commentpos \<ge> 2 \<and> \<not> ascii_whitespace (line ! (commentpos - 2))))
              (mk_error filename (int linenum) ''whitespace/comments'' 2
                ''At least two spaces is best between code and comments'')
            @ check_todo filename linenum comment
            @ report_if (matches re_tight_comment comment \<and> \<not> matches re_doxygen_comment comment)
                (mk_error filename (int linenum) ''whitespace/comments'' 4
                  ''Should have a space between // and comment'')
          else [])"

section \<open>Blank lines\<close>

definition re_indent_6 :: re where
  "re_indent_6 = rseq [rlit ''      '', rword]"

definition re_function_header_end :: re where
  "re_function_header_end =
     rseq [rlit ''    '', rword, Star (none_of ''(''), rchr (CHR '')''), spaces,
     ropt (Grp 1 (rseq [rlit ''const'', spaces])),
     Grp 2 (ralt [rseq [rchr (CHR ''{''), spaces, Eol], rchr (CHR '':'')])]"

definition re_initializer_colon :: re where
  "re_initializer_colon = rlit ''    :''"

definition re_closing_brace :: re where
  "re_closing_brace = rseq [spaces, rchr (CHR ''}'')]"

definition re_access_colon :: re where
  "re_access_colon =
     rseq [spaces, Grp 1 (rseq [rchr (CHR ''p''), ralt [rlit ''ublic'', rlit ''rotected'', rlit ''rivate'']]),
     rchr (CHR '':'')]"

definition re_space_before_bracket :: re where
  "re_space_before_bracket = rseq [rword, spaces1, rchr (CHR ''['')]"

definition re_spaced_bracket_ok :: re where
  "re_spaced_bracket_ok =
     rseq [ralt [rseq [rlit ''auto'', ropt (rchr (CHR ''&''))], rlit ''delete'', rlit ''return''], spaces1,
     rchr (CHR ''['')]"

definition re_for_colon_after :: re where
  "re_for_colon_after =
     rseq [rlit ''for'', Star (rchr (CHR '' '')), rchr (CHR ''(''), Star rdot, none_of '':'', rchr (CHR '':''),
     none_of '': '']"

definition re_for_colon_before :: re where
  "re_for_colon_before =
     rseq [rlit ''for'', Star (rchr (CHR '' '')), rchr (CHR ''(''), Star rdot, none_of '': '',
     rchr (CHR '':''), none_of '':'']"

text \<open>
  The search for the opening line of an initializer list: \<open>initializer_opens ls k\<close> looks at the
  lines below \<open>k\<close>, from the last one upwards.
\<close>

fun initializer_opens :: "string list \<Rightarrow> nat \<Rightarrow> bool option" where
  "initializer_opens ls 0 = Some False"
| "initializer_opens ls (Suc k) = do {
     l \<leftarrow> py_nth ls (int k);
     if matches re_indent_6 l then initializer_opens ls k else Some (take 5 l = ''    :'')
   }"

definition blank_line_exception :: "string list \<Rightarrow> nat \<Rightarrow> string \<Rightarrow> bool option" where
  "blank_line_exception ls linenum prev_line =
     (if matches re_indent_6 prev_line then initializer_opens ls (linenum - 1)
      else Some (matches re_function_header_end prev_line \<or> matches re_initializer_colon prev_line))"

definition check_blank_line :: "string \<Rightarrow> cleansed_lines \<Rightarrow> nat \<Rightarrow> diag list option" where
  "check_blank_line filename clean_lines linenum = do {
     let err = mk_error filename (int linenum) ''whitespace/blank_line'';
     prev_line \<leftarrow> py_nth (elided clean_lines) (int linenum - 1);
     let prevbrace = py_rfind prev_line (CHR ''{'');
     at_start \<leftarrow> (if prevbrace \<noteq> -1 \<and> py_find (py_from prev_line prevbrace) ''}'' = -1 then do {
         except \<leftarrow> blank_line_exception (elided clean_lines) linenum prev_line;
         Some (report_if (\<not> except)
           (err 2 (''Redundant blank line at the start of a code block '' @ ''should be deleted.'')))
       } else Some []);
     at_end \<leftarrow> (if linenum + 1 < NumLines clean_lines then do {
         next_line \<leftarrow> py_nth (lines_without_raw_strings clean_lines) (int (linenum + 1));
         Some (report_if (next_line \<noteq> [] \<and> matches re_closing_brace next_line \<and> py_find next_line ''} else '' = -1)
           (err 3 (''Redundant blank line at the end of a code block '' @ ''should be deleted.'')))
       } else Some []);
     Some (at_start @ at_end @
       (case re_match re_access_colon prev_line of
          None \<Rightarrow> []
        | Some matched \<Rightarrow> [err 3 (''Do not leave a blank line after '' @ [DQ] @ group_text matched 1 @ '':'' @ [DQ])]))
   }"

definition CheckSpacing :: "string \<Rightarrow> nesting_state \<Rightarrow> cleansed_lines \<Rightarrow> nat \<Rightarrow> diag list option" where
  "CheckSpacing filename ns clean_lines linenum = do {
     let raw = lines_without_raw_strings clean_lines;
     line \<leftarrow> py_nth raw (int linenum);
     blank \<leftarrow> (if IsBlankLine line \<and> \<not> InNamespaceBody ns \<and> \<not> InExternC ns
               then check_blank_line filename clean_lines linenum else Some []);
     next_line_start \<leftarrow> (if linenum + 1 < NumLines clean_lines then do {
         next_line \<leftarrow> py_nth raw (int (linenum + 1));
         Some (length next_line - length (lstrip next_line))
       } else Some 0);
     let comments = CheckComment line filename linenum next_line_start;
     line \<leftarrow> py_nth (elided clean_lines) (int linenum);
     Some (blank @ comments
       @ report_if (found re_space_before_bracket line \<and> \<not> found re_spaced_bracket_ok line)
           (mk_error filename (int linenum) ''whitespace/braces'' 5 ''Extra space before ['')
       @ report_if (found re_for_colon_after line \<or> found re_for_colon_before line)
           (mk_error filename (int linenum) ''whitespace/forcolon'' 2
             ''Missing space around colon in range-based for loop''))
   }"

section \<open>Operators\<close>

definition re_operator_call :: re where
  "re_operator_call =
     rseq [Bol, Grp 1 (rseq [Star rdot, WordB, rlit ''operator'', WordB]), Grp 2 (rplus rnonspace),
     Grp 3 (rseq [spaces, rchr (CHR ''(''), Star rdot]), Eol]"

definition re_word_eq :: re where
  "re_word_eq = rseq [Cls (\<lambda>c. py_word c \<or> c \<in> set ''.''), rchr (CHR ''='')]"

definition re_eq_word :: re where
  "re_eq_word = rseq [rchr (CHR ''=''), Cls (\<lambda>c. py_word c \<or> c \<in> set ''.'')]"

definition re_control_word :: re where
  "re_control_word = rseq [WordB, Grp 1 (ralt [rlit ''if'', rlit ''while'', rlit ''for'']), rchr (CHR '' '')]"

definition re_compound_eq :: re where
  "re_compound_eq =
     Grp 1 (ralt [rlit ''>='', rlit ''<='', rlit ''=='', rlit ''!='', rlit ''&='', rlit ''^='', rlit ''|='', rlit ''+='', rlit ''*='', rlit ''/='', rlit ''%=''])"

definition re_operator_eq :: re where
  "re_operator_eq = rlit ''operator=''"

definition re_tight_comparison :: re where
  "re_tight_comparison =
     rseq [Cls (\<lambda>c. \<not> (py_space c \<or> c \<in> set ''<>=!'')),
     Grp 1 (ralt [rlit ''=='', rlit ''!='', rlit ''<='', rlit ''>='', rlit ''||'']),
     Cls (\<lambda>c. \<not> (py_space c \<or> c \<in> set ''<>=!,;)''))]"

definition re_hash_include :: re where
  "re_hash_include = rseq [rchr (CHR ''#''), Star rdot, rlit ''include'']"

definition re_tight_lt :: re where
  "re_tight_lt =
     rseq [Bol, Grp 1 (rseq [Star rdot, Cls (\<lambda>c. \<not> (py_space c \<or> c \<in> set ''<''))]),
     rchr (CHR ''<''), Cls (\<lambda>c. \<not> (py_space c \<or> c \<in> set ''=<,''))]"

definition re_tight_gt :: re where
  "re_tight_gt =
     rseq [Bol, Grp 1 (rseq [Star rdot, Cls (\<lambda>c. \<not> (py_space c \<or> c \<in> set ''->''))]),
     rchr (CHR ''>''), Cls (\<lambda>c. \<not> (py_space c \<or> c \<in> set ''=>,''))]"

definition re_tight_shift :: re where
  "re_tight_shift =
     rseq [Grp 1 (ralt [rlit ''operator'', Cls (\<lambda>c. \<not> (py_space c \<or> c \<in> set ''(<''))]),
     ropt (ralt [rchr (CHR ''L''), rlit ''UL'', rlit ''LL'', rlit ''ULL'', rchr (CHR ''l''), rlit ''ul'', rlit ''ll'', rlit ''ull'']),
     rlit ''<<'', Grp 2 (Cls (\<lambda>c. \<not> (py_space c \<or> c \<in> set '',=<'')))]"

definition re_right_shift_alpha :: re where
  "re_right_shift_alpha =
     rseq [rlit ''>>'', Cls (\<lambda>c. ascii_lower c \<or> ascii_upper c \<or> c \<in> set ''_'')]"

definition re_spaced_unary :: re where
  "re_spaced_unary =
     Grp 1 (ralt [rseq [rchr (CHR ''!''), rspace], rseq [rchr (CHR ''~''), rspace], rseq [rspace, rlit ''--'', Cls (\<lambda>c. py_space c \<or> c \<in> set '';'')], rseq [rspace, rlit ''++'', Cls (\<lambda>c. py_space c \<or> c \<in> set '';'')]])"

text \<open>
  The name of an operator function is overwritten with underscores, so that it does not look like
  the use of the operator. The loop ends: each round turns a character that is not a word character,
  the first one of the operator's name, into one that is.
\<close>

lemma re_operator_call_groups:
  assumes "re_match re_operator_call line = Some m"
  obtains u c w v rest where "line = u @ (c # w) @ v @ rest" "group_text m 1 = u" "group_text m 2 = c # w"
    "group_text m 3 = v" "\<not> py_word c"
proof -
  obtain u v w rest where g: "line = u @ v @ w @ rest" "group_text m 1 = u" "group_text m 2 = v" "group_text m 3 = w"
      and a: "(([], line), (rev u, v @ w @ rest)) \<in> re_rel (rseq [Star rdot, WordB, rlit ''operator'', WordB])"
      and b: "((rev u, v @ w @ rest), (rev v @ rev u, w @ rest)) \<in> re_rel (rplus rnonspace)"
    using assms unfolding re_operator_call_def by (rule re_match_groups3) auto
  from b obtain c where c: "v @ w @ rest = c # tl (v @ w @ rest)" "\<not> py_space c" "v \<noteq> []"
    by (auto simp: Cons_eq_append_conv dest!: star_relD)
  from a obtain p q where "((p, q), (rev u, v @ w @ rest)) \<in> re_rel (rlit ''operator'')"
      and edge: "at_word_boundary (rev u) (v @ w @ rest)" by auto
  then have "hd (rev u) = CHR ''r'' \<and> rev u \<noteq> []" by (auto simp: rel_rlit)
  moreover have "py_word (CHR ''r'')" by code_simp
  ultimately have "\<not> py_word c"
    using edge unfolding at_word_boundary_def by (subst (asm) c(1)) (auto split: list.splits)
  with c(1,3) g that [of u c "tl v" w rest] show ?thesis by (cases v) auto
qed

function hide_operators :: "string \<Rightarrow> string" where
  "hide_operators line =
     (case re_match re_operator_call line of
        None \<Rightarrow> line
      | Some m \<Rightarrow> hide_operators (group_text m 1 @ replicate (length (group_text m 2)) (CHR ''_'') @ group_text m 3))"
  by pat_completeness auto
termination
proof (relation "measure (\<lambda>line. length (filter (\<lambda>c. \<not> py_word c) line))")
  fix line m assume "re_match re_operator_call line = Some m"
  moreover have "py_word (CHR ''_'')" by code_simp
  ultimately show "(group_text m 1 @ replicate (length (group_text m 2)) (CHR ''_'') @ group_text m 3, line)
      \<in> measure (\<lambda>line. length (filter (\<lambda>c. \<not> py_word c) line))"
    by (elim re_operator_call_groups) (auto simp: filter_replicate)
qed simp

declare hide_operators.simps [simp del]

text \<open>The columns stay where they are.\<close>

lemma length_hide_operators: "length (hide_operators line) \<le> length line"
proof (induction line rule: hide_operators.induct)
  case (1 line)
  show ?case
  proof (cases "re_match re_operator_call line")
    case None
    then show ?thesis by (subst hide_operators.simps) simp
  next
    case (Some m)
    with 1 [OF Some] show ?thesis
      by (subst hide_operators.simps) (auto elim!: re_operator_call_groups)
  qed
qed

definition py_isdigit :: "string \<Rightarrow> bool" where
  "py_isdigit s = (s \<noteq> [] \<and> list_all (\<lambda>c. py_digit c \<or> code_point c \<in> {178, 179, 185}) s)"

definition check_angle_spacing :: "string \<Rightarrow> cleansed_lines \<Rightarrow> nat \<Rightarrow> string \<Rightarrow> diag list option" where
  "check_angle_spacing filename clean_lines linenum line = do {
     let err = mk_error filename (int linenum) ''whitespace/operators'' 3;
     less \<leftarrow> (case re_match re_tight_lt line of
         None \<Rightarrow> Some []
       | Some m \<Rightarrow> do {
           (_, _, end_pos) \<leftarrow> CloseExpression clean_lines linenum (length (group_text m 1));
           Some (report_if (end_pos \<le> -1) (err ''Missing spaces around <''))
         });
     greater \<leftarrow> (case re_match re_tight_gt line of
         None \<Rightarrow> Some []
       | Some m \<Rightarrow> do {
           (_, _, start_pos) \<leftarrow> ReverseCloseExpression clean_lines linenum (length (group_text m 1));
           Some (report_if (start_pos \<le> -1) (err ''Missing spaces around >''))
         });
     Some (less @ greater)
   }"

definition CheckOperatorSpacing :: "string \<Rightarrow> cleansed_lines \<Rightarrow> nat \<Rightarrow> diag list option" where
  "CheckOperatorSpacing filename clean_lines linenum = do {
     line \<leftarrow> py_nth (elided clean_lines) (int linenum);
     let line = hide_operators line;
     let err = mk_error filename (int linenum) ''whitespace/operators'';
     comparison \<leftarrow> (case re_search re_tight_comparison line of
         Some m \<Rightarrow> Some [err 3 (''Missing spaces around '' @ group_text m 1)]
       | None \<Rightarrow> if \<not> matches re_hash_include line then check_angle_spacing filename clean_lines linenum line
                 else Some []);
     Some (report_if ((found re_word_eq line \<or> found re_eq_word line) \<and> \<not> found re_control_word line \<and>
             \<not> found re_compound_eq line \<and> \<not> found re_operator_eq line)
           (err 4 ''Missing spaces around ='')
       @ comparison
       @ (case re_search re_tight_shift line of
            None \<Rightarrow> []
          | Some m \<Rightarrow>
              report_if (\<not> (py_isdigit (group_text m 1) \<and> py_isdigit (group_text m 2)) \<and>
                  \<not> (group_text m 1 = ''operator'' \<and> group_text m 2 = '';''))
                (err 3 ''Missing spaces around <<''))
       @ report_if (found re_right_shift_alpha line) (err 3 ''Missing spaces around >>'')
       @ (case re_search re_spaced_unary line of
            None \<Rightarrow> []
          | Some m \<Rightarrow> [err 4 (''Extra space for operator '' @ group_text m 1)]))
   }"

section \<open>Parentheses and commas\<close>

definition re_control_paren :: re where
  "re_control_paren =
     rseq [rchr (CHR '' ''), Grp 1 (ralt [rlit ''if('', rlit ''for('', rlit ''while('', rlit ''switch(''])]"

definition re_control_inner :: re where
  "re_control_inner =
     rseq [WordB, Grp 1 (ralt [rlit ''if'', rlit ''for'', rlit ''while'', rlit ''switch'']), spaces,
     rchr (CHR ''(''), Grp 2 (Star (rchr (CHR '' ''))), Grp 3 rdot, Star rdot, rplus (none_of '' ''),
     Grp 4 (Star (rchr (CHR '' ''))), rchr (CHR '')''), spaces, rchr (CHR ''{''), spaces, Eol]"

definition re_for_no_step :: re where
  "re_for_no_step = rseq [WordB, rlit ''for'', spaces, rchr (CHR ''(''), Star rdot, rlit ''; )'']"

definition re_operator_comma :: re where
  "re_operator_comma = rseq [WordB, rlit ''operator'', spaces, rchr (CHR '',''), spaces, rchr (CHR ''('')]"

definition re_tight_comma :: re where
  "re_tight_comma = rseq [rchr (CHR '',''), Cls (\<lambda>c. \<not> (py_space c \<or> c \<in> set '',''))]"

definition re_tight_semicolon :: re where
  "re_tight_semicolon =
     rseq [rchr (CHR '';''), Cls (\<lambda>c. \<not> (py_space c \<or> c \<in> set (''};'' @ [BSL] @ '')/'')))]"

definition CheckParenthesisSpacing :: "string \<Rightarrow> cleansed_lines \<Rightarrow> nat \<Rightarrow> diag list option" where
  "CheckParenthesisSpacing filename clean_lines linenum = do {
     line \<leftarrow> py_nth (elided clean_lines) (int linenum);
     let err = mk_error filename (int linenum) ''whitespace/parens'' 5;
     Some (
       (case re_search re_control_paren line of
          None \<Rightarrow> []
        | Some m \<Rightarrow> [err (''Missing space before ( in '' @ group_text m 1)])
       @ (case re_search re_control_inner line of
            None \<Rightarrow> []
          | Some m \<Rightarrow>
              let opening = length (group_text m 2); closing = length (group_text m 4) in
              report_if (opening \<noteq> closing \<and>
                  \<not> (group_text m 3 = '';'' \<and> opening = 1 + closing \<or> group_text m 2 = [] \<and> found re_for_no_step line))
                (err (''Mismatching spaces inside () in '' @ group_text m 1))
              @ report_if (opening \<notin> {0, 1})
                  (err (''Should have zero or one spaces inside ( and ) in '' @ group_text m 1))))
   }"

definition CheckCommaSpacing :: "string \<Rightarrow> cleansed_lines \<Rightarrow> nat \<Rightarrow> diag list option" where
  "CheckCommaSpacing filename clean_lines linenum = do {
     line \<leftarrow> py_nth (elided clean_lines) (int linenum);
     raw \<leftarrow> py_nth (lines_without_raw_strings clean_lines) (int linenum);
     Some (report_if (found re_tight_comma (re_sub re_operator_comma (\<lambda>_. ''F('') line) \<and> found re_tight_comma raw)
             (mk_error filename (int linenum) ''whitespace/comma'' 3 ''Missing space after ,'')
       @ report_if (found re_tight_semicolon line)
           (mk_error filename (int linenum) ''whitespace/semicolon'' 3 ''Missing space after ;''))
   }"

section \<open>Braces\<close>

definition re_last_word :: re where
  "re_last_word = rseq [Bol, Star rdot, Grp 1 (rseq [WordB, rplus rnonspace]), Eol]"

definition re_tight_brace :: re where
  "re_tight_brace = rseq [Bol, Grp 1 (rseq [Star rdot, none_of '' ({>'']), rchr (CHR ''{'')]"

definition re_after_braces :: re where
  "re_after_braces =
     rseq [Bol, Star (Cls (\<lambda>c. py_space c \<or> c \<in> set ''}'')), one_of ''{.;,)<>]:'']"

definition re_tight_else :: re where
  "re_tight_else = rlit ''}else''"

definition re_colon_semicolon :: re where
  "re_colon_semicolon = rseq [rchr (CHR '':''), spaces, rchr (CHR '';''), spaces, Eol]"

definition re_only_semicolon :: re where
  "re_only_semicolon = rseq [Bol, spaces, rchr (CHR '';''), spaces, Eol]"

definition re_space_semicolon :: re where
  "re_space_semicolon = rseq [spaces1, rchr (CHR '';''), spaces, Eol]"

definition re_for_word :: re where
  "re_for_word = rseq [WordB, rlit ''for'', WordB]"

definition re_decltype_end :: re where
  "re_decltype_end = rseq [WordB, rlit ''decltype'', spaces, Eol]"

definition re_class_or_struct :: re where
  "re_class_or_struct = rseq [WordB, Grp 1 (ralt [rlit ''class'', rlit ''struct'']), WordB]"

definition re_continued :: re where
  "re_continued = rseq [rchr BSL, Eol]"

definition re_open_brace_end :: re where
  "re_open_brace_end = rseq [rchr (CHR ''{''), spaces, Eol]"

definition re_typename :: "string \<Rightarrow> re" where
  "re_typename token = rseq [WordB, ralt [rlit ''typename'', rlit ''class'', rlit ''struct''], spaces1, rlit token, WordB]"

text \<open>The first line of a list of line numbers that satisfies a predicate; \<open>Some None\<close> when none does.\<close>

fun first_line :: "(string \<Rightarrow> bool) \<Rightarrow> string list \<Rightarrow> nat list \<Rightarrow> nat option option" where
  "first_line P ls [] = Some None"
| "first_line P ls (i # is) = do { l \<leftarrow> py_nth ls (int i); if P l then Some (Some i) else first_line P ls is }"

text \<open>
  The walk up the nesting stack: for each block the lines from its start up to the start of the
  block around it are searched for the keyword \<open>template\<close>, and from there on for the name.
\<close>

fun type_in_blocks :: "string list \<Rightarrow> re \<Rightarrow> block list \<Rightarrow> bool option" where
  "type_in_blocks ls typename_pattern [] = Some False"
| "type_in_blocks ls typename_pattern (b # bs) =
     (if is_namespace b then Some False
      else
        let last_line = starting_linenum b;
            next_block_start = (case bs of [] \<Rightarrow> 0 | c # _ \<Rightarrow> starting_linenum c)
        in do {
          template \<leftarrow> first_line (\<lambda>l. contains l ''template'') ls (rev [next_block_start ..< last_line + 1]);
          (case template of
             None \<Rightarrow> type_in_blocks ls typename_pattern bs
           | Some first \<Rightarrow> do {
               named \<leftarrow> first_line (found typename_pattern) ls [first ..< last_line + 1];
               if named \<noteq> None then Some True else type_in_blocks ls typename_pattern bs
             })
        })"

definition IsType :: "cleansed_lines \<Rightarrow> nesting_state \<Rightarrow> string \<Rightarrow> bool option" where
  "IsType clean_lines ns expr =
     (let token = (case re_match re_last_word expr of Some m \<Rightarrow> group_text m 1 | None \<Rightarrow> expr) in
      if matches TYPES token then Some True
      else type_in_blocks (elided clean_lines) (re_typename token) (stack ns))"

text \<open>The text of a list of lines.\<close>

fun text_of_lines :: "string list \<Rightarrow> nat list \<Rightarrow> string option" where
  "text_of_lines ls [] = Some []"
| "text_of_lines ls (i # is) = do { l \<leftarrow> py_nth ls (int i); t \<leftarrow> text_of_lines ls is; Some (l @ t) }"

definition check_tight_brace :: "string \<Rightarrow> nesting_state \<Rightarrow> cleansed_lines \<Rightarrow> nat \<Rightarrow> string \<Rightarrow> diag list option" where
  "check_tight_brace filename ns clean_lines linenum leading_text = do {
     (endline, endlinenum, endpos) \<leftarrow> CloseExpression clean_lines linenum (length leading_text);
     rest \<leftarrow> text_of_lines (elided clean_lines) [endlinenum + 1 ..< min (endlinenum + 3) (NumLines clean_lines - 1)];
     let trailing_text = (if endpos > -1 then py_from endline endpos else []) @ rest;
     if matches re_after_braces trailing_text then Some []
     else do {
       is_type \<leftarrow> IsType clean_lines ns leading_text;
       Some (report_if (\<not> is_type) (mk_error filename (int linenum) ''whitespace/braces'' 5 ''Missing space before {''))
     }
   }"

definition CheckBracesSpacing :: "string \<Rightarrow> nesting_state \<Rightarrow> cleansed_lines \<Rightarrow> nat \<Rightarrow> diag list option" where
  "CheckBracesSpacing filename ns clean_lines linenum = do {
     line \<leftarrow> py_nth (elided clean_lines) (int linenum);
     let err = mk_error filename (int linenum) ''whitespace/semicolon'' 5;
     brace \<leftarrow> (case re_match re_tight_brace line of
         None \<Rightarrow> Some []
       | Some m \<Rightarrow> check_tight_brace filename ns clean_lines linenum (group_text m 1));
     Some (brace
       @ report_if (found re_tight_else line)
           (mk_error filename (int linenum) ''whitespace/braces'' 5 ''Missing space before else'')
       @ (if found re_colon_semicolon line then [err ''Semicolon defining empty statement. Use {} instead.'']
          else if found re_only_semicolon line then
            [err (''Line contains only semicolon. If this should be an empty statement, '' @ ''use {} instead.'')]
          else report_if (found re_space_semicolon line \<and> \<not> found re_for_word line)
            (err (''Extra space before last semicolon. If this should be an empty '' @ ''statement, use {} instead.''))))
   }"

definition IsDecltype :: "cleansed_lines \<Rightarrow> nat \<Rightarrow> nat \<Rightarrow> bool option" where
  "IsDecltype clean_lines linenum column = do {
     (text, _, start_col) \<leftarrow> ReverseCloseExpression clean_lines linenum column;
     Some (if start_col < 0 then False else found re_decltype_end (py_upto text start_col))
   }"

section \<open>Sections of a class, and the previous line\<close>

text \<open>The section that the line opens, when the line before it is neither blank nor a class head.\<close>

definition CheckSectionSpacing :: "string \<Rightarrow> block \<Rightarrow> class_data \<Rightarrow> cleansed_lines \<Rightarrow> nat \<Rightarrow> diag list option" where
  "CheckSectionSpacing filename class_info cls clean_lines linenum =
     (if int (last_line cls) - int (starting_linenum class_info) \<le> 24 \<or> linenum \<le> starting_linenum class_info then Some []
      else do {
        line \<leftarrow> py_nth (lines clean_lines) (int linenum);
        (case re_match re_access_colon line of
           None \<Rightarrow> Some []
         | Some matched \<Rightarrow> do {
             prev_line \<leftarrow> py_nth (lines clean_lines) (int linenum - 1);
             if \<not> IsBlankLine prev_line \<and> \<not> found re_class_or_struct prev_line \<and> \<not> found re_continued prev_line then do {
               head \<leftarrow> first_line (found re_open_brace_end) (lines clean_lines) [starting_linenum class_info ..< linenum];
               let end_class_head = (case head of None \<Rightarrow> starting_linenum class_info | Some i \<Rightarrow> i);
               Some (report_if (int end_class_head < int linenum - 1)
                 (mk_error filename (int linenum) ''whitespace/blank_line'' 3
                   ([DQ] @ group_text matched 1 @ '':'' @ [DQ] @ '' should be preceded by a blank line'')))
             } else Some []
           })
      })"

fun previous_nonblank :: "string list \<Rightarrow> nat \<Rightarrow> (string \<times> int) option" where
  "previous_nonblank ls 0 = Some ([], -1)"
| "previous_nonblank ls (Suc k) = do {
     prevline \<leftarrow> py_nth ls (int k);
     if \<not> IsBlankLine prevline then Some (prevline, int k) else previous_nonblank ls k
   }"

definition GetPreviousNonBlankLine :: "cleansed_lines \<Rightarrow> nat \<Rightarrow> (string \<times> int) option" where
  "GetPreviousNonBlankLine clean_lines linenum = previous_nonblank (elided clean_lines) linenum"

section \<open>Soundness\<close>

interpretation function_call_spacing: file_check "\<lambda>_ _. True" CheckSpacingForFunctionCall
  by unfold_locales (simp add: CheckSpacingForFunctionCall_def cl_lines Let_def del: py_nth_nat)

lemma initializer_opens_returns: "k \<le> length ls \<Longrightarrow> \<exists>b. initializer_opens ls k = Some b"
  by (induction ls k rule: initializer_opens.induct) auto

lemma check_blank_line_sound:
  assumes "well_formed cl" "n < NumLines cl"
  shows "sound filename cl (check_blank_line filename cl n)"
proof -
  have n: "n < length (elided cl)" using assms by (simp add: cl_lengths)
  define prev where "prev = (if n = 0 then last (elided cl) else elided cl ! (n - 1))"
  have prev: "py_nth (elided cl) (int n - 1) = Some prev" using py_nth_pred [OF n] by (simp add: prev_def)
  have "\<exists>b. blank_line_exception (elided cl) n prev = Some b"
    using initializer_opens_returns [of "n - 1" "elided cl"] n by (simp add: blank_line_exception_def)
  then obtain except where except: "blank_line_exception (elided cl) n prev = Some except" by blast
  have "Suc n < NumLines cl \<Longrightarrow> py_nth (lines_without_raw_strings cl) (int (Suc n)) = Some (lines_without_raw_strings cl ! Suc n)"
    using assms by (simp only: cl_lines)
  with assms(2) prev except show ?thesis
    by (auto simp: check_blank_line_def Let_def simp del: py_nth_nat of_nat_Suc split: option.split)
qed

lemma list_all_report_case [simp]:
  "list_all P (case x of None \<Rightarrow> [] | Some m \<Rightarrow> f m) \<longleftrightarrow> (\<forall>m. x = Some m \<longrightarrow> list_all P (f m))"
  by (cases x) auto

lemma check_todo_diags: "n < NumLines cl \<Longrightarrow> list_all (file_diag filename cl) (check_todo filename n comment)"
  by (simp add: check_todo_def)

lemma CheckComment_diags: "n < NumLines cl \<Longrightarrow> list_all (file_diag filename cl) (CheckComment line filename n start)"
  by (simp add: CheckComment_def Let_def check_todo_diags)

interpretation spacing: file_check "\<lambda>_ _. True" "\<lambda>filename. CheckSpacing filename ns" for ns
proof
  fix cl :: cleansed_lines and n filename
  assume cl: "well_formed cl" "n < NumLines cl"
  obtain blank where blank: "(if IsBlankLine (lines_without_raw_strings cl ! n) \<and> \<not> InNamespaceBody ns \<and> \<not> InExternC ns
      then check_blank_line filename cl n else Some []) = Some blank" "list_all (file_diag filename cl) blank"
    using check_blank_line_sound [OF cl, of filename] by (cases "IsBlankLine (lines_without_raw_strings cl ! n) \<and> \<not> InNamespaceBody ns \<and> \<not> InExternC ns") (auto simp: sound_def)
  have next_line: "Suc n < NumLines cl \<Longrightarrow> py_nth (lines_without_raw_strings cl) (int (Suc n)) = Some (lines_without_raw_strings cl ! Suc n)"
    using cl by (simp only: cl_lines)
  with cl blank show "sound filename cl (CheckSpacing filename ns cl n)"
    by (simp add: CheckSpacing_def cl_lines Let_def CheckComment_diags del: py_nth_nat of_nat_Suc)
qed

lemma CloseExpression_at:
  assumes "well_formed cl" "n < NumLines cl" "pos < length (elided cl ! n)"
  obtains line k p where "CloseExpression cl n pos = Some (line, k, p)" "close_pointer cl n (line, k, p)"
  using CloseExpression_pointer [OF assms] by (metis prod_cases3)

lemma ReverseCloseExpression_at:
  assumes "well_formed cl" "n < NumLines cl" "pos < length (elided cl ! n)"
  obtains line k p where "ReverseCloseExpression cl n pos = Some (line, k, p)" "open_pointer cl n (line, k, p)"
  using ReverseCloseExpression_pointer [OF assms] by (metis prod_cases3)

lemma tight_lt_column:
  assumes "re_match re_tight_lt line = Some m" shows "length (group_text m 1) < length line"
  using re_match_group1 [OF assms [unfolded re_tight_lt_def]] by auto

lemma tight_gt_column:
  assumes "re_match re_tight_gt line = Some m" shows "length (group_text m 1) < length line"
  using re_match_group1 [OF assms [unfolded re_tight_gt_def]] by auto

lemma check_angle_spacing_sound:
  assumes "well_formed cl" "n < NumLines cl" "length line \<le> length (elided cl ! n)"
  shows "sound filename cl (check_angle_spacing filename cl n line)"
proof -
  have less: "re_match re_tight_lt line = Some m \<Longrightarrow> \<exists>r. CloseExpression cl n (length (group_text m 1)) = Some r" for m
    using tight_lt_column [of line m] assms by (metis CloseExpression_at less_le_trans)
  have greater: "re_match re_tight_gt line = Some m \<Longrightarrow> \<exists>r. ReverseCloseExpression cl n (length (group_text m 1)) = Some r" for m
    using tight_gt_column [of line m] assms by (metis ReverseCloseExpression_at less_le_trans)
  show ?thesis
    using assms(2) less greater by (force simp: check_angle_spacing_def Let_def split: option.split)
qed

interpretation operator_spacing: file_check "\<lambda>_ _. True" CheckOperatorSpacing
proof
  fix cl :: cleansed_lines and n filename
  assume cl: "well_formed cl" "n < NumLines cl"
  obtain ds where "check_angle_spacing filename cl n (hide_operators (elided cl ! n)) = Some ds" "list_all (file_diag filename cl) ds"
    using check_angle_spacing_sound [OF cl length_hide_operators] by (auto simp: sound_def)
  with cl show "sound filename cl (CheckOperatorSpacing filename cl n)"
    by (simp add: CheckOperatorSpacing_def cl_lines Let_def del: py_nth_nat split: option.split)
qed

interpretation parenthesis_spacing: file_check "\<lambda>_ _. True" CheckParenthesisSpacing
  by unfold_locales (simp add: CheckParenthesisSpacing_def cl_lines Let_def del: py_nth_nat)

interpretation comma_spacing: file_check "\<lambda>_ _. True" CheckCommaSpacing
  by unfold_locales (simp add: CheckCommaSpacing_def cl_lines Let_def del: py_nth_nat)

text \<open>The blocks of the nesting stack begin in the file.\<close>

definition blocks_in :: "cleansed_lines \<Rightarrow> nesting_state \<Rightarrow> bool" where
  "blocks_in cl ns = list_all (\<lambda>b. starting_linenum b < NumLines cl) (stack ns)"

lemma first_line_returns: "list_all (\<lambda>i. i < length ls) is \<Longrightarrow> \<exists>r. first_line P ls is = Some r \<and> (\<forall>i. r = Some i \<longrightarrow> i \<in> set is)"
  by (induction "is") auto

lemma type_in_blocks_returns:
  "list_all (\<lambda>b. starting_linenum b < length ls) bs \<Longrightarrow> \<exists>b. type_in_blocks ls r bs = Some b"
proof (induction bs)
  case (Cons b bs)
  define next_start where "next_start = (case bs of [] \<Rightarrow> 0 | c # _ \<Rightarrow> starting_linenum c)"
  have "list_all (\<lambda>i. i < length ls) (rev [next_start ..< starting_linenum b + 1])" using Cons.prems by (auto simp: list_all_iff)
  then obtain t where t: "first_line (\<lambda>l. contains l ''template'') ls (rev [next_start ..< starting_linenum b + 1]) = Some t"
    using first_line_returns by blast
  have "list_all (\<lambda>i. i < length ls) [first ..< starting_linenum b + 1]" for first
    using Cons.prems by (auto simp: list_all_iff)
  then have "\<exists>f. first_line (found r) ls [first ..< starting_linenum b + 1] = Some f" for first
    using first_line_returns by blast
  then obtain f where "first_line (found r) ls [the t ..< starting_linenum b + 1] = Some f" by blast
  with Cons t show ?case
    by (cases t; cases f) (simp_all add: ex_bool_eq Let_def flip: next_start_def del: upt_Suc)
qed (simp add: ex_bool_eq)

lemma text_of_lines_returns: "list_all (\<lambda>i. i < length ls) is \<Longrightarrow> \<exists>t. text_of_lines ls is = Some t"
  by (induction "is") auto

lemma tight_brace_column:
  assumes "re_match re_tight_brace line = Some m" shows "length (group_text m 1) < length line"
  using re_match_group1 [OF assms [unfolded re_tight_brace_def]] by auto

interpretation braces_spacing: file_check "\<lambda>cl _. blocks_in cl ns" "\<lambda>filename. CheckBracesSpacing filename ns" for ns
proof
  fix cl :: cleansed_lines and n filename
  assume cl: "well_formed cl" "n < NumLines cl" "blocks_in cl ns"
  have "sound filename cl (check_tight_brace filename ns cl n (group_text m 1))" if m: "re_match re_tight_brace (elided cl ! n) = Some m" for m
  proof -
    obtain line k p where c: "CloseExpression cl n (length (group_text m 1)) = Some (line, k, p)"
      using CloseExpression_at [OF cl(1,2) tight_brace_column [OF m]] .
    have "list_all (\<lambda>i. i < length (elided cl)) [k + 1 ..< min (k + 3) (NumLines cl - 1)]"
      using cl(1) by (auto simp: list_all_iff cl_lengths)
    then obtain t where t: "text_of_lines (elided cl) [k + 1 ..< min (k + 3) (NumLines cl - 1)] = Some t"
      using text_of_lines_returns by blast
    have "\<exists>b. IsType cl ns (group_text m 1) = Some b"
      using type_in_blocks_returns [of "elided cl" "stack ns"] cl(1,3) by (auto simp: IsType_def Let_def blocks_in_def cl_lengths)
    then obtain b where "IsType cl ns (group_text m 1) = Some b" by blast
    with c t cl(2) show ?thesis by (simp add: check_tight_brace_def Let_def)
  qed
  with cl show "sound filename cl (CheckBracesSpacing filename ns cl n)"
    by (cases "re_match re_tight_brace (elided cl ! n)") (auto simp: CheckBracesSpacing_def cl_lines Let_def sound_def simp del: py_nth_nat)
qed

interpretation section_spacing: file_check "\<lambda>cl _. starting_linenum b < NumLines cl" "\<lambda>filename. CheckSectionSpacing filename b c" for b c
proof
  fix cl :: cleansed_lines and n filename
  assume cl: "well_formed cl" "n < NumLines cl" "starting_linenum b < NumLines cl"
  have "\<exists>l. py_nth (lines cl) (int n - 1) = Some l" using py_nth_pred [of n "lines cl"] cl by (simp add: cl_lengths)
  moreover have "\<exists>r. first_line (found re_open_brace_end) (lines cl) [starting_linenum b ..< n] = Some r"
    using first_line_returns [of "lines cl" "[starting_linenum b ..< n]" "found re_open_brace_end"] cl by (auto simp: list_all_iff cl_lengths)
  ultimately show "sound filename cl (CheckSectionSpacing filename b c cl n)"
    using cl by (auto simp: CheckSectionSpacing_def cl_lines Let_def simp del: py_nth_nat split: option.split)
qed

lemma previous_nonblank_returns: "k \<le> length ls \<Longrightarrow> \<exists>r. previous_nonblank ls k = Some r"
  by (induction ls k rule: previous_nonblank.induct) auto

text \<open>What the search for the previous line finds: the last line before \<open>n\<close> that is not blank.\<close>

lemma previous_nonblank_spec:
  assumes "previous_nonblank ls n = Some (l, k)"
  shows "(k = -1 \<and> l = [] \<and> list_all IsBlankLine (take n ls)) \<or>
    (\<exists>i. k = int i \<and> i < n \<and> l = ls ! i \<and> \<not> IsBlankLine l \<and> list_all IsBlankLine (drop (i + 1) (take n ls)))"
  using assms
proof (induction ls n rule: previous_nonblank.induct)
  case (2 ls j)
  then obtain line where line: "py_nth ls (int j) = Some line" by (auto simp: bind_eq_Some_conv)
  then have j: "j < length ls" "line = ls ! j" by (auto split: if_splits)
  show ?case
  proof (cases "IsBlankLine line")
    case False
    with 2(2) line j show ?thesis by (auto intro!: exI [of _ j])
  next
    case True
    with 2(2) line have "previous_nonblank ls j = Some (l, k)" by simp
    from 2(1) [OF line _ this] True have IH: "(k = -1 \<and> l = [] \<and> list_all IsBlankLine (take j ls)) \<or>
      (\<exists>i. k = int i \<and> i < j \<and> l = ls ! i \<and> \<not> IsBlankLine l \<and> list_all IsBlankLine (drop (i + 1) (take j ls)))" by simp
    moreover have "take (Suc j) ls = take j ls @ [line]" using j by (simp add: take_Suc_conv_app_nth)
    ultimately show ?thesis using True j by (auto simp: less_Suc_eq)
  qed
qed simp

end
