(* ===== verification/Braces.thy ===== *)
theory Braces
  imports Spacing
begin

text \<open>
  The checks of the braces of a line (\<open>cpplint.py\<close>, \<open>CheckBraces\<close>, \<open>CheckTrailingSemicolon\<close>,
  \<open>CheckEmptyBlockBody\<close>). They follow an expression over lines with the bracket matching, and look
  at the lines after it; a position \<open>-1\<close> of a failed match is used as a slice bound by the code, and
  is one here.
\<close>

section \<open>Braces\<close>

text \<open>
  \<open>GetLineWidth\<close>: no character below 256 is wide or combining, and normalization leaves a text of
  such characters as it is.
\<close>

definition GetLineWidth :: "string \<Rightarrow> nat" where
  "GetLineWidth line = length line"

definition re_only_open_brace :: re where
  "re_only_open_brace = rseq [spaces, rchr (CHR ''{''), spaces, Eol]"

definition re_brace_may_follow :: re where
  "re_brace_may_follow = rseq [one_of '',;:}{('', spaces, Eol]"

definition re_preprocessor :: re where
  "re_preprocessor = rseq [spaces, rchr (CHR ''#'')]"

definition re_else_start :: re where
  "re_else_start =
     rseq [spaces, rlit ''else'', WordB, spaces, ralt [rseq [rlit ''if'', WordB], rchr (CHR ''{''), Eol]]"

definition re_only_close_brace :: re where
  "re_only_close_brace = rseq [spaces, rchr (CHR ''}''), spaces, Eol]"

definition re_else_if :: re where
  "re_else_if = rseq [rlit ''else if'', spaces, rchr (CHR ''('')]"

definition re_brace_else_if :: re where
  "re_brace_else_if = rseq [rchr (CHR ''}''), spaces, rlit ''else if'', spaces, rchr (CHR ''('')]"

definition re_brace_before_else :: re where
  "re_brace_before_else = rseq [rchr (CHR ''}''), spaces, rlit ''else'', Star (none_of ''{''), Eol]"

definition re_brace_after_else :: re where
  "re_brace_after_else = rseq [Star (none_of ''}''), rlit ''else'', spaces, rchr (CHR ''{'')]"

definition re_else_statement :: re where
  "re_else_statement =
     rseq [WordB, rlit ''else '', Cls (\<lambda>c. \<not> (py_space c \<or> c \<in> set ''{''))]"

definition re_else_if_word :: re where
  "re_else_if_word = rseq [WordB, rlit ''else if'', WordB]"

definition re_do_statement :: re where
  "re_do_statement = rseq [spaces, rlit ''do '', Cls (\<lambda>c. \<not> (py_space c \<or> c \<in> set ''{''))]"

definition re_if_or_else :: re where
  "re_if_or_else =
     rseq [WordB, Grp 1 (ralt [rseq [rlit ''if'', spaces, rchr (CHR ''('')], rseq [rlit ''else'', WordB]])]"

definition re_if_paren :: re where
  "re_if_paren = rseq [WordB, rlit ''if'', spaces, rchr (CHR ''('')]"

definition re_open_brace_next :: re where
  "re_open_brace_next = rseq [spaces, rchr (CHR ''{'')]"

definition re_blank_rest :: re where
  "re_blank_rest = rseq [spaces, Eol]"

definition re_semicolon_last :: re where
  "re_semicolon_last =
     rseq [rchr (CHR '';''), Star (Cls (\<lambda>c. py_space c \<or> c \<in> set ''}'')),
     Grp 1 (ropt (rchr BSL)), Eol]"

definition re_lambda_line :: re where
  "re_lambda_line =
     rseq [Bol, Star (none_of ''{};''), rchr (CHR ''[''), Star (none_of ''[]''), rchr (CHR '']''),
     Star (none_of ''{}''), rchr (CHR ''{''), Star (none_of ''{}''), rchr (CHR ''}''), spaces,
     Star (rchr (CHR '')'')), one_of '';,'', spaces, Eol]"

definition re_else_next :: re where
  "re_else_next = rseq [spaces, rlit ''else'', WordB]"

text \<open>A brace that starts a line, and an \<open>else\<close> that does not follow its brace.\<close>

definition check_open_brace :: "int \<Rightarrow> string \<Rightarrow> cleansed_lines \<Rightarrow> nat \<Rightarrow> string \<Rightarrow> diag list option" where
  "check_open_brace line_length filename clean_lines linenum line =
     (if matches re_only_open_brace line then do {
        (prevline, _) \<leftarrow> GetPreviousNonBlankLine clean_lines linenum;
        Some (report_if (\<not> found re_brace_may_follow prevline \<and> \<not> matches re_preprocessor prevline \<and>
            \<not> (int (GetLineWidth prevline) > line_length - 2 \<and> contains prevline ''[]''))
          (mk_error filename (int linenum) ''whitespace/braces'' 4
            ''{ should almost always be at the end of the previous line''))
      } else Some [])"

definition check_else_line :: "string \<Rightarrow> cleansed_lines \<Rightarrow> nat \<Rightarrow> string \<Rightarrow> diag list option" where
  "check_else_line filename clean_lines linenum line =
     (if matches re_else_start line then do {
        (prevline, _) \<leftarrow> GetPreviousNonBlankLine clean_lines linenum;
        Some (report_if (matches re_only_close_brace prevline)
          (mk_error filename (int linenum) ''whitespace/newline'' 4
            ''An else should appear on the same line as the preceding }''))
      } else Some [])"

definition check_else_braces :: "string \<Rightarrow> cleansed_lines \<Rightarrow> nat \<Rightarrow> string \<Rightarrow> diag list option" where
  "check_else_braces filename clean_lines linenum line =
     (let err = mk_error filename (int linenum) ''readability/braces'' 5
            ''If an else has a brace on one side, it should have it on both'' in
      if found re_else_if line then
        let brace_on_left = found re_brace_else_if line;
            pos = py_find_from line ''('' (py_find line ''else if'') in
        if pos > 0 then do {
          (endline, _, endpos) \<leftarrow> CloseExpression clean_lines linenum (nat pos);
          let brace_on_right = contains (py_from endline endpos) ''{'';
          Some (report_if (brace_on_left \<noteq> brace_on_right) err)
        } else Some []
      else Some (report_if (found re_brace_before_else line \<or> matches re_brace_after_else line) err))"

text \<open>The first line from \<open>i\<close> on with a semicolon, in line \<open>i\<close> after the position.\<close>

function semicolon_line :: "string list \<Rightarrow> nat \<Rightarrow> int \<Rightarrow> nat" where
  "semicolon_line ls i pos =
     (if i < length ls \<and> \<not> contains (py_from (ls ! i) pos) '';'' then semicolon_line ls (i + 1) 0 else i)"
  by pat_completeness auto
termination by (relation "measure (\<lambda>(ls, i, pos). length ls - i)") auto

declare semicolon_line.simps [simp del]

definition check_single_statement ::
  "string \<Rightarrow> nat \<Rightarrow> bool \<Rightarrow> nat \<Rightarrow> string list \<Rightarrow> nat \<Rightarrow> diag list" where
  "check_single_statement filename linenum if_match if_indent ls endlinenum =
     (let err = mk_error filename (int linenum) ''readability/braces'' 4 in
      if endlinenum < length ls then
        let endline = ls ! endlinenum; endpos = py_find endline '';'' in
        if \<not> matches re_semicolon_last (py_from endline endpos) then
          report_if (\<not> matches re_lambda_line endline) (err ''If/else bodies with multiple statements require braces'')
        else if endlinenum < length ls - 1 then
          let next_line = ls ! (endlinenum + 1); next_indent = GetIndentLevel next_line in
          if if_match \<and> matches re_else_next next_line \<and> next_indent \<noteq> if_indent then
            [err (''Else clause should be indented at the same level as if. '' @
                  ''Ambiguous nested if/else chains require braces.'')]
          else report_if (next_indent > if_indent) (err ''If/else bodies with multiple statements require braces'')
        else []
      else [])"

text \<open>An opening brace follows the condition, on its line or the next one.\<close>

definition brace_follows :: "string list \<Rightarrow> nat \<Rightarrow> string \<Rightarrow> bool option" where
  "brace_follows ls endlinenum rest =
     (if matches re_open_brace_next rest then Some True
      else if matches re_blank_rest rest \<and> endlinenum < length ls - 1 then do {
        next_line \<leftarrow> py_nth ls (int endlinenum + 1);
        Some (matches re_open_brace_next next_line)
      } else Some False)"

fun check_body :: "string \<Rightarrow> cleansed_lines \<Rightarrow> nat \<Rightarrow> string \<Rightarrow> string \<times> nat \<times> int \<Rightarrow> diag list option" where
  "check_body filename clean_lines linenum line (endline, endlinenum, endpos) = do {
     brace \<leftarrow> brace_follows (elided clean_lines) endlinenum (py_from endline endpos);
     Some (if brace then []
       else check_single_statement filename linenum (found re_if_paren line) (GetIndentLevel line) (elided clean_lines)
         (semicolon_line (elided clean_lines) endlinenum endpos))
   }"

definition check_if_else_body :: "string \<Rightarrow> cleansed_lines \<Rightarrow> nat \<Rightarrow> string \<Rightarrow> diag list option" where
  "check_if_else_body filename clean_lines linenum line =
     (case re_search re_if_or_else line of
        None \<Rightarrow> Some []
      | Some if_else_match \<Rightarrow>
          if matches re_preprocessor line then Some []
          else (case re_search re_if_paren line of
              None \<Rightarrow> Some (line, linenum, int (m_end if_else_match))
            | Some if_match \<Rightarrow> CloseExpression clean_lines linenum (m_end if_match - 1))
            \<bind> check_body filename clean_lines linenum line)"

definition CheckBraces :: "int \<Rightarrow> string \<Rightarrow> cleansed_lines \<Rightarrow> nat \<Rightarrow> diag list option" where
  "CheckBraces line_length filename clean_lines linenum = do {
     line \<leftarrow> py_nth (elided clean_lines) (int linenum);
     run_all [
       check_open_brace line_length filename clean_lines linenum line,
       check_else_line filename clean_lines linenum line,
       check_else_braces filename clean_lines linenum line,
       Some (report_if (found re_else_statement line \<and> \<not> found re_else_if_word line)
           (mk_error filename (int linenum) ''whitespace/newline'' 4
             ''Else clause should never be on same line as else (use 2 lines)'')
         @ report_if (matches re_do_statement line)
           (mk_error filename (int linenum) ''whitespace/newline'' 4
             ''do/while clauses should not be on a single line'')),
       check_if_else_body filename clean_lines linenum line]
   }"

section \<open>Semicolons after a block\<close>

definition re_paren_brace :: re where
  "re_paren_brace = rseq [Bol, Grp 1 (rseq [Star rdot, rchr (CHR '')''), spaces]), rchr (CHR ''{'')]"

definition re_macro_before :: re where
  "re_macro_before =
     rseq [WordB,
     Grp 1 (rseq [Cls (\<lambda>c. ascii_upper c \<or> c \<in> set ''_''), Star (Cls (\<lambda>c. ascii_upper c \<or> py_digit c \<or> c \<in> set ''_''))]),
     spaces, Eol]"

definition re_bracket_before :: re where
  "re_bracket_before = rseq [Bol, Grp 1 (rseq [Star rdot, rchr (CHR '']'')]), spaces, Eol]"

definition re_subscript_operator :: re where
  "re_subscript_operator = rseq [WordB, rlit ''operator'', spaces, rchr (CHR ''[''), spaces, rchr (CHR '']'')]"

definition re_alignas_before :: re where
  "re_alignas_before =
     rseq [WordB, ralt [rlit ''struct'', rlit ''union''], spaces1, rlit ''alignas'', spaces, Eol]"

definition re_decltype_before :: re where
  "re_decltype_before = rseq [WordB, rlit ''decltype'', Eol]"

definition re_equals_before :: re where
  "re_equals_before = rseq [spaces1, rchr (CHR ''=''), spaces, Eol]"

definition re_lambda_before :: re where
  "re_lambda_before = rseq [rchr (CHR '']''), spaces, Eol]"

definition re_else_or_const :: re where
  "re_else_or_const =
     rseq [Bol,
     Grp 1 (rseq [Star rdot, ralt [rlit ''else'', rseq [rchr (CHR '')''), spaces, rlit ''const'']], spaces]),
     rchr (CHR ''{'')]"

definition re_statement_end :: re where
  "re_statement_end = rseq [one_of '';{}'', spaces, Eol]"

definition re_brace_first :: re where
  "re_brace_first = rseq [Bol, Grp 1 spaces, rchr (CHR ''{'')]"

definition re_semicolon_first :: re where
  "re_semicolon_first = rseq [Bol, spaces, rchr (CHR '';'')]"

definition safe_macros :: "string list" where
  "safe_macros = [''TEST'', ''TEST_F'', ''MATCHER'', ''MATCHER_P'', ''TYPED_TEST'', ''EXCLUSIVE_LOCKS_REQUIRED'',
     ''SHARED_LOCKS_REQUIRED'', ''LOCKS_EXCLUDED'', ''INTERFACE_DEF'']"

text \<open>The text before the parentheses does not belong to a function or a control structure.\<close>

definition not_a_block :: "string \<Rightarrow> bool" where
  "not_a_block line_prefix \<longleftrightarrow>
     (case re_search re_macro_before line_prefix of None \<Rightarrow> False | Some macro \<Rightarrow> group_text macro 1 \<notin> set safe_macros) \<or>
     (case re_match re_bracket_before line_prefix of
        None \<Rightarrow> False | Some func \<Rightarrow> \<not> found re_subscript_operator (group_text func 1)) \<or>
     found re_alignas_before line_prefix \<or> found re_decltype_before line_prefix \<or> found re_equals_before line_prefix"

text \<open>The text before the brace of a block that needs no semicolon, when the line opens one.\<close>

definition block_before_brace :: "cleansed_lines \<Rightarrow> nat \<Rightarrow> string \<Rightarrow> string option option" where
  "block_before_brace clean_lines linenum line =
     (case re_match re_paren_brace line of
        Some m \<Rightarrow> do {
          let closing_brace_pos = py_rfind (group_text m 1) (CHR '')'');
          (text, opening_line, opening_pos) \<leftarrow> ReverseCloseExpression clean_lines linenum (nat closing_brace_pos);
          if opening_pos > -1 \<and> not_a_block (py_upto text opening_pos) then Some None
          else if opening_line > 1 then do {
            previous \<leftarrow> py_nth (elided clean_lines) (int opening_line - 1);
            Some (if found re_lambda_before previous then None else Some (group_text m 1))
          }
          else Some (Some (group_text m 1))
        }
      | None \<Rightarrow>
          (case re_match re_else_or_const line of
             Some m \<Rightarrow> Some (Some (group_text m 1))
           | None \<Rightarrow> do {
               (prevline, _) \<leftarrow> GetPreviousNonBlankLine clean_lines linenum;
               Some (if prevline \<noteq> [] \<and> found re_statement_end prevline
                     then map_option (\<lambda>m. group_text m 1) (re_match re_brace_first line) else None)
             }))"

definition CheckTrailingSemicolon :: "string \<Rightarrow> cleansed_lines \<Rightarrow> nat \<Rightarrow> effect list option" where
  "CheckTrailingSemicolon filename clean_lines linenum = do {
     line \<leftarrow> py_nth (elided clean_lines) (int linenum);
     before \<leftarrow> block_before_brace clean_lines linenum line;
     (case before of
        None \<Rightarrow> Some []
      | Some prefix \<Rightarrow> do {
          (endline, endlinenum, endpos) \<leftarrow> CloseExpression clean_lines linenum (length prefix);
          if endpos > -1 \<and> matches re_semicolon_first (py_from endline endpos) then do {
            raw_before \<leftarrow> py_nth (raw_lines clean_lines) (int endlinenum - 1);
            raw \<leftarrow> py_nth (raw_lines clean_lines) (int endlinenum);
            Some (ParseNolintSuppressions filename raw_before (int endlinenum - 1) @
              ParseNolintSuppressions filename raw (int endlinenum) @
              [Report (mk_error filename (int endlinenum) ''readability/braces'' 4
                (''You don'' @ [SQ] @ ''t need a ; after a }''))])
          } else Some []
        })
   }"

section \<open>Empty bodies\<close>

definition re_loop_or_if :: re where
  "re_loop_or_if =
     rseq [spaces, Grp 1 (ralt [rlit ''for'', rlit ''while'', rlit ''if'']), spaces, rchr (CHR ''('')]"

definition re_semicolon_at :: re where
  "re_semicolon_at = rchr (CHR '';'')"

definition re_opens_block :: re where
  "re_opens_block = rseq [Bol, spaces, rchr (CHR ''{'')]"

definition re_not_blank :: re where
  "re_not_blank = rseq [Bol, NegA (rseq [spaces, Eol])]"

definition re_blank_or_else :: re where
  "re_blank_or_else = rseq [Bol, ralt [rseq [spaces, Eol], LookA (rseq [spaces, rlit ''else''])]]"

definition re_else_ahead :: re where
  "re_else_ahead = rseq [Bol, LookA (rseq [spaces, rlit ''else''])]"

text \<open>The line of the opening brace and the text on it, if nothing else comes before the brace.\<close>

function find_opening :: "string list \<Rightarrow> nat \<Rightarrow> string \<Rightarrow> (nat \<times> string) option" where
  "find_opening ls i fragment =
     (if found re_opens_block fragment then Some (i, fragment)
      else if found re_not_blank fragment then None
      else if length ls \<le> i + 1 then None
      else find_opening ls (i + 1) (ls ! (i + 1)))"
  by pat_completeness auto
termination by (relation "measure (\<lambda>(ls, i, fragment). length ls - i)") auto

text \<open>An \<open>else\<close> is the next thing after the block.\<close>

function else_follows :: "string list \<Rightarrow> nat \<Rightarrow> string \<Rightarrow> bool" where
  "else_follows ls i fragment =
     (if \<not> found re_blank_or_else fragment then False
      else if found re_else_ahead fragment then True
      else if length ls \<le> i + 1 then False
      else else_follows ls (i + 1) (ls ! (i + 1)))"
  by pat_completeness auto
termination by (relation "measure (\<lambda>(ls, i, fragment). length ls - i)") auto

declare find_opening.simps [simp del] else_follows.simps [simp del]

text \<open>
  The body of the conditional: the rest of the opening line (which the code turns into a list of its
  characters), the raw lines between, and the closing line up to the brace.
\<close>

definition conditional_body :: "cleansed_lines \<Rightarrow> nat \<Rightarrow> int \<Rightarrow> nat \<Rightarrow> int \<Rightarrow> string option" where
  "conditional_body clean_lines opening_linenum opening_pos closing_linenum closing_pos = do {
     opening_line \<leftarrow> py_nth (elided clean_lines) (int opening_linenum);
     if closing_linenum > opening_linenum then do {
       closing_line \<leftarrow> py_nth (elided clean_lines) (int closing_linenum);
       Some (join [LF] (map (\<lambda>c. [c]) (py_from opening_line (opening_pos + 1)) @
         py_slice (raw_lines clean_lines) (int opening_linenum + 1) (int closing_linenum) @
         [py_upto closing_line (closing_pos - 1)]))
     }
     else Some (py_slice opening_line (opening_pos + 1) (closing_pos - 1))
   }"

definition check_empty_if :: "string \<Rightarrow> cleansed_lines \<Rightarrow> string \<Rightarrow> nat \<Rightarrow> int \<Rightarrow> diag list option" where
  "check_empty_if filename clean_lines end_line end_linenum end_pos =
     (let ls = elided clean_lines in
      case find_opening ls end_linenum (py_from end_line end_pos) of
        None \<Rightarrow> Some []
      | Some (opening_linenum, fragment) \<Rightarrow> do {
          let opening_pos = py_find fragment ''{'' + (if opening_linenum = end_linenum then end_pos else 0);
          (closing_line, closing_linenum, closing_pos) \<leftarrow> CloseExpression clean_lines opening_linenum (nat opening_pos);
          if closing_pos < 0 then Some []
          else do {
            raw \<leftarrow> py_nth (raw_lines clean_lines) (int opening_linenum);
            if raw \<noteq> CleanseComments raw then Some []
            else do {
              body \<leftarrow> conditional_body clean_lines opening_linenum opening_pos closing_linenum closing_pos;
              Some (report_if (found EMPTY_CONDITIONAL_BODY_PATTERN body \<and>
                  \<not> else_follows ls closing_linenum (py_from closing_line closing_pos))
                (mk_error filename (int end_linenum) ''whitespace/empty_if_body'' 4
                  ''If statement had no body and no else clause''))
            }
          }
        })"

definition CheckEmptyBlockBody :: "string \<Rightarrow> cleansed_lines \<Rightarrow> nat \<Rightarrow> diag list option" where
  "CheckEmptyBlockBody filename clean_lines linenum = do {
     line \<leftarrow> py_nth (elided clean_lines) (int linenum);
     (case re_match re_loop_or_if line of
        None \<Rightarrow> Some []
      | Some matched \<Rightarrow> do {
          (end_line, end_linenum, end_pos) \<leftarrow> CloseExpression clean_lines linenum (nat (py_find line ''(''));
          empty \<leftarrow> (if end_pos \<ge> 0 \<and> group_text matched 1 = ''if''
                   then check_empty_if filename clean_lines end_line end_linenum end_pos else Some []);
          Some ((if end_pos \<ge> 0 \<and> matches re_semicolon_at (py_from end_line end_pos) then
              [if group_text matched 1 = ''if'' then
                 mk_error filename (int end_linenum) ''whitespace/empty_conditional_body'' 5
                   ''Empty conditional bodies should use {}''
               else mk_error filename (int end_linenum) ''whitespace/empty_loop_body'' 5
                   ''Empty loop bodies should use {} or continue'']
            else []) @ empty)
        })
   }"

section \<open>Soundness\<close>

lemma GetPreviousNonBlankLine_returns:
  assumes "well_formed cl" "n < NumLines cl"
  obtains line k where "GetPreviousNonBlankLine cl n = Some (line, k)"
  using previous_nonblank_returns [of n "elided cl"] assms by (auto simp: GetPreviousNonBlankLine_def cl_lengths)

lemma previous_line_sound:
  assumes "well_formed cl" "n < NumLines cl" "\<And>line k. sound filename cl (f (line, k))"
  shows "sound filename cl (GetPreviousNonBlankLine cl n \<bind> f)"
proof -
  obtain line k where "GetPreviousNonBlankLine cl n = Some (line, k)" using assms(1,2) by (rule GetPreviousNonBlankLine_returns)
  with assms(3) show ?thesis by simp
qed

lemma find_from_less: "find_from s sub i = Some k \<Longrightarrow> sub \<noteq> [] \<Longrightarrow> k < length s"
  using find_sub_Some [of "drop i s" sub "k - i"] by (cases sub) (auto simp: find_from_def split: if_splits)

lemma py_find_from_pos: "0 < py_find_from s sub i \<Longrightarrow> sub \<noteq> [] \<Longrightarrow> nat (py_find_from s sub i) < length s"
  using find_from_less by (auto simp: py_find_from_def split: option.splits)

lemma check_else_braces_sound:
  assumes "well_formed cl" "n < NumLines cl"
  shows "sound filename cl (check_else_braces filename cl n (elided cl ! n))"
proof -
  define pos where "pos = py_find_from (elided cl ! n) ''('' (py_find (elided cl ! n) ''else if'')"
  have "sound filename cl (CloseExpression cl n (nat pos) \<bind> f)" if "0 < pos" "\<And>r. sound filename cl (f r)" for f
    using that CloseExpression_at [OF assms py_find_from_pos [of "elided cl ! n"]] by (metis bind.bind_lunit list.distinct(1) pos_def)
  with assms(2) show ?thesis by (auto simp: check_else_braces_def Let_def simp flip: pos_def)
qed


lemma semicolon_line_le: "semicolon_line ls i pos \<le> max i (length ls)"
  by (induction ls i pos rule: semicolon_line.induct) (subst semicolon_line.simps, auto)

lemma check_single_statement_diags:
  "n < NumLines cl \<Longrightarrow> list_all (file_diag filename cl) (check_single_statement filename n b k ls e)"
  by (simp add: check_single_statement_def Let_def)

lemma if_paren_column: "re_search re_if_paren line = Some m \<Longrightarrow> m_end m - 1 < length line"
  using re_search_last [of "[WordB, rlit ''if'', spaces]" "CHR ''(''" line m] by (auto simp: re_if_paren_def)

lemma brace_follows_returns: "\<exists>b. brace_follows ls k rest = Some b"
proof (cases "k < length ls - 1")
  case True
  then have "int k + 1 < int (length ls)" by linarith
  then obtain l where "py_nth ls (int k + 1) = Some l" using py_nth_Some [of ls "int k + 1"] by auto
  then show ?thesis by (simp add: brace_follows_def ex_bool_eq)
qed (simp add: brace_follows_def ex_bool_eq)

lemma check_body_sound: "n < NumLines cl \<Longrightarrow> sound filename cl (check_body filename cl n line r)"
  using brace_follows_returns [of "elided cl"]
  by (cases r) (auto simp: check_single_statement_diags intro!: sound_lookup)

lemma check_if_else_body_sound:
  assumes "well_formed cl" "n < NumLines cl"
  shows "sound filename cl (check_if_else_body filename cl n (elided cl ! n))"
proof -
  have "sound filename cl (CloseExpression cl n (m_end m - 1) \<bind> check_body filename cl n (elided cl ! n))"
    if "re_search re_if_paren (elided cl ! n) = Some m" for m
  proof -
    from CloseExpression_at [OF assms if_paren_column [OF that]] obtain r where "CloseExpression cl n (m_end m - 1) = Some r" by blast
    then show ?thesis by (simp add: check_body_sound [OF assms(2)])
  qed
  then show ?thesis
    by (auto simp: check_if_else_body_def check_body_sound [OF assms(2)] split: option.split simp del: check_body.simps)
qed

interpretation braces: file_check "\<lambda>_ _. True" "CheckBraces line_length" for line_length
proof
  fix cl :: cleansed_lines and n filename
  assume cl: "well_formed cl" "n < NumLines cl"
  have open_brace: "sound filename cl (check_open_brace line_length filename cl n (elided cl ! n))"
    by (simp add: check_open_brace_def cl previous_line_sound)
  have else_line: "sound filename cl (check_else_line filename cl n (elided cl ! n))"
    by (simp add: check_else_line_def cl previous_line_sound)
  show "sound filename cl (CheckBraces line_length filename cl n)"
    unfolding CheckBraces_def cl_lines(1) [OF cl] Option.bind.bind_lunit
    by (rule sound_run_all)
      (simp add: open_brace else_line check_else_braces_sound [OF cl] check_if_else_body_sound [OF cl] cl(2))
qed

section \<open>Soundness of effects\<close>

text \<open>
  A check that also suppresses: the suppressions it registers are for all categories or a listed one.
\<close>

definition file_effect :: "string \<Rightarrow> cleansed_lines \<Rightarrow> effect \<Rightarrow> bool" where
  "file_effect filename cl e = (case e of
     Report d \<Rightarrow> file_diag filename cl d
   | Suppress key l \<Rightarrow> key \<in> insert None (Some ` set ERROR_CATEGORIES))"

lemma file_effect_simps [simp]:
  "file_effect filename cl (Report d) \<longleftrightarrow> file_diag filename cl d"
  "file_effect filename cl (Suppress key l) \<longleftrightarrow> key = None \<or> (\<exists>c \<in> set ERROR_CATEGORIES. key = Some c)"
  by (auto simp: file_effect_def)

lemma ParseNolintSuppressions_effects:
  "-1 \<le> l \<Longrightarrow> l < int (NumLines cl) \<Longrightarrow> list_all (file_effect filename cl) (ParseNolintSuppressions filename line l)"
  using ParseNolintSuppressions_cases [of filename line l] by auto

definition effects_sound :: "string \<Rightarrow> cleansed_lines \<Rightarrow> effect list option \<Rightarrow> bool" where
  "effects_sound filename cl r \<longleftrightarrow> (\<exists>es. r = Some es \<and> list_all (file_effect filename cl) es)"

lemma effects_sound_Some [simp]: "effects_sound filename cl (Some es) \<longleftrightarrow> list_all (file_effect filename cl) es"
  by (simp add: effects_sound_def)

lemma paren_brace_groups:
  assumes "re_match re_paren_brace line = Some m"
  shows "length (group_text m 1) < length line" "CHR '')'' \<in> set (group_text m 1)" "starts_with line (group_text m 1)"
proof -
  obtain v where v: "line = group_text m 1 @ CHR ''{'' # v"
      "(([], line), (rev (group_text m 1), CHR ''{'' # v)) \<in> re_rel (rseq [Star rdot, rchr (CHR '')''), spaces])"
    using re_match_group1 [OF assms [unfolded re_paren_brace_def]] by auto
  show "length (group_text m 1) < length line" "starts_with line (group_text m 1)" using v(1) starts_with_iff by (metis length_append less_add_Suc1 list.size(4) add_Suc_right, blast)
  from v(2) obtain p q p' where "(([], line), (p, CHR '')'' # q)) \<in> re_rel (Star rdot)"
      "((CHR '')'' # p, q), (rev (group_text m 1), CHR ''{'' # v)) \<in> re_rel spaces" by auto
  then obtain w where "rev (group_text m 1) = rev w @ CHR '')'' # p" using re_relD by blast
  then have "CHR '')'' \<in> set (rev (group_text m 1))" by simp
  then show "CHR '')'' \<in> set (group_text m 1)" by simp
qed

lemma else_or_const_column: "re_match re_else_or_const line = Some m \<Longrightarrow> length (group_text m 1) < length line"
  unfolding re_else_or_const_def by (drule re_match_group1) auto

lemma brace_first_column: "re_match re_brace_first line = Some m \<Longrightarrow> length (group_text m 1) < length line"
  unfolding re_brace_first_def by (drule re_match_group1) auto

lemma block_before_brace_returns:
  assumes "well_formed cl" "n < NumLines cl"
  shows "\<exists>b. block_before_brace cl n (elided cl ! n) = Some b \<and> (\<forall>prefix. b = Some prefix \<longrightarrow> length prefix < length (elided cl ! n))"
proof (cases "re_match re_paren_brace (elided cl ! n)")
  case (Some m)
  note groups = paren_brace_groups [OF Some]
  have "nat (py_rfind (group_text m 1) (CHR '')'')) < length (elided cl ! n)"
    using rfind1_pos [OF groups(2)] rfind1_length [of "CHR '')''" "group_text m 1"] groups(1) by (simp add: py_rfind_def)
  then obtain t k p where close: "ReverseCloseExpression cl n (nat (py_rfind (group_text m 1) (CHR '')''))) = Some (t, k, p)"
      and "open_pointer cl n (t, k, p)" using ReverseCloseExpression_at [OF assms] by metis
  then have k: "k \<le> n" by (auto simp: open_pointer_def)
  have "k < length (elided cl)" using k assms by (simp add: cl_lengths)
  then obtain l where "py_nth (elided cl) (int k - 1) = Some l" using py_nth_pred by blast
  with close Some groups(1) show ?thesis by (simp add: block_before_brace_def Let_def)
next
  case None
  obtain line k where "GetPreviousNonBlankLine cl n = Some (line, k)" using assms by (rule GetPreviousNonBlankLine_returns)
  with None show ?thesis
    by (auto simp: block_before_brace_def dest: else_or_const_column brace_first_column split: option.split)
qed

lemma CheckTrailingSemicolon_effects:
  assumes "well_formed cl" "n < NumLines cl"
  shows "effects_sound filename cl (CheckTrailingSemicolon filename cl n)"
proof -
  obtain b where b: "block_before_brace cl n (elided cl ! n) = Some b"
      "\<And>prefix. b = Some prefix \<Longrightarrow> length prefix < length (elided cl ! n)"
    using block_before_brace_returns [OF assms] by blast
  show ?thesis
  proof (cases b)
    case (Some prefix)
    obtain line k p where close: "CloseExpression cl n (length prefix) = Some (line, k, p)" "close_pointer cl n (line, k, p)"
      using CloseExpression_at [OF assms b(2) [OF Some]] .
    show ?thesis
    proof (cases "p = -1")
      case False
      with close(2) have k: "k < length (raw_lines cl)" "k < NumLines cl" using assms(1) by (auto simp: close_pointer_def cl_lengths)
      then have "py_nth (raw_lines cl) (int k) = Some (raw_lines cl ! k)" by simp
      with k py_nth_pred [OF k(1)] b(1) close(1) Some assms show ?thesis
        by (simp add: CheckTrailingSemicolon_def cl_lines ParseNolintSuppressions_effects del: py_nth_nat)
    qed (use b(1) close(1) Some assms in \<open>simp add: CheckTrailingSemicolon_def cl_lines del: py_nth_nat\<close>)
  qed (use b(1) assms in \<open>simp add: CheckTrailingSemicolon_def cl_lines del: py_nth_nat\<close>)
qed

lemma find_opening_Some:
  "find_opening ls i f = Some (k, g) \<Longrightarrow> CHR ''{'' \<in> set g \<and> (k = i \<and> g = f \<or> i < k \<and> k < length ls \<and> g = ls ! k)"
proof (induction ls i f rule: find_opening.induct)
  case (1 ls i f)
  have "found re_opens_block f \<Longrightarrow> CHR ''{'' \<in> set f"
  proof -
    assume "found re_opens_block f"
    then obtain m where "re_search re_opens_block f = Some m" by (auto simp: found_def)
    moreover have "re_opens_block = rseq ([Bol, spaces] @ [rchr (CHR ''{'')])" by (simp add: re_opens_block_def)
    ultimately show ?thesis using re_search_last by (metis nth_mem)
  qed
  with 1 show ?case by (subst (asm) (2) find_opening.simps) (force split: if_splits)
qed

lemma py_find_in: "c \<in> set s \<Longrightarrow> \<exists>k. py_find s [c] = int k \<and> k < length s \<and> s ! k = c"
proof (cases "find_sub s [c]")
  case (Some k)
  with find_sub_char_Some [of s c k] show ?thesis by (simp add: py_find_def)
qed simp

lemma conditional_body_returns:
  assumes "well_formed cl" "i < NumLines cl" "k < NumLines cl"
  shows "\<exists>b. conditional_body cl i p k q = Some b"
  by (simp add: conditional_body_def cl_lines assms del: py_nth_nat)

lemma check_empty_if_sound:
  assumes cl: "well_formed cl" "n < NumLines cl" and close: "close_pointer cl n (line, k, p)" "0 \<le> p"
  shows "sound filename cl (check_empty_if filename cl line k p)"
proof (cases "find_opening (elided cl) k (py_from line p)")
  case (Some r)
  obtain i f where r: "r = (i, f)" by force
  from close have k: "k < NumLines cl" "line = elided cl ! k" "p \<le> int (length line)" by (auto simp: close_pointer_def)
  note op = find_opening_Some [OF Some [unfolded r]]
  then obtain j where j: "py_find f ''{'' = int j" "j < length f" using py_find_in by blast
  define q where "q = nat (py_find f ''{'' + (if i = k then p else 0))"
  have q: "py_find f ''{'' + (if i = k then p else 0) = int q" using j close(2) by (simp add: q_def)
  have i: "i < NumLines cl" "q < length (elided cl ! i)"
    using op k j close(2) cl(1) by (auto simp: q_def cl_lengths py_from_def slice_pos_def split: if_splits)
  obtain l k' p' where close': "CloseExpression cl i q = Some (l, k', p')" "close_pointer cl i (l, k', p')"
    using CloseExpression_at [OF cl(1) i] .
  show ?thesis
  proof (cases "p' < 0")
    case False
    with close'(2) have "k' < NumLines cl" by (auto simp: close_pointer_def)
    then obtain b where "conditional_body cl i (int q) k' p' = Some b" using conditional_body_returns [OF cl(1) i(1)] by blast
    with False Some r close'(1) k(1) i(1) show ?thesis
      by (simp add: check_empty_if_def Let_def cl_lines [OF cl(1)] q del: py_nth_nat)
  qed (use Some r close'(1) in \<open>simp add: check_empty_if_def Let_def q\<close>)
qed (simp add: check_empty_if_def)

interpretation empty_blocks: file_check "\<lambda>_ _. True" CheckEmptyBlockBody
proof
  fix cl :: cleansed_lines and n filename
  assume cl: "well_formed cl" "n < NumLines cl"
  show "sound filename cl (CheckEmptyBlockBody filename cl n)"
  proof (cases "re_match re_loop_or_if (elided cl ! n)")
    case (Some m)
    have "CHR ''('' \<in> set (elided cl ! n)"
      using re_match_char [of "[spaces, Grp 1 (ralt [rlit ''for'', rlit ''while'', rlit ''if'']), spaces]" "CHR ''(''" "[]"] Some
      by (simp add: re_loop_or_if_def)
    then have "nat (py_find (elided cl ! n) ''('') < length (elided cl ! n)" using py_find_in by fastforce
    then obtain l k p where close: "CloseExpression cl n (nat (py_find (elided cl ! n) ''('')) = Some (l, k, p)"
        "close_pointer cl n (l, k, p)" using CloseExpression_at [OF cl] by metis
    then have k: "0 \<le> p \<Longrightarrow> k < NumLines cl" by (auto simp: close_pointer_def)
    show ?thesis
    proof (cases "0 \<le> p \<and> group_text m 1 = ''if''")
      case True
      with check_empty_if_sound [OF cl close(2), of filename] obtain ds
        where "check_empty_if filename cl l k p = Some ds" "list_all (file_diag filename cl) ds" by (auto elim: soundE)
      with True Some close(1) k cl show ?thesis by (simp add: CheckEmptyBlockBody_def cl_lines del: py_nth_nat)
    qed (use Some close(1) k cl in \<open>auto simp: CheckEmptyBlockBody_def cl_lines simp del: py_nth_nat\<close>)
  qed (use cl in \<open>simp add: CheckEmptyBlockBody_def cl_lines del: py_nth_nat\<close>)
qed

end
