(* ===== verification/StyleChecks.thy ===== *)
theory StyleChecks
  imports Braces Paths
begin

text \<open>
  \<open>CheckStyle\<close> of \<open>cpplint.py\<close> with the checks that only it calls: the use of the test macros
  (\<open>FindCheckMacro\<close>, \<open>CheckCheck\<close>), the alternative tokens (\<open>CheckAltTokens\<close>), indentation, line
  ends and line length. \<open>CheckStyle\<close> yields effects, since \<open>CheckTrailingSemicolon\<close> reads
  NOLINT comments.
\<close>

section \<open>Test macros\<close>

definition re_check_macro :: "string \<Rightarrow> re" where
  "re_check_macro macro =
     rseq [Bol, Grp 1 (rseq [Star rdot, WordB, rlit macro, spaces]), rchr (CHR ''('')]"

definition re_semicolon_follows :: re where
  "re_semicolon_follows = rseq [spaces, rchr (CHR '';'')]"

definition re_operator_token :: re where
  "re_operator_token =
     rseq [Bol, spaces, Grp 1 (ralt [rlit ''<<'', rlit ''<<='', rlit ''>>'', rlit ''>>='', rlit ''->*'',
       rlit ''->'', rlit ''&&'', rlit ''||'', rlit ''=='', rlit ''!='', rlit ''>='', rchr (CHR ''>''),
       rlit ''<='', rchr (CHR ''<''), rchr (CHR ''('')]), Grp 2 (Star rdot), Eol]"

definition re_operand :: re where
  "re_operand = rseq [Bol, Grp 1 (rplus (none_of ''-=!<>()&|'')), Grp 2 (Star rdot), Eol]"

definition re_operand_char :: re where
  "re_operand_char = rseq [Bol, Grp 1 (rseq [spaces, rnonspace]), Grp 2 (Star rdot), Eol]"

definition re_constant :: re where
  "re_constant =
     rseq [Bol, Grp 1 (ralt [rseq [ropt (one_of ''-+''), Grp 2 (ralt [rplus rdigit, rseq [rchr (CHR ''0''),
       one_of ''xX'', rplus (Cls (\<lambda>c. py_digit c \<or> c \<in> set ''abcdefABCDEF''))]]),
       ropt (Seq (one_of ''lLuU'') (ropt (Seq (one_of ''lLuU'') (ropt (one_of ''lLuU'')))))], rseq [rchr DQ,
       Star rdot, rchr DQ], rseq [rchr SQ, Star rdot, rchr SQ]]), Eol]"

fun find_macro :: "string \<Rightarrow> string list \<Rightarrow> (string \<times> nat) option" where
  "find_macro line [] = None"
| "find_macro line (macro # macros) =
     (if contains line macro then
        case re_match (re_check_macro macro) line of
          None \<Rightarrow> find_macro line macros
        | Some matched \<Rightarrow> Some (macro, length (group_text matched 1))
      else find_macro line macros)"

definition FindCheckMacro :: "string \<Rightarrow> (string \<times> nat) option" where
  "FindCheckMacro line = find_macro line CHECK_MACROS"

lemma re_match_two:
  assumes "re_match (rseq (pre @ [Grp 1 b, Grp 2 c, Eol])) s = Some m" "list_all groupless pre" "groupless b" "groupless c"
  shows "\<exists>u rest. s = u @ group_text m 1 @ group_text m 2 @ rest \<and> (rest = [] \<or> rest = [LF]) \<and>
    (([], s), (rev u, group_text m 1 @ group_text m 2 @ rest)) \<in> re_rel (rseq pre) \<and>
    ((rev u, group_text m 1 @ group_text m 2 @ rest), (rev (group_text m 1) @ rev u, group_text m 2 @ rest)) \<in> re_rel b"
  using assms by (rule re_match_groups2) blast

definition check_tokens :: "string list" where
  "check_tokens = [''<<'', ''<<='', ''>>'', ''>>='', ''->*'', ''->'', ''&&'', ''||'', ''=='', ''!='', ''>='', ''>'', ''<='', ''<'', ''('']"

lemma operator_token_text:
  assumes "re_match re_operator_token s = Some m"
  obtains u rest where "s = u @ group_text m 1 @ group_text m 2 @ rest" "rest = [] \<or> rest = [LF]" "list_all py_space u"
    "group_text m 1 \<in> set check_tokens"
proof -
  obtain u rest where *: "s = u @ group_text m 1 @ group_text m 2 @ rest" "rest = [] \<or> rest = [LF]"
      "(([], s), (rev u, group_text m 1 @ group_text m 2 @ rest)) \<in> re_rel (rseq [Bol, spaces])"
      "((rev u, group_text m 1 @ group_text m 2 @ rest), (rev (group_text m 1) @ rev u, group_text m 2 @ rest)) \<in>
         re_rel (ralt [rlit ''<<'', rlit ''<<='', rlit ''>>'', rlit ''>>='', rlit ''->*'', rlit ''->'', rlit ''&&'',
           rlit ''||'', rlit ''=='', rlit ''!='', rlit ''>='', rchr (CHR ''>''), rlit ''<='', rchr (CHR ''<''), rchr (CHR ''('')])"
    using re_match_two [of "[Bol, spaces]", simplified append_Cons append_Nil, OF assms [unfolded re_operator_token_def]] by auto
  from *(3,1) have "list_all py_space u" by (auto simp: spaces_def rspace_def)
  moreover from *(4) have "group_text m 1 \<in> set check_tokens" by (auto simp: rel_rlit check_tokens_def)
  ultimately show ?thesis using that *(1,2) by blast
qed

lemma operand_groups:
  assumes "re_match (rseq [Bol, Grp 1 b, Grp 2 (Star rdot), Eol]) s = Some m" "groupless b"
  shows "\<exists>rest. s = group_text m 1 @ group_text m 2 @ rest \<and> (rest = [] \<or> rest = [LF]) \<and>
    (([], s), (rev (group_text m 1), group_text m 2 @ rest)) \<in> re_rel b"
  using re_match_two [of "[Bol]" b "Star rdot", simplified append_Cons append_Nil, OF assms(1)] assms(2) by auto

lemma operand_text:
  assumes "re_match re_operand s = Some m \<or> re_match re_operand_char s = Some m"
  obtains rest where "s = group_text m 1 @ group_text m 2 @ rest" "rest = [] \<or> rest = [LF]" "group_text m 1 \<noteq> []"
proof -
  from assms consider "re_match re_operand s = Some m" | "re_match re_operand_char s = Some m" by blast
  then show ?thesis
  proof cases
    case 1
    from operand_groups [OF 1 [unfolded re_operand_def]] that show ?thesis by (auto simp: rplus_def none_of_def)
  next
    case 2
    from operand_groups [OF 2 [unfolded re_operand_char_def]] that show ?thesis by (auto simp: rnonspace_def)
  qed
qed

lemma operator_token_shorter: "re_match re_operator_token s = Some m \<Longrightarrow> length (group_text m 2) < length s"
  by (erule operator_token_text) (auto simp: check_tokens_def)

lemma operand_shorter: "re_match re_operand s = Some m \<or> re_match re_operand_char s = Some m \<Longrightarrow> length (group_text m 2) < length s"
proof (erule operand_text)
  fix rest assume "s = group_text m 1 @ group_text m 2 @ rest" "group_text m 1 \<noteq> []"
  from arg_cong [OF this(1), of length] this(2) show ?thesis by simp
qed

text \<open>
  The loop over the condition: what is left of the first relational operator, the operator, and the
  rest. \<open>None\<close> is a condition that the check leaves alone.
\<close>

function check_operands :: "string \<Rightarrow> string \<Rightarrow> (string \<times> string option \<times> string) option" where
  "check_operands lhs expression =
     (if expression = [] then Some (lhs, None, [])
      else case re_match re_operator_token expression of
        Some matched \<Rightarrow>
          let token = group_text matched 1; rest = group_text matched 2 in
          if token = ''('' then
            let e = fst (FindEndOfExpressionInLine rest 0 ''('') in
            if e < 0 then None else check_operands (lhs @ ''('' @ take (nat e) rest) (drop (nat e) rest)
          else if token \<in> {''&&'', ''||''} then None
          else if token \<in> {''<<'', ''<<='', ''>>'', ''>>='', ''->*'', ''->''} then check_operands (lhs @ token) rest
          else Some (lhs, Some token, rest)
      | None \<Rightarrow>
          (case re_match re_operand expression of
             Some matched \<Rightarrow> check_operands (lhs @ group_text matched 1) (group_text matched 2)
           | None \<Rightarrow>
               (case re_match re_operand_char expression of
                  None \<Rightarrow> Some (lhs, None, [])
                | Some matched \<Rightarrow> check_operands (lhs @ group_text matched 1) (group_text matched 2))))"
  by pat_completeness auto
termination
  by (relation "measure (\<lambda>(lhs, expression). length expression)")
    (auto simp: operator_token_shorter operand_shorter less_imp_diff_less)

declare check_operands.simps [simp del]

text \<open>The condition of the macro, which may go on over the lines that follow.\<close>

definition check_expression ::
  "string list \<Rightarrow> nat \<Rightarrow> nat \<Rightarrow> string \<Rightarrow> nat \<Rightarrow> int \<Rightarrow> string option" where
  "check_expression ls linenum start_pos end_text end_line end_pos = do {
     line \<leftarrow> py_nth ls (int linenum);
     if linenum = end_line then Some (py_slice line (int start_pos + 1) (end_pos - 1))
     else do {
       between \<leftarrow> text_of_lines ls [linenum + 1 ..< end_line];
       Some (py_from line (int start_pos + 1) @ between @ py_upto end_text (end_pos - 1))
     }
   }"

definition check_replacement :: "string \<Rightarrow> nat \<Rightarrow> string \<Rightarrow> string \<Rightarrow> diag list option" where
  "check_replacement filename linenum check_macro expression =
     (case check_operands [] expression of
        Some (lhs, Some operator, rhs) \<Rightarrow>
          if lhs = [] \<or> rhs = [] \<or> contains rhs ''&&'' \<or> contains rhs ''||'' then Some []
          else if matches re_constant (strip lhs) \<or> matches re_constant (strip rhs) then do {
            replacements \<leftarrow> map_of CHECK_REPLACEMENT check_macro;
            replacement \<leftarrow> map_of replacements operator;
            Some [mk_error filename (int linenum) ''readability/check'' 2
              (''Consider using '' @ replacement @ '' instead of '' @ check_macro @ ''(a '' @ operator @ '' b)'')]
          } else Some []
      | _ \<Rightarrow> Some [])"

definition CheckCheck :: "string \<Rightarrow> cleansed_lines \<Rightarrow> nat \<Rightarrow> diag list option" where
  "CheckCheck filename clean_lines linenum = do {
     line \<leftarrow> py_nth (elided clean_lines) (int linenum);
     (case FindCheckMacro line of
        None \<Rightarrow> Some []
      | Some (check_macro, start_pos) \<Rightarrow> do {
          (end_text, end_line, end_pos) \<leftarrow> CloseExpression clean_lines linenum start_pos;
          if end_pos < 0 \<or> \<not> matches re_semicolon_follows (py_from end_text end_pos) then Some []
          else do {
            expression \<leftarrow> check_expression (elided clean_lines) linenum start_pos end_text end_line end_pos;
            check_replacement filename linenum check_macro expression
          }
        })
   }"

section \<open>Alternative tokens\<close>

definition re_preprocessor_line :: re where
  "re_preprocessor_line = rseq [Bol, spaces, rchr (CHR ''#'')]"

fun alt_token_diags :: "string \<Rightarrow> nat \<Rightarrow> match_obj list \<Rightarrow> diag list option" where
  "alt_token_diags filename linenum [] = Some []"
| "alt_token_diags filename linenum (m # ms) = do {
     replacement \<leftarrow> map_of ALT_TOKEN_REPLACEMENT (group_text m 1);
     ds \<leftarrow> alt_token_diags filename linenum ms;
     Some (mk_error filename (int linenum) ''readability/alt_tokens'' 2
       (''Use operator '' @ replacement @ '' instead of '' @ group_text m 1) # ds)
   }"

definition CheckAltTokens :: "string \<Rightarrow> cleansed_lines \<Rightarrow> nat \<Rightarrow> diag list option" where
  "CheckAltTokens filename clean_lines linenum = do {
     line \<leftarrow> py_nth (elided clean_lines) (int linenum);
     if matches re_preprocessor_line line \<or> contains line ''/*'' \<or> contains line ''*/'' then Some []
     else alt_token_diags filename linenum (re_finditer ALT_TOKEN_REPLACEMENT_PATTERN line)
   }"

section \<open>The checks of one line\<close>

text \<open>
  What the checks take from the command line and the surroundings. Python iterates over the sets of
  extensions in an order that it leaves open: the two orders are part of the configuration.
\<close>

record config =
  extensions :: extension_options
  paths :: path_env
  root_option :: "string option"
  repository_option :: "string option"
  line_length :: int
  header_order :: "string list"
  source_order :: "string list"

definition re_scope_or_label :: re where
  "re_scope_or_label = rseq [spaces, rplus rword, spaces, rchr (CHR '':''), spaces, ropt (rchr BSL), Eol]"

definition re_continued_expression :: re where
  "re_continued_expression = rseq [one_of ([DQ] @ '',=><''), Star (rchr (CHR '' '')), Eol]"

definition re_empty_string_first :: re where
  "re_empty_string_first = rseq [Bol, spaces, rlit ([DQ] @ [DQ])]"

definition re_url_comment :: re where
  "re_url_comment =
     rseq [Bol, spaces, rlit ''//'', Star rdot, rlit ''http'', Grp 1 (ropt (rchr (CHR ''s''))), rlit ''://'',
       Star rnonspace, Eol]"

definition re_one_word_comment :: re where
  "re_one_word_comment =
     rseq [Bol, spaces, rlit ''//'', spaces, Star (Cls (\<lambda>c. \<not> (py_space c))), Eol]"

definition re_id_comment :: re where
  "re_id_comment = rseq [Bol, rlit ''// $Id:'', Star rdot, rchr (CHR ''#''), rplus rdigit, rlit '' $'', Eol]"

definition re_doxygen_copy :: re where
  "re_doxygen_copy =
     rseq [Bol, spaces, rlit ''/// '', one_of (''@'' @ [BSL]), Grp 1 (rseq [rlit ''copy'', ralt [rlit ''doc'',
       rlit ''details'', rlit ''brief'']]), rchr (CHR '' ''), Star rdot, Eol]"

definition re_simple_lambda :: re where
  "re_simple_lambda =
     rseq [Bol, Star (none_of ''{};''), rchr (CHR ''[''), Star (none_of ''[]''), rchr (CHR '']''),
       Star (none_of ''{}''), rchr (CHR ''{''), Star (none_of (''{}'' @ [LF] @ [CR])), rchr (CHR ''}'')]"

definition check_indent :: "string \<Rightarrow> nat \<Rightarrow> string \<Rightarrow> string \<Rightarrow> string \<Rightarrow> string \<Rightarrow> diag list" where
  "check_indent filename linenum prev raw line cleansed_line =
     (let initial_spaces = length (takeWhile (\<lambda>c. c = CHR '' '') line) in
      report_if (\<not> found re_continued_expression prev \<and> (initial_spaces = 1 \<or> initial_spaces = 3) \<and>
          \<not> matches re_scope_or_label cleansed_line \<and> \<not> (raw \<noteq> line \<and> matches re_empty_string_first line))
        (mk_error filename (int linenum) ''whitespace/indent'' 3
          (''Weird number of spaces at line-start.  '' @ ''Are you using a 2-space indent?'')))"

definition is_header_guard :: "config \<Rightarrow> string \<Rightarrow> string \<Rightarrow> string \<Rightarrow> bool option" where
  "is_header_guard cfg filename file_extension line =
     (if IsHeaderExtension (extensions cfg) file_extension then do {
        cppvar \<leftarrow> GetHeaderGuardCPPVariable (paths cfg) (root_option cfg) (repository_option cfg) filename;
        Some (starts_with line (''#ifndef '' @ cppvar) \<or> starts_with line (''#define '' @ cppvar) \<or>
          starts_with line (''#endif  // '' @ cppvar))
      } else Some False)"

definition check_line_length :: "config \<Rightarrow> string \<Rightarrow> nat \<Rightarrow> string \<Rightarrow> string \<Rightarrow> diag list option" where
  "check_line_length cfg filename linenum file_extension line = do {
     guard \<leftarrow> is_header_guard cfg filename file_extension line;
     Some (report_if (\<not> starts_with line ''#include'' \<and> \<not> guard \<and> \<not> matches re_url_comment line \<and>
         \<not> matches re_one_word_comment line \<and> \<not> matches re_id_comment line \<and> \<not> matches re_doxygen_copy line \<and>
         int (GetLineWidth line) > line_length cfg)
       (mk_error filename (int linenum) ''whitespace/line_length'' 2
         (''Lines should be <= '' @ show_int (line_length cfg) @ '' characters long'')))
   }"

definition check_one_command :: "string \<Rightarrow> cleansed_lines \<Rightarrow> nat \<Rightarrow> string \<Rightarrow> string \<Rightarrow> diag list option" where
  "check_one_command filename clean_lines linenum line cleansed_line =
     (if count_sub cleansed_line '';'' > 1 \<and> \<not> matches re_simple_lambda line \<and> \<not> contains cleansed_line ''for'' then do {
        (previous, _) \<leftarrow> GetPreviousNonBlankLine clean_lines linenum;
        Some (report_if ((\<not> contains previous ''for'' \<or> contains previous '';'') \<and>
            \<not> ((contains cleansed_line ''case '' \<or> contains cleansed_line ''default:'') \<and> contains cleansed_line ''break;''))
          (mk_error filename (int linenum) ''whitespace/newline'' 0 ''More than one command on the same line''))
      } else Some [])"

definition check_line_style :: "config \<Rightarrow> string \<Rightarrow> cleansed_lines \<Rightarrow> nat \<Rightarrow> string \<Rightarrow> diag list option" where
  "check_line_style cfg filename clean_lines linenum file_extension = do {
     let ls = lines_without_raw_strings clean_lines;
     line \<leftarrow> py_nth ls (int linenum);
     prev \<leftarrow> (if linenum > 0 then py_nth ls (int linenum - 1) else Some []);
     cleansed_line \<leftarrow> py_nth (elided clean_lines) (int linenum);
     raw \<leftarrow> py_nth (raw_lines clean_lines) (int linenum);
     run_all [
       Some (report_if (contains line [TAB])
           (mk_error filename (int linenum) ''whitespace/tab'' 1 ''Tab found; better to use spaces'')
         @ check_indent filename linenum prev raw line cleansed_line
         @ report_if (line \<noteq> [] \<and> py_space (last line))
           (mk_error filename (int linenum) ''whitespace/end_of_line'' 4
             ''Line ends in whitespace.  Consider deleting these extra spaces.'')),
       check_line_length cfg filename linenum file_extension line,
       check_one_command filename clean_lines linenum line cleansed_line]
   }"

definition check_class_section :: "string \<Rightarrow> nesting_state \<Rightarrow> cleansed_lines \<Rightarrow> nat \<Rightarrow> diag list option" where
  "check_class_section filename ns clean_lines linenum =
     (case InnermostClass ns of
        None \<Rightarrow> Some []
      | Some classinfo \<Rightarrow>
          (case b_kind classinfo of
             Class cls \<Rightarrow> CheckSectionSpacing filename classinfo cls clean_lines linenum
           | _ \<Rightarrow> Some []))"

definition CheckStyle :: "config \<Rightarrow> string \<Rightarrow> nesting_state \<Rightarrow> string \<Rightarrow> cleansed_lines \<Rightarrow> nat \<Rightarrow> effect list option" where
  "CheckStyle cfg filename ns file_extension clean_lines linenum = do {
     before \<leftarrow> and_then (check_line_style cfg filename clean_lines linenum file_extension)
       (CheckBraces (line_length cfg) filename clean_lines linenum);
     semicolon \<leftarrow> CheckTrailingSemicolon filename clean_lines linenum;
     after \<leftarrow> run_all [
       CheckEmptyBlockBody filename clean_lines linenum,
       CheckSpacing filename ns clean_lines linenum,
       CheckOperatorSpacing filename clean_lines linenum,
       CheckParenthesisSpacing filename clean_lines linenum,
       CheckCommaSpacing filename clean_lines linenum,
       CheckBracesSpacing filename ns clean_lines linenum,
       CheckSpacingForFunctionCall filename clean_lines linenum,
       CheckCheck filename clean_lines linenum,
       CheckAltTokens filename clean_lines linenum,
       check_class_section filename ns clean_lines linenum];
     Some (map Report before @ semicolon @ map Report after)
   }"

section \<open>The macro and its operands\<close>

lemma find_macro_Some:
  "find_macro line macros = Some (macro, p) \<Longrightarrow> macro \<in> set macros \<and> p < length line \<and> line ! p = CHR ''('' \<and>
     (\<exists>u w. take p line = u @ macro @ w \<and> list_all py_space w)"
proof (induction macros)
  case (Cons a macros)
  show ?case
  proof (cases "re_match (re_check_macro a) line")
    case (Some m)
    show ?thesis
    proof (cases "contains line a")
      case True
      have "\<exists>v. line = group_text m 1 @ CHR ''('' # v \<and>
          (([], line), (rev (group_text m 1), CHR ''('' # v)) \<in> re_rel (rseq [Star rdot, WordB, rlit a, spaces])"
        by (rule re_match_group1 [OF Some [unfolded re_check_macro_def]]) simp_all
      then obtain v where v: "line = group_text m 1 @ CHR ''('' # v"
          "(([], line), (rev (group_text m 1), CHR ''('' # v)) \<in> re_rel (rseq [Star rdot, WordB, rlit a, spaces])" by blast
      from v(2) obtain p1 q1 p2 q2 where "((p1, q1), (p2, q2)) \<in> re_rel (rlit a)"
          "((p2, q2), (rev (group_text m 1), CHR ''('' # v)) \<in> re_rel spaces" by auto
      then have "((rev a @ p1, q2), (rev (group_text m 1), CHR ''('' # v)) \<in> re_rel spaces" by (simp add: rel_rlit)
      then obtain w where "rev (group_text m 1) = rev w @ rev a @ p1" "list_all py_space w"
        by (auto simp: spaces_def rspace_def)
      from arg_cong [OF this(1), of rev] have "group_text m 1 = rev p1 @ a @ w" by simp
      with Cons.prems True Some v(1) \<open>list_all py_space w\<close> show ?thesis by (auto simp: nth_append) blast
    qed (use Cons in auto)
  qed (use Cons in \<open>auto split: if_splits\<close>)
qed simp

text \<open>
  \<open>FindCheckMacro\<close> returns the name of a listed macro and the column of an opening parenthesis that
  follows this name.
\<close>

theorem FindCheckMacro_position:
  assumes "FindCheckMacro line = Some (macro, p)"
  shows "macro \<in> set CHECK_MACROS \<and> p < length line \<and> line ! p = CHR ''('' \<and>
    (\<exists>u w. take p line = u @ macro @ w \<and> list_all py_space w)"
  using find_macro_Some assms unfolding FindCheckMacro_def .

definition relational_operators :: "string list" where
  "relational_operators = [''=='', ''!='', ''>='', ''>'', ''<='', ''<'']"

abbreviation squeeze :: "string \<Rightarrow> string" where
  "squeeze \<equiv> filter (\<lambda>c. \<not> py_space c)"

lemma squeeze_spaces: "list_all py_space u \<Longrightarrow> squeeze u = []"
  by (induction u) auto

lemma squeeze_rest: "rest = [] \<or> rest = [LF] \<Longrightarrow> squeeze rest = []"
proof -
  have "py_space LF" by code_simp
  then show "rest = [] \<or> rest = [LF] \<Longrightarrow> squeeze rest = []" by auto
qed

lemma operator_token_squeeze:
  assumes "re_match re_operator_token s = Some m"
  shows "squeeze s = squeeze (group_text m 1) @ squeeze (group_text m 2)"
proof (rule operator_token_text [OF assms])
  fix u rest
  assume s: "s = u @ group_text m 1 @ group_text m 2 @ rest" "rest = [] \<or> rest = [LF]" "list_all py_space u"
  from arg_cong [OF s(1), of squeeze] squeeze_rest [OF s(2)] squeeze_spaces [OF s(3)] show ?thesis by simp
qed

lemma operand_squeeze:
  assumes "re_match re_operand s = Some m \<or> re_match re_operand_char s = Some m"
  shows "squeeze s = squeeze (group_text m 1) @ squeeze (group_text m 2)"
proof (rule operand_text [OF assms])
  fix rest
  assume s: "s = group_text m 1 @ group_text m 2 @ rest" "rest = [] \<or> rest = [LF]"
  from arg_cong [OF s(1), of squeeze] squeeze_rest [OF s(2)] show ?thesis by simp
qed

lemma check_operands_split:
  "check_operands lhs e = Some (l, Some operator, r) \<Longrightarrow>
     squeeze (lhs @ e) = squeeze (l @ operator @ r) \<and> operator \<in> set relational_operators"
proof (induction lhs e rule: check_operands.induct)
  case (1 lhs e)
  show ?case
  proof (cases "re_match re_operator_token e")
    case (Some m)
    obtain u rest where t: "group_text m 1 \<in> set check_tokens" by (rule operator_token_text [OF Some])
    let ?token = "group_text m 1" and ?rest = "group_text m 2"
    have e: "e \<noteq> []" using operator_token_shorter [OF Some] by auto
    show ?thesis
    proof (cases "?token = ''(''")
      case True
      define k where "k = fst (FindEndOfExpressionInLine ?rest 0 ''('')"
      from 1(5) e Some True have k: "\<not> k < 0"
        "check_operands (lhs @ ''('' @ take (nat k) ?rest) (drop (nat k) ?rest) = Some (l, Some operator, r)"
        by (subst (asm) check_operands.simps, auto simp: Let_def k_def split: if_splits)+
      have "(lhs @ ''('' @ take (nat k) ?rest) @ drop (nat k) ?rest = lhs @ ''('' @ ?rest" by simp
      from 1(3) [OF e Some refl refl True k_def k(1,2), unfolded this] operator_token_squeeze [OF Some] True show ?thesis
        by (simp only: filter_append)
    next
      case False
      show ?thesis
      proof (cases "?token \<in> {''<<'', ''<<='', ''>>'', ''>>='', ''->*'', ''->''}")
        case shift: True
        then have "?token \<notin> {''&&'', ''||''}" by auto
        with 1(5) e Some False shift have "check_operands (lhs @ ?token) ?rest = Some (l, Some operator, r)"
          by (subst (asm) check_operands.simps) (auto simp: Let_def)
        from 1(4) [OF e Some refl refl False \<open>?token \<notin> {''&&'', ''||''}\<close> shift this] operator_token_squeeze [OF Some]
        show ?thesis by simp
      next
        case relational: False
        with 1(5) e Some False have "?token \<notin> {''&&'', ''||''}" "l = lhs" "operator = ?token" "r = ?rest"
          by (subst (asm) check_operands.simps, auto simp: Let_def split: if_splits)+
        with relational False t operator_token_squeeze [OF Some] show ?thesis
          by (auto simp: check_tokens_def relational_operators_def)
      qed
    qed
  next
    case None
    have e: "e \<noteq> []" using 1(5) by (subst (asm) check_operands.simps) (auto split: if_splits)
    show ?thesis
    proof (cases "re_match re_operand e")
      case (Some m)
      with 1(5) e None have "check_operands (lhs @ group_text m 1) (group_text m 2) = Some (l, Some operator, r)"
        by (subst (asm) check_operands.simps) simp
      from 1(2) [OF e None Some this] operand_squeeze [of e m] Some show ?thesis by simp
    next
      case no_operand: None
      with 1(5) e None obtain m where m: "re_match re_operand_char e = Some m"
          "check_operands (lhs @ group_text m 1) (group_text m 2) = Some (l, Some operator, r)"
        by (subst (asm) check_operands.simps) (auto split: option.splits)
      from 1(1) [OF e None no_operand m] operand_squeeze [of e m] m(1) show ?thesis by simp
    qed
  qed
qed


text \<open>C25: what \<open>CheckCheck\<close> takes apart: when the scan of the condition of a test macro finds a relational
  operator, the two operands and the operator are the condition up to white space, in this order.
\<close>

theorem check_operands_text:
  assumes "check_operands [] expression = Some (lhs, Some operator, rhs)"
  shows "squeeze expression = squeeze (lhs @ operator @ rhs) \<and> operator \<in> set relational_operators"
  using check_operands_split [OF assms] by simp

theorem check_operands_text_witness:
  "squeeze ''f(a == b) << 1 != 42 + c'' = squeeze (''f(a == b)<< 1 '' @ ''!='' @ '' 42 + c'') \<and>
     ''!='' \<in> set relational_operators"
proof (rule check_operands_text)
  show "check_operands [] ''f(a == b) << 1 != 42 + c'' = Some (''f(a == b)<< 1 '', Some ''!='', '' 42 + c'')" by code_simp
qed

section \<open>Soundness\<close>

lemma replacements_listed:
  "list_all (\<lambda>macro. list_all (\<lambda>operator. case map_of CHECK_REPLACEMENT macro of None \<Rightarrow> False
     | Some rs \<Rightarrow> map_of rs operator \<noteq> None) relational_operators) CHECK_MACROS"
  by code_simp

lemma replacement_listed:
  assumes "macro \<in> set CHECK_MACROS" "operator \<in> set relational_operators"
  shows "\<exists>rs r. map_of CHECK_REPLACEMENT macro = Some rs \<and> map_of rs operator = Some r"
  using replacements_listed assms by (fastforce simp: list_all_iff split: option.splits)

lemma check_replacement_sound:
  assumes "macro \<in> set CHECK_MACROS" "n < NumLines cl"
  shows "sound filename cl (check_replacement filename n macro e)"
proof (cases "\<exists>l operator r. check_operands [] e = Some (l, Some operator, r)")
  case True
  then obtain l operator r where split: "check_operands [] e = Some (l, Some operator, r)" by blast
  then have "operator \<in> set relational_operators" using check_operands_split by blast
  from replacement_listed [OF assms(1) this] split assms(2) show ?thesis
    by (auto simp: check_replacement_def)
qed (auto simp: check_replacement_def split: option.split prod.split)

interpretation check_macros: file_check "\<lambda>_ _. True" CheckCheck
proof
  fix cl :: cleansed_lines and n filename
  assume cl: "well_formed cl" "n < NumLines cl"
  show "sound filename cl (CheckCheck filename cl n)"
  proof (cases "FindCheckMacro (elided cl ! n)")
    case (Some r)
    then obtain macro p where r: "r = (macro, p)" "FindCheckMacro (elided cl ! n) = Some (macro, p)" by (cases r) auto
    from find_macro_Some [OF r(2) [unfolded FindCheckMacro_def]] have macro: "macro \<in> set CHECK_MACROS" "p < length (elided cl ! n)"
      by auto
    obtain l k q where close: "CloseExpression cl n p = Some (l, k, q)" "close_pointer cl n (l, k, q)"
      using CloseExpression_at [OF cl macro(2)] .
    have "q \<ge> 0 \<Longrightarrow> \<exists>e. check_expression (elided cl) n p l k q = Some e"
    proof -
      assume "q \<ge> 0"
      with close(2) have "list_all (\<lambda>i. i < length (elided cl)) [n + 1 ..< k]" using cl(1)
        by (auto simp: close_pointer_def list_all_iff cl_lengths)
      from text_of_lines_returns [OF this] show ?thesis using cl by (auto simp: check_expression_def cl_lines simp del: py_nth_nat)
    qed
    with r Some close(1) cl check_replacement_sound [OF macro(1) cl(2), of filename] show ?thesis
      by (cases "q < 0") (auto simp: CheckCheck_def cl_lines simp del: py_nth_nat)
  qed (use cl in \<open>simp add: CheckCheck_def cl_lines del: py_nth_nat\<close>)
qed


lemma rel_ralt_lits:
  "((p, w @ v), (rev w @ p, v)) \<in> re_rel (ralt (map (\<lambda>(tok, _). rlit tok) ts)) \<Longrightarrow> ts \<noteq> [] \<Longrightarrow> \<exists>r. (w, r) \<in> set ts"
proof (induction ts)
  case (Cons t ts)
  then show ?case by (cases ts) (auto simp: rel_rlit split: prod.splits)
qed simp

lemma alt_token_listed:
  assumes "m \<in> set (re_finditer ALT_TOKEN_REPLACEMENT_PATTERN line)"
  shows "\<exists>r. map_of ALT_TOKEN_REPLACEMENT (group_text m 1) = Some r"
proof -
  obtain q where q: "(m_upto m, m_rest m, m_caps m) \<in> set (rmatch ALT_TOKEN_REPLACEMENT_PATTERN (m_before m) q [])"
    using re_finditer_mem [OF assms] by blast
  let ?b = "ralt (map (\<lambda>(tok, _). rlit tok) ALT_TOKEN_REPLACEMENT)"
  have "list_all groupless (map (\<lambda>(tok, _). rlit tok) ALT_TOKEN_REPLACEMENT)" by (auto simp: list_all_iff)
  then have b: "groupless ?b" by simp
  have "(m_upto m, m_rest m, m_caps m) \<in> set (rmatch (rseq ([one_of '' =()''] @ Grp 1 ?b # [LookA (ralt [one_of '' ('', Eol])])) (m_before m) q [])"
    using q by (simp add: ALT_TOKEN_REPLACEMENT_PATTERN_def)
  from group_rel [OF this _ b] obtain u w v where "m_group m 1 = Some w"
      "((rev u @ m_before m, w @ v), (rev w @ rev u @ m_before m, v)) \<in> re_rel ?b" by auto
  with rel_ralt_lits [of "rev u @ m_before m" w v ALT_TOKEN_REPLACEMENT] show ?thesis
    by (auto simp: group_text_def ALT_TOKEN_REPLACEMENT_def weak_map_of_SomeI)
qed

lemma alt_token_diags_sound:
  "list_all (\<lambda>m. \<exists>r. map_of ALT_TOKEN_REPLACEMENT (group_text m 1) = Some r) ms \<Longrightarrow> n < NumLines cl \<Longrightarrow>
     sound filename cl (alt_token_diags filename n ms)"
  by (induction ms) (auto elim!: soundE)

interpretation alt_tokens: file_check "\<lambda>_ _. True" CheckAltTokens
proof
  fix cl :: cleansed_lines and n filename
  assume cl: "well_formed cl" "n < NumLines cl"
  have "sound filename cl (alt_token_diags filename n (re_finditer ALT_TOKEN_REPLACEMENT_PATTERN (elided cl ! n)))"
    by (rule alt_token_diags_sound [OF _ cl(2)]) (simp only: list_all_iff alt_token_listed ball_simps, blast intro: alt_token_listed)
  then show "sound filename cl (CheckAltTokens filename cl n)" using cl by (simp add: CheckAltTokens_def cl_lines del: py_nth_nat)
qed

text \<open>The name of the header guard can be computed, when it is asked for.\<close>

definition guard_known :: "config \<Rightarrow> string \<Rightarrow> string \<Rightarrow> bool" where
  "guard_known cfg filename file_extension \<longleftrightarrow> (IsHeaderExtension (extensions cfg) file_extension \<longrightarrow>
     GetHeaderGuardCPPVariable (paths cfg) (root_option cfg) (repository_option cfg) filename \<noteq> None)"

lemma check_line_style_sound:
  assumes "well_formed cl" "n < NumLines cl" "guard_known cfg filename file_extension"
  shows "sound filename cl (check_line_style cfg filename cl n file_extension)"
proof -
  have "\<exists>prev. (if n > 0 then py_nth (lines_without_raw_strings cl) (int n - 1) else Some []) = Some prev"
    using py_nth_pred [of n "lines_without_raw_strings cl"] assms by (auto simp: cl_lengths)
  then obtain prev where prev: "(if n > 0 then py_nth (lines_without_raw_strings cl) (int n - 1) else Some []) = Some prev" by blast
  have "\<exists>guard. is_header_guard cfg filename file_extension line = Some guard" for line
    using assms(3) by (auto simp: is_header_guard_def guard_known_def)
  then have len: "sound filename cl (check_line_length cfg filename n file_extension line)" for line
    unfolding check_line_length_def using assms(2) by (auto intro!: sound_lookup)
  have one: "sound filename cl (check_one_command filename cl n line cleansed_line)" for line cleansed_line
    using assms(2) by (simp add: check_one_command_def previous_line_sound [OF assms(1,2)])
  have indent: "list_all (file_diag filename cl) (check_indent filename n prev raw line cleansed_line)" for raw line cleansed_line
    using assms(2) by (simp add: check_indent_def Let_def)
  show ?thesis
    unfolding check_line_style_def Let_def cl_lines [OF assms(1,2)] prev Option.bind.bind_lunit
    by (rule sound_run_all) (simp add: len one indent assms(2))
qed

lemma check_class_section_sound:
  assumes "well_formed cl" "n < NumLines cl" "blocks_in cl ns"
  shows "sound filename cl (check_class_section filename ns cl n)"
proof (cases "InnermostClass ns")
  case (Some b)
  then have "b \<in> set (stack ns)" by (auto simp: InnermostClass_def find_Some_iff)
  with assms(3) have "starting_linenum b < NumLines cl" by (auto simp: blocks_in_def list_all_iff)
  from section_spacing.check_sound [OF assms(1,2) this] Some show ?thesis
    by (simp add: check_class_section_def split: block_kind.split)
qed (simp add: check_class_section_def)

lemma CheckStyle_effects:
  assumes cl: "well_formed cl" "n < NumLines cl" and "blocks_in cl ns" "guard_known cfg filename file_extension"
  shows "effects_sound filename cl (CheckStyle cfg filename ns file_extension cl n)"
proof -
  obtain before where before: "and_then (check_line_style cfg filename cl n file_extension) (CheckBraces (line_length cfg) filename cl n) = Some before"
      "list_all (file_diag filename cl) before"
    using sound_and_then [OF check_line_style_sound [OF cl assms(4)] braces.check_sound [OF cl]] by (auto elim: soundE)
  obtain semicolon where semicolon: "CheckTrailingSemicolon filename cl n = Some semicolon"
      "list_all (file_effect filename cl) semicolon"
    using CheckTrailingSemicolon_effects [OF cl] by (auto simp: effects_sound_def)
  have "sound filename cl (run_all [CheckEmptyBlockBody filename cl n, CheckSpacing filename ns cl n,
      CheckOperatorSpacing filename cl n, CheckParenthesisSpacing filename cl n, CheckCommaSpacing filename cl n,
      CheckBracesSpacing filename ns cl n, CheckSpacingForFunctionCall filename cl n, CheckCheck filename cl n,
      CheckAltTokens filename cl n, check_class_section filename ns cl n])"
    using cl assms(3) by (intro sound_run_all)
      (simp add: empty_blocks.check_sound spacing.check_sound operator_spacing.check_sound parenthesis_spacing.check_sound
        comma_spacing.check_sound braces_spacing.check_sound function_call_spacing.check_sound check_macros.check_sound
        alt_tokens.check_sound check_class_section_sound)
  then obtain after where "run_all [CheckEmptyBlockBody filename cl n, CheckSpacing filename ns cl n,
      CheckOperatorSpacing filename cl n, CheckParenthesisSpacing filename cl n, CheckCommaSpacing filename cl n,
      CheckBracesSpacing filename ns cl n, CheckSpacingForFunctionCall filename cl n, CheckCheck filename cl n,
      CheckAltTokens filename cl n, check_class_section filename ns cl n] = Some after" "list_all (file_diag filename cl) after"
    by (rule soundE)
  with before semicolon show ?thesis by (simp add: CheckStyle_def list.pred_map comp_def del: run_all.simps)
qed

end
