(* ===== verification/Constructs.thy ===== *)
theory Constructs
  imports StyleChecks
begin

text \<open>
  \<open>CheckForNonStandardConstructs\<close> of \<open>cpplint.py\<close>: constructs that gcc-2 accepted, and the
  constructors of a class. The arguments of a constructor are split at commas and put together
  again while an argument has more opening than closing brackets; when the arguments run out
  before that, the code indexes past the end of its list, and this is the one exception the check
  can raise.
\<close>

section \<open>The arguments of a constructor\<close>

definition unbalanced :: "string \<Rightarrow> bool" where
  "unbalanced arg \<longleftrightarrow> count_list arg (CHR ''<'') > count_list arg (CHR ''>'') \<or>
     count_list arg (CHR ''('') > count_list arg (CHR '')'')"

text \<open>The inner loop: the argument, extended, and the arguments left after it.\<close>

fun join_arg :: "string \<Rightarrow> string list \<Rightarrow> (string \<times> string list) option" where
  "join_arg arg [] = (if unbalanced arg then None else Some (arg, []))"
| "join_arg arg (next_arg # rest) =
     (if unbalanced arg then join_arg (arg @ '','' @ next_arg) rest else Some (arg, next_arg # rest))"

lemma join_arg_length: "join_arg arg rest = Some (a, rest') \<Longrightarrow> length rest' \<le> length rest"
  by (induction arg rest rule: join_arg.induct) (auto split: if_splits)

function collapse_args :: "string list \<Rightarrow> string list option" where
  "collapse_args [] = Some []"
| "collapse_args (arg # rest) =
     (case join_arg arg rest of
        None \<Rightarrow> None
      | Some (a, rest') \<Rightarrow> map_option (Cons a) (collapse_args rest'))"
  by pat_completeness auto
termination by (relation "measure length") (auto dest: join_arg_length)

section \<open>Constructors\<close>

definition re_initializer_list :: re where
  "re_initializer_list =
     rseq [WordB, rlit ''std'', spaces, rlit ''::'', spaces, rlit ''initializer_list'', WordB]"

definition re_constructor :: "string \<Rightarrow> re" where
  "re_constructor base =
     rseq [spaces1, Star (rseq [ralt [rlit ''inline'', rlit ''constexpr''], spaces1]),
       ropt (Grp 1 (rseq [rlit ''explicit'', spaces1])), Star (rseq [ralt [rlit ''inline'', rlit ''constexpr''], spaces1]),
       rlit base, spaces, rchr (CHR ''(''),
       Grp 2 (Star (ralt [none_of ''()'', rseq [rchr (CHR ''(''), Star (none_of ''()''), rchr (CHR '')'')]])), rchr (CHR '')'')]"

definition re_copy_argument :: "string \<Rightarrow> re" where
  "re_copy_argument base =
     rseq [ropt (Grp 1 (rseq [rlit ''const'', spaces1])), rlit base,
       ropt (Grp 2 (rseq [spaces, rchr (CHR ''<''), Star (none_of ''>''), rchr (CHR ''>'')])),
       ropt (Grp 3 (rseq [spaces1, rlit ''const''])), spaces,
       ropt (rseq [rchr (CHR ''<''), rplus rword, rchr (CHR ''>''), spaces]), rchr (CHR ''&'')]"

definition defaulted_args :: "string list \<Rightarrow> string list" where
  "defaulted_args args = filter (\<lambda>arg. contains arg ''='') args"

definition variadic_args :: "string list \<Rightarrow> string list" where
  "variadic_args args = filter (\<lambda>arg. contains arg ''&&...'') args"

definition noarg_constructor :: "string list \<Rightarrow> bool" where
  "noarg_constructor args \<longleftrightarrow> (case args of [] \<Rightarrow> True | [arg] \<Rightarrow> strip arg = ''void'' | _ \<Rightarrow> False)"

definition onearg_constructor :: "string list \<Rightarrow> bool" where
  "onearg_constructor args \<longleftrightarrow>
     length args = 1 \<and> \<not> noarg_constructor args \<or>
     length args \<ge> 1 \<and> \<not> noarg_constructor args \<and> int (length (defaulted_args args)) \<ge> int (length args) - 1 \<or>
     length args \<le> 2 \<and> length (variadic_args args) \<ge> 1"

definition check_explicit :: "string \<Rightarrow> nat \<Rightarrow> string \<Rightarrow> bool \<Rightarrow> string list \<Rightarrow> diag list option" where
  "check_explicit filename linenum base_classname is_marked_explicit args = do {
     let err = mk_error filename (int linenum) ''runtime/explicit'' 5;
     initializer_list_constructor \<leftarrow> (if onearg_constructor args then do {
         arg \<leftarrow> py_nth args 0; Some (found re_initializer_list arg) } else Some False);
     copy_constructor \<leftarrow> (if onearg_constructor args then do {
         arg \<leftarrow> py_nth args 0; Some (matches (re_copy_argument base_classname) (strip arg)) } else Some False);
     Some (if \<not> is_marked_explicit \<and> onearg_constructor args \<and> \<not> initializer_list_constructor \<and> \<not> copy_constructor then
         (if defaulted_args args \<noteq> [] \<or> variadic_args args \<noteq> []
          then [err (''Constructors callable with one argument '' @ ''should be marked explicit.'')]
          else [err ''Single-parameter constructors should be marked explicit.''])
       else report_if (is_marked_explicit \<and> \<not> onearg_constructor args \<and> noarg_constructor args)
         (err ''Zero-parameter constructors should not be marked explicit.''))
   }"

text \<open>The argument texts of the constructor of the class on the line.\<close>

definition constructor_args :: "match_obj \<Rightarrow> string list" where
  "constructor_args m = (if group_text m 2 = [] then [] else split_sub '','' (group_text m 2))"

definition check_constructor :: "string \<Rightarrow> nat \<Rightarrow> string \<Rightarrow> string \<Rightarrow> diag list option" where
  "check_constructor filename linenum class_name line =
     (let base_classname = last (split_sub ''::'' class_name) in
      case re_match (re_constructor base_classname) line of
        None \<Rightarrow> Some []
      | Some m \<Rightarrow> do {
          args \<leftarrow> collapse_args (constructor_args m);
          check_explicit filename linenum base_classname (group_text m 1 \<noteq> []) args
        })"

section \<open>Non-standard constructs\<close>

definition re_printf_q :: re where
  "re_printf_q =
     rseq [rlit ''printf'', spaces, rchr (CHR ''(''), Star rdot, rchr DQ, Star rdot, rchr (CHR ''%''),
       ropt (one_of ''-+ ''), Star rdigit, rchr (CHR ''q'')]"

definition re_printf_position :: re where
  "re_printf_position =
     rseq [rlit ''printf'', spaces, rchr (CHR ''(''), Star rdot, rchr DQ, Star rdot, rchr (CHR ''%''),
       rplus rdigit, rchr (CHR ''$'')]"

definition re_undefined_escape :: re where
  "re_undefined_escape = rseq [Grp 1 (one_of ([DQ] @ [SQ])), Star rdot, rchr BSL, Grp 2 (one_of ''%[({'')]"

definition re_late_storage_class :: re where
  "re_late_storage_class =
     rseq [WordB, Grp 1 (ralt [rlit ''const'', rlit ''volatile'', rlit ''void'', rlit ''char'', rlit ''short'',
       rlit ''int'', rlit ''long'', rlit ''float'', rlit ''double'', rlit ''signed'', rlit ''unsigned'',
       rlit ''schar'', rseq [ropt (rchr (CHR ''u'')), rlit ''int8''], rseq [ropt (rchr (CHR ''u'')),
       rlit ''int16''], rseq [ropt (rchr (CHR ''u'')), rlit ''int32''], rseq [ropt (rchr (CHR ''u'')),
       rlit ''int64'']]), spaces1, Grp 2 (ralt [rlit ''register'', rlit ''static'', rlit ''extern'',
       rlit ''typedef'']), WordB]"

definition re_endif_text :: re where
  "re_endif_text =
     rseq [spaces, rchr (CHR ''#''), spaces, rlit ''endif'', spaces,
       rplus (Cls (\<lambda>c. \<not> (py_space c \<or> c \<in> set ''/'')))]"

definition re_inner_forward :: re where
  "re_inner_forward =
     rseq [spaces, rlit ''class'', spaces1, rplus (Grp 1 (rseq [rplus rword, spaces, rlit ''::'', spaces])),
       rplus rword, spaces, rchr (CHR '';'')]"

definition re_min_max_operator :: re where
  "re_min_max_operator =
     rseq [Grp 1 (ralt [rplus rword, rseq [ropt (one_of ''+-''), rplus rdigit,
       ropt (Grp 2 (rseq [rchr (CHR ''.''), Star rdigit]))]]), spaces, Grp 3 (one_of ''<>''), rchr (CHR ''?''),
       ropt (rchr (CHR ''='')), spaces, Grp 4 (ralt [rplus rword, rseq [ropt (one_of ''+-''), rplus rdigit]]),
       ropt (Grp 5 (rseq [rchr (CHR ''.''), Star rdigit]))]"

definition re_string_reference :: re where
  "re_string_reference =
     rseq [Bol, spaces, rlit ''const'', spaces, rlit ''string'', spaces, rchr (CHR ''&''), spaces, rplus rword,
       spaces, rchr (CHR '';'')]"

definition check_format_strings :: "string \<Rightarrow> nat \<Rightarrow> string \<Rightarrow> diag list" where
  "check_format_strings filename linenum line =
     report_if (found re_printf_q line) (mk_error filename (int linenum) ''runtime/printf_format'' 3
       ''%q in format strings is deprecated.  Use %ll instead.'')
     @ report_if (found re_printf_position line) (mk_error filename (int linenum) ''runtime/printf_format'' 2
       ''%N$ formats are unconventional.  Try rewriting to avoid them.'')
     @ report_if (found re_undefined_escape (replace_sub [BSL, BSL] [] line))
       (mk_error filename (int linenum) ''build/printf_format'' 3
         ''%, [, (, and { are undefined character escapes.  Unescape them.'')"

definition check_old_constructs :: "string \<Rightarrow> nat \<Rightarrow> string \<Rightarrow> diag list" where
  "check_old_constructs filename linenum line =
     report_if (found re_late_storage_class line) (mk_error filename (int linenum) ''build/storage_class'' 5
       (''Storage-class specifier (static, extern, typedef, etc) should be '' @ ''at the beginning of the declaration.''))
     @ report_if (matches re_endif_text line) (mk_error filename (int linenum) ''build/endif_comment'' 5
       ''Uncommented text after #endif is non-standard.  Use a comment.'')
     @ report_if (matches re_inner_forward line) (mk_error filename (int linenum) ''build/forward_decl'' 5
       ''Inner-style forward declarations are invalid.  Remove this line.'')
     @ report_if (found re_min_max_operator line) (mk_error filename (int linenum) ''build/deprecated'' 3
       ''>? and <? (max and min) operators are non-standard and deprecated.'')
     @ report_if (found re_string_reference line) (mk_error filename (int linenum) ''runtime/member_string_references'' 2
       (''const string& members are dangerous. It is much better to use '' @
        ''alternatives, such as pointers or simple constants.''))"

definition CheckForNonStandardConstructs ::
  "string \<Rightarrow> nesting_state \<Rightarrow> cleansed_lines \<Rightarrow> nat \<Rightarrow> diag list option" where
  "CheckForNonStandardConstructs filename ns clean_lines linenum = do {
     line \<leftarrow> py_nth (lines clean_lines) (int linenum);
     cleansed_line \<leftarrow> py_nth (elided clean_lines) (int linenum);
     and_then (Some (check_format_strings filename linenum line @ check_old_constructs filename linenum cleansed_line))
       (case InnermostClass ns of
          None \<Rightarrow> Some []
        | Some classinfo \<Rightarrow>
            if \<not> seen_open_brace classinfo then Some []
            else case b_kind classinfo of
                Class c \<Rightarrow> check_constructor filename linenum (cls_name c) cleansed_line
              | _ \<Rightarrow> Some [])
   }"

section \<open>When the arguments collapse\<close>

text \<open>Every argument that is put together is balanced, and no text is lost or moved.\<close>

lemma join_comma [simp]: "join '','' ((a @ CHR '','' # b) # xs) = a @ CHR '','' # join '','' (b # xs)"
  by (cases xs) simp_all

lemma join_arg_Some:
  "join_arg arg rest = Some (a, rest') \<Longrightarrow> \<not> unbalanced a \<and>
     (\<exists>k. k \<le> length rest \<and> a = join '','' (arg # take k rest) \<and> rest' = drop k rest \<and> join_arg arg (take k rest) = Some (a, []))"
proof (induction arg rest rule: join_arg.induct)
  case (2 arg next_arg rest)
  show ?case
  proof (cases "unbalanced arg")
    case True
    with 2(2) have "join_arg (arg @ '','' @ next_arg) rest = Some (a, rest')" by simp
    from 2(1) [OF True this] obtain k where "\<not> unbalanced a" "k \<le> length rest" "rest' = drop k rest"
        "a = join '','' ((arg @ '','' @ next_arg) # take k rest)"
        "join_arg (arg @ '','' @ next_arg) (take k rest) = Some (a, [])" by blast
    with True show ?thesis by (intro conjI exI [of _ "Suc k"]) simp_all
  qed (use 2 in \<open>auto intro!: exI [of _ 0]\<close>)
qed (auto split: if_splits)

lemma join_arg_None:
  "join_arg arg rest = None \<longleftrightarrow> (\<forall>k \<le> length rest. unbalanced (join '','' (arg # take k rest)))"
proof (induction arg rest rule: join_arg.induct)
  case (2 arg next_arg rest)
  have "(\<forall>k \<le> length (next_arg # rest). unbalanced (join '','' (arg # take k (next_arg # rest)))) \<longleftrightarrow>
      unbalanced arg \<and> (\<forall>k \<le> length rest. unbalanced (join '','' ((arg @ '','' @ next_arg) # take k rest)))" (is "?l \<longleftrightarrow> ?r")
  proof
    assume ?l
    from spec [OF this, of 0] have "unbalanced arg" by simp
    moreover have "unbalanced (join '','' ((arg @ '','' @ next_arg) # take k rest))" if "k \<le> length rest" for k
      using spec [OF \<open>?l\<close>, of "Suc k"] that by simp
    ultimately show ?r by simp
  next
    assume ?r
    then show ?l by (auto simp: take_Cons')
  qed
  with 2 show ?case by auto
qed simp

lemma join_append: "xs \<noteq> [] \<Longrightarrow> ys \<noteq> [] \<Longrightarrow> join sep (xs @ ys) = join sep xs @ sep @ join sep ys"
proof (induction xs rule: induct_list012)
  case (2 x)
  then show ?case by (cases ys) simp_all
qed auto

lemma join_drop: "join sep (join sep (x # take k xs) # drop k xs) = join sep (x # xs)"
proof (cases "drop k xs = []")
  case False
  have "join sep (x # xs) = join sep ((x # take k xs) @ drop k xs)" by simp
  also have "\<dots> = join sep (x # take k xs) @ sep @ join sep (drop k xs)" using False by (intro join_append) auto
  also have "\<dots> = join sep (join sep (x # take k xs) # drop k xs)" using False by (cases "drop k xs") auto
  finally show ?thesis by simp
qed auto

lemma collapse_args_Some:
  "collapse_args args = Some r \<Longrightarrow> join '','' r = join '','' args \<and> list_all (\<lambda>a. \<not> unbalanced a) r \<and> (r = [] \<longleftrightarrow> args = [])"
proof (induction args arbitrary: r rule: collapse_args.induct)
  case (2 arg rest)
  then obtain a rest' as where join: "join_arg arg rest = Some (a, rest')" and as: "collapse_args rest' = Some as" "r = a # as"
    by (auto split: option.splits)
  from join_arg_Some [OF join] obtain k where k: "\<not> unbalanced a" "a = join '','' (arg # take k rest)" "rest' = drop k rest" by blast
  from 2(1) [OF join refl as(1)] have IH: "join '','' as = join '','' rest'" "list_all (\<lambda>a. \<not> unbalanced a) as" "as = [] \<longleftrightarrow> rest' = []" by auto
  have "join '','' (a # as) = join '','' (a # rest')" using IH(1,3) by (cases as; cases rest') auto
  with join_drop [of "'',''" arg k rest] k IH(2) as(2) show ?case by simp
qed simp

text \<open>
  When the code raises: an argument starts where the ones before it are complete, and it stays
  unbalanced up to the end of the list.
\<close>

lemma join_arg_append: "join_arg arg rest = Some (a, rest') \<Longrightarrow> join_arg arg (rest @ suf) = Some (a, rest' @ suf)"
  by (induction arg rest rule: join_arg.induct) (cases suf, auto split: if_splits)

lemma collapse_args_append:
  "collapse_args pre = Some r \<Longrightarrow> collapse_args (pre @ suf) = map_option ((@) r) (collapse_args suf)"
proof (induction pre arbitrary: r rule: collapse_args.induct)
  case (2 arg rest)
  then obtain a rest' as where join: "join_arg arg rest = Some (a, rest')" and as: "collapse_args rest' = Some as" "r = a # as"
    by (auto split: option.splits)
  from 2(1) [OF join refl as(1)] join_arg_append [OF join] as(2) show ?case by (simp add: option.map_comp comp_def)
qed (cases "collapse_args suf", simp_all)

lemma collapse_args_None:
  "collapse_args args = None \<longleftrightarrow> (\<exists>pre arg rest. args = pre @ arg # rest \<and> collapse_args pre \<noteq> None \<and>
     (\<forall>k \<le> length rest. unbalanced (join '','' (arg # take k rest))))" (is "_ \<longleftrightarrow> ?stuck args")
proof
  assume "?stuck args"
  then obtain pre arg rest r where "args = pre @ arg # rest" "collapse_args pre = Some r" "join_arg arg rest = None"
    using join_arg_None by auto
  then show "collapse_args args = None" by (simp add: collapse_args_append)
next
  show "collapse_args args = None \<Longrightarrow> ?stuck args"
  proof (induction args rule: collapse_args.induct)
    case (2 arg rest)
    show ?case
    proof (cases "join_arg arg rest")
      case None
      then show ?thesis unfolding join_arg_None by (intro exI [of _ "[]"] exI [of _ arg] exI [of _ rest]) simp
    next
      case (Some p)
      then obtain a rest' where join: "join_arg arg rest = Some (a, rest')" by (cases p) auto
      with 2(2) have "collapse_args rest' = None" by simp
      from 2(1) [OF join refl this] obtain pre arg' rest'' where stuck: "rest' = pre @ arg' # rest''" "collapse_args pre \<noteq> None"
          "\<forall>k \<le> length rest''. unbalanced (join '','' (arg' # take k rest''))" by blast
      from join_arg_Some [OF join] obtain k where k: "rest' = drop k rest" "join_arg arg (take k rest) = Some (a, [])" by blast
      have "arg # rest = (arg # take k rest @ pre) @ arg' # rest''" using stuck(1) k(1) by (metis append_Cons append_assoc append_take_drop_id)
      moreover have "collapse_args (arg # take k rest @ pre) \<noteq> None" using join_arg_append [OF k(2), of pre] stuck(2) by simp
      ultimately show ?thesis using stuck(3) by blast
    qed
  qed simp
qed

text \<open>The arguments of a constructor are put together without loss: joined with commas the result is
  the text of the list, every argument of the result has no more opening than closing brackets, and
  a list that is not empty does not become empty.
\<close>

theorem collapse_args_keeps:
  assumes "collapse_args args = Some r"
  shows "join '','' r = join '','' args \<and> list_all (\<lambda>a. \<not> unbalanced a) r \<and> (r = [] \<longleftrightarrow> args = [])"
  using assms by (rule collapse_args_Some)

theorem collapse_args_keeps_witness:
  "join '','' [''map<int, int> m'', '' f(a, b)''] = join '','' [''map<int'', '' int> m'', '' f(a'', '' b)''] \<and>
     list_all (\<lambda>a. \<not> unbalanced a) [''map<int, int> m'', '' f(a, b)''] \<and>
     ([''map<int, int> m'', '' f(a, b)''] = [] \<longleftrightarrow> [''map<int'', '' int> m'', '' f(a'', '' b)''] = [])"
  by (rule collapse_args_keeps) code_simp

text \<open>The collapse raises (it indexes past the end of the list) exactly when an argument that follows
  complete ones has more opening than closing brackets whatever is appended to it.\<close>

theorem collapse_args_raises:
  "collapse_args args = None \<longleftrightarrow> (\<exists>pre arg rest. args = pre @ arg # rest \<and> collapse_args pre \<noteq> None \<and>
     (\<forall>k \<le> length rest. unbalanced (join '','' (arg # take k rest))))"
  by (rule collapse_args_None)

text \<open>An argument with a comparison: the text of the constructor \<open>Foo(int x = 1 < 2)\<close>.\<close>

lemma collapse_args_example: "collapse_args [''int x = 1 < 2''] = None"
  by code_simp

section \<open>Soundness\<close>

text \<open>The line declares a constructor of the innermost class with arguments that cannot be put together.\<close>

definition constructor_stuck :: "nesting_state \<Rightarrow> string \<Rightarrow> bool" where
  "constructor_stuck ns line = (case InnermostClass ns of
     None \<Rightarrow> False
   | Some b \<Rightarrow> seen_open_brace b \<and> (case b_kind b of
         Class c \<Rightarrow> (case re_match (re_constructor (last (split_sub ''::'' (cls_name c)))) line of
             None \<Rightarrow> False
           | Some m \<Rightarrow> collapse_args (constructor_args m) = None)
       | _ \<Rightarrow> False))"

lemma onearg_nonempty: "onearg_constructor args \<Longrightarrow> args \<noteq> []"
  by (auto simp: onearg_constructor_def noarg_constructor_def variadic_args_def)

lemma check_explicit_sound:
  assumes "n < NumLines cl"
  shows "sound filename cl (check_explicit filename n base marked args)"
proof (cases args)
  case Nil
  then have "\<not> onearg_constructor args" using onearg_nonempty by blast
  with assms show ?thesis by (simp add: check_explicit_def Let_def)
next
  case (Cons a as)
  then have "py_nth args 0 = Some a" using py_nth_nat [of args 0] by simp
  with assms show ?thesis by (simp add: check_explicit_def Let_def)
qed

lemma nonstandard_result:
  assumes "well_formed cl" "n < NumLines cl"
  shows "if constructor_stuck ns (elided cl ! n) then CheckForNonStandardConstructs filename ns cl n = None
    else sound filename cl (CheckForNonStandardConstructs filename ns cl n)"
proof -
  let ?cls = "case InnermostClass ns of None \<Rightarrow> Some [] | Some classinfo \<Rightarrow>
      if \<not> seen_open_brace classinfo then Some [] else case b_kind classinfo of
        Class c \<Rightarrow> check_constructor filename n (cls_name c) (elided cl ! n) | _ \<Rightarrow> Some []"
  have lines: "list_all (file_diag filename cl) (check_format_strings filename n (lines cl ! n) @ check_old_constructs filename n (elided cl ! n))"
    using assms(2) by (simp add: check_format_strings_def check_old_constructs_def)
  have "if constructor_stuck ns (elided cl ! n) then ?cls = None else sound filename cl ?cls"
    using check_explicit_sound [OF assms(2)]
    by (auto simp: constructor_stuck_def check_constructor_def Let_def split: option.split block_kind.split)
  with lines show ?thesis
    by (auto simp: CheckForNonStandardConstructs_def cl_lines [OF assms] and_then_def intro!: sound_bind simp del: py_nth_nat)
qed

interpretation nonstandard: file_check "\<lambda>cl n. \<not> constructor_stuck ns (elided cl ! n)"
    "\<lambda>filename. CheckForNonStandardConstructs filename ns" for ns
proof
  fix cl :: cleansed_lines and n filename
  assume "well_formed cl" "n < NumLines cl" "\<not> constructor_stuck ns (elided cl ! n)"
  with nonstandard_result [of cl n ns filename] show "sound filename cl (CheckForNonStandardConstructs filename ns cl n)" by simp
qed

text \<open>On a line of a cleansed file \<open>CheckForNonStandardConstructs\<close> raises exactly when the line
  declares a constructor of the innermost class whose arguments cannot be put together.\<close>

theorem CheckForNonStandardConstructs_raises:
  assumes "well_formed cl" "n < NumLines cl"
  shows "CheckForNonStandardConstructs filename ns cl n = None \<longleftrightarrow> constructor_stuck ns (elided cl ! n)"
  using nonstandard_result [OF assms, of ns filename] by (auto simp: sound_def split: if_splits)

definition comparison_file :: cleansed_lines where
  "comparison_file = (let ls = [''class Foo {'', ''  Foo(int x = 1 < 2);''] in
     \<lparr>elided = ls, lines = ls, raw_lines = ls, num_lines = 2, lines_without_raw_strings = ls\<rparr>)"

definition in_class_foo :: nesting_state where
  "in_class_foo = NestingState_init\<lparr>stack := [(BlockInfo 0 0 True)\<lparr>b_kind := Class \<lparr>cls_name = ''Foo'', is_derived = False,
     access = ''private'', is_struct = False, class_indent = 0, last_line = 0\<rparr>\<rparr>]\<rparr>"

theorem CheckForNonStandardConstructs_raises_witness:
  "CheckForNonStandardConstructs ''a.h'' in_class_foo comparison_file 1 = None"
proof (subst CheckForNonStandardConstructs_raises)
  show "well_formed comparison_file" "1 < NumLines comparison_file"
    by (simp_all add: comparison_file_def well_formed_def NumLines_def Let_def)
  show "constructor_stuck in_class_foo (elided comparison_file ! 1)" by code_simp
qed

end
