(* ===== verification/Includes.thy ===== *)
theory Includes
  imports Constructs
begin

text \<open>
  The include directives of a file (\<open>cpplint.py\<close>, \<open>_DropCommonSuffixes\<close>, \<open>_ClassifyInclude\<close>,
  \<open>CheckIncludeLine\<close>) over the include state. \<open>None\<close> is the endless walk of \<open>RepositoryName\<close>.
\<close>

section \<open>What kind of header is included\<close>

definition re_first_component :: re where
  "re_first_component = rseq [Bol, rplus (none_of ''-_.'')]"

definition common_suffixes :: "config \<Rightarrow> string list" where
  "common_suffixes cfg =
     map (\<lambda>(test_suffix, ext). dropWhile (\<lambda>c. c = CHR ''_'') test_suffix @ ''.'' @ ext)
       (List.product test_suffixes (source_order cfg)) @
     map (\<lambda>(suffix, ext). suffix @ ''.'' @ ext)
       (List.product [''inl'', ''imp'', ''internal''] (header_order cfg))"

fun drop_suffix :: "string \<Rightarrow> string list \<Rightarrow> string" where
  "drop_suffix filename [] = fst (splitext filename)"
| "drop_suffix filename (suffix # suffixes) =
     (if ends_with filename suffix \<and> length filename > length suffix \<and>
         filename ! (length filename - length suffix - 1) \<in> {CHR ''-'', CHR ''_''}
      then take (length filename - length suffix - 1) filename
      else drop_suffix filename suffixes)"

definition DropCommonSuffixes :: "config \<Rightarrow> string \<Rightarrow> string" where
  "DropCommonSuffixes cfg filename = drop_suffix filename (common_suffixes cfg)"

definition first_component :: "string \<Rightarrow> string option" where
  "first_component base = map_option (\<lambda>m. group_text m 0) (re_match re_first_component base)"

definition ClassifyInclude :: "config \<Rightarrow> string \<Rightarrow> string \<Rightarrow> bool \<Rightarrow> header_type option" where
  "ClassifyInclude cfg filename include is_system =
     (if is_system \<and> snd (splitext include) \<notin> {''.hpp'', ''.hxx'', ''.h++''} then
        Some (if include \<in> set CPP_HEADERS then CPP_SYS_HEADER else C_SYS_HEADER)
      else do {
        name \<leftarrow> RepositoryName (paths cfg) (repository_option cfg) filename;
        let (target_dir, target_base) = path_split (DropCommonSuffixes cfg name);
        let (include_dir, include_base) = path_split (DropCommonSuffixes cfg include);
        let target_dir_pub = replace_sub [BSL] [SL] (normpath (target_dir @ ''/../public''));
        Some (if target_base = include_base \<and> (include_dir = target_dir \<or> include_dir = target_dir_pub)
          then LIKELY_MY_HEADER
          else if first_component target_base \<noteq> None \<and> first_component target_base = first_component include_base
          then POSSIBLE_MY_HEADER
          else OTHER_HEADER)
      })"

section \<open>The check of an include line\<close>

definition re_quoted_header :: re where
  "re_quoted_header =
     rseq [rlit ''#include'', spaces, rchr DQ, Grp 1 (rseq [rplus (none_of ''/''), rlit ''.h'']), rchr DQ]"

text \<open>The first source extension that the include has, when it is from another package.\<close>

fun foreign_source :: "config \<Rightarrow> string \<Rightarrow> string \<Rightarrow> string list \<Rightarrow> string option option" where
  "foreign_source cfg filename include [] = Some None"
| "foreign_source cfg filename include (extension # exts) =
     (if ends_with include (''.'' @ extension) then do {
        name \<leftarrow> RepositoryName (paths cfg) (repository_option cfg) filename;
        if dirname name \<noteq> dirname include then Some (Some extension)
        else foreign_source cfg filename include exts
      } else foreign_source cfg filename include exts)"

text \<open>The include is a header that goes with the file.\<close>

fun own_header :: "config \<Rightarrow> string \<Rightarrow> string \<Rightarrow> string list \<Rightarrow> bool option" where
  "own_header cfg filename include [] = Some False"
| "own_header cfg filename include (ext # exts) = do {
     extension \<leftarrow> Extension (paths cfg) (repository_option cfg) filename;
     let basefilename = py_slice filename 0 (int (length filename) - int (length extension));
     headername \<leftarrow> RepositoryName (paths cfg) (repository_option cfg) (basefilename @ ''.'' @ ext);
     if contains include headername \<or> contains headername include then Some True
     else own_header cfg filename include exts
   }"

text \<open>The order of the includes, and the state after the include.\<close>

definition place_include ::
  "config \<Rightarrow> string \<Rightarrow> cleansed_lines \<Rightarrow> nat \<Rightarrow> string \<Rightarrow> bool \<Rightarrow> include_state \<Rightarrow> (diag list \<times> include_state) option" where
  "place_include cfg filename clean_lines linenum include is_system st = do {
     st \<leftarrow> append_include include (int linenum) st;
     header_type \<leftarrow> ClassifyInclude cfg filename include is_system;
     let (error_message, st) = CheckNextIncludeOrder header_type st;
     base \<leftarrow> (if error_message \<noteq> [] then BaseName (paths cfg) (repository_option cfg) filename else Some []);
     let canonical_include = CanonicalizeAlphabeticalOrder include;
     alphabetical \<leftarrow> IsInAlphabeticalOrder clean_lines (int linenum) canonical_include st;
     Some (report_if (error_message \<noteq> []) (mk_error filename (int linenum) ''build/include_order'' 4
           (error_message @ ''. Should be: '' @ base @ ''.h, c system, c++ system, other.''))
         @ report_if (\<not> alphabetical) (mk_error filename (int linenum) ''build/include_alpha'' 4
           (''Include '' @ [DQ] @ include @ [DQ] @ '' not in alphabetical order'')),
       SetLastHeader canonical_include st)
   }"

definition check_include ::
  "config \<Rightarrow> string \<Rightarrow> cleansed_lines \<Rightarrow> nat \<Rightarrow> string \<Rightarrow> bool \<Rightarrow> include_state \<Rightarrow> (diag list \<times> include_state) option" where
  "check_include cfg filename clean_lines linenum include is_system st =
     (let duplicate_line = FindHeader include st; err = mk_error filename (int linenum) ''build/include'' 4 in
      if duplicate_line \<ge> 0 then
        Some ([err ([DQ] @ include @ [DQ] @ '' already included at '' @ filename @ '':'' @ show_int duplicate_line)], st)
      else do {
        foreign \<leftarrow> foreign_source cfg filename include (source_order cfg);
        (case foreign of
           Some extension \<Rightarrow> Some ([err (''Do not include .'' @ extension @ '' files from other packages'')], st)
         | None \<Rightarrow> do {
             third_src_header \<leftarrow> own_header cfg filename include (header_order cfg);
             if third_src_header \<or> \<not> matches THIRD_PARTY_HEADERS_PATTERN include
             then place_include cfg filename clean_lines linenum include is_system st
             else Some ([], st)
           })
      })"

definition CheckIncludeLine ::
  "config \<Rightarrow> string \<Rightarrow> cleansed_lines \<Rightarrow> nat \<Rightarrow> include_state \<Rightarrow> (diag list \<times> include_state) option" where
  "CheckIncludeLine cfg filename clean_lines linenum st = do {
     line \<leftarrow> py_nth (lines clean_lines) (int linenum);
     let subdir = (case re_match re_quoted_header line of
         None \<Rightarrow> []
       | Some m \<Rightarrow> report_if (\<not> matches THIRD_PARTY_HEADERS_PATTERN (group_text m 1))
           (mk_error filename (int linenum) ''build/include_subdir'' 4 ''Include the directory when naming .h files''));
     (case re_search RE_PATTERN_INCLUDE line of
        None \<Rightarrow> Some (subdir, st)
      | Some m \<Rightarrow> do {
          (ds, st) \<leftarrow> check_include cfg filename clean_lines linenum (group_text m 2) (group_text m 1 = ''<'') st;
          Some (subdir @ ds, st)
        })
   }"

section \<open>Names\<close>

text \<open>The walks of \<open>RepositoryName\<close> end: the file system has no \<open>.svn\<close> all the way up.\<close>

definition names_resolve :: "config \<Rightarrow> bool" where
  "names_resolve cfg \<longleftrightarrow> (\<forall>f. RepositoryName (paths cfg) (repository_option cfg) f \<noteq> None)"

lemma names_resolveE:
  assumes "names_resolve cfg" obtains name where "RepositoryName (paths cfg) (repository_option cfg) f = Some name"
  using assms by (auto simp: names_resolve_def)

lemma names_resolve_file:
  assumes "names_resolve cfg"
  shows "\<exists>b. BaseName (paths cfg) (repository_option cfg) f = Some b" "\<exists>e. Extension (paths cfg) (repository_option cfg) f = Some e"
proof -
  obtain name where "RepositoryName (paths cfg) (repository_option cfg) f = Some name" using names_resolveE [OF assms] .
  then show "\<exists>b. BaseName (paths cfg) (repository_option cfg) f = Some b" "\<exists>e. Extension (paths cfg) (repository_option cfg) f = Some e"
    by (simp_all add: BaseName_def Extension_def FileInfo_Split_def case_prod_beta)
qed

text \<open>What \<open>_DropCommonSuffixes\<close> removes: a listed suffix after a dash or an underscore, or the extension.\<close>

lemma drop_suffix_text:
  "\<exists>t. filename = drop_suffix filename suffixes @ t \<and>
     (t = snd (splitext filename) \<or> (\<exists>c suffix. suffix \<in> set suffixes \<and> c \<in> {CHR ''-'', CHR ''_''} \<and> t = c # suffix))"
proof (induction suffixes)
  case Nil
  then show ?case using splitext_append [of filename] by (auto intro!: exI [of _ "snd (splitext filename)"])
next
  case (Cons s suffixes)
  show ?case
  proof (cases "ends_with filename s \<and> length filename > length s \<and> filename ! (length filename - length s - 1) \<in> {CHR ''-'', CHR ''_''}")
    case True
    define k where "k = length filename - length s - 1"
    from True obtain p where p: "filename = p @ s" by (auto simp: ends_with_iff)
    with True have "k < length p" "p ! k \<in> {CHR ''-'', CHR ''_''}" "Suc k = length p" by (auto simp: k_def nth_append)
    then have "p = take k p @ [p ! k]" by (metis take_Suc_conv_app_nth take_all order_refl)
    then have "filename = take k filename @ p ! k # s" using p \<open>k < length p\<close> by (metis append.assoc append_Cons append_Nil take_append diff_is_0_eq less_or_eq_imp_le take0 append_Nil2)
    with True \<open>p ! k \<in> _\<close> show ?thesis by (auto simp: k_def)
  next
    case False
    with Cons show ?thesis by auto
  qed
qed

section \<open>The list of includes\<close>

text \<open>No header is recorded twice, the list is never empty, and the lines are lines of the file.\<close>

definition include_inv :: "include_state \<Rightarrow> bool" where
  "include_inv st \<longleftrightarrow> include_ok st \<and> distinct (map fst (concat (include_list st))) \<and>
     list_all (\<lambda>(_, l). 0 \<le> l) (concat (include_list st))"

lemma include_inv_init: "include_inv IncludeState_init"
  by (simp add: include_inv_def include_ok_init) (simp add: IncludeState_init_def)

lemma concat_butlast: "\<exists>t. concat xs = concat (butlast xs) @ t"
  by (cases xs rule: rev_cases) auto

lemma ResetSection_list:
  "ResetSection directive st = Some st' \<Longrightarrow> include_list st' = include_list st \<or> include_list st' = include_list st @ [[]] \<or>
     include_list st' = butlast (include_list st) @ [[]]"
  unfolding ResetSection_def Let_def by (simp only: option.inject option.distinct split: if_splits; clarsimp simp del: insert_iff; (elim disjE)?; clarsimp)

lemma include_inv_reset:
  assumes "include_inv st" shows "\<exists>st'. ResetSection directive st = Some st' \<and> include_inv st'"
proof -
  obtain t where t: "concat (include_list st) = concat (butlast (include_list st)) @ t" using concat_butlast by blast
  from assms have "include_ok st" by (simp add: include_inv_def)
  from include_ok_reset [OF this] obtain st' where st': "ResetSection directive st = Some st'" "include_ok st'" by blast
  from ResetSection_list [OF st'(1)] have "concat (include_list st') = concat (include_list st) \<or> concat (include_list st') = concat (butlast (include_list st))"
    by (elim disjE) simp_all
  with assms t have "distinct (map fst (concat (include_list st')))" "list_all (\<lambda>(_, l). 0 \<le> l) (concat (include_list st'))"
    unfolding include_inv_def by auto
  with st' show ?thesis by (auto simp: include_inv_def)
qed

lemma include_list_simps [simp]:
  "include_list (snd (CheckNextIncludeOrder t st)) = include_list st" "include_list (SetLastHeader h st) = include_list st"
  by (auto simp: CheckNextIncludeOrder_def SetLastHeader_def Let_def split: header_type.split)

lemma FindHeader_neg: "include_inv st \<Longrightarrow> FindHeader h st < 0 \<longleftrightarrow> h \<notin> fst ` set (concat (include_list st))"
proof -
  assume inv: "include_inv st"
  have "(case find (\<lambda>f. fst f = h) xs of None \<Rightarrow> -1 | Some f \<Rightarrow> snd f) < (0 :: int) \<longleftrightarrow> h \<notin> fst ` set xs"
    if "list_all (\<lambda>(_, l). 0 \<le> l) xs" for xs :: "(string \<times> int) list" using that by (induction xs) auto
  with inv show ?thesis by (simp only: FindHeader_def include_inv_def)
qed

lemma include_inv_append:
  assumes "include_inv st" "FindHeader h st < 0" "0 \<le> n"
  obtains st' where "append_include h n st = Some st'" "include_inv st'"
proof -
  from assms(1) have "include_ok st" by (simp add: include_inv_def)
  from include_ok_append [OF this] obtain st' where st': "append_include h n st = Some st'" "include_ok st'" by blast
  with append_include_concat [OF st'(1)] assms FindHeader_neg [OF assms(1)] have "include_inv st'" by (simp add: include_inv_def)
  with st'(1) that show ?thesis by blast
qed

lemma include_inv_same: "include_list st' = include_list st \<Longrightarrow> include_inv st \<Longrightarrow> include_inv st'"
  by (simp add: include_inv_def include_ok_def)

section \<open>Soundness\<close>

lemma ClassifyInclude_returns: "names_resolve cfg \<Longrightarrow> \<exists>t. ClassifyInclude cfg filename include is_system = Some t"
  by (erule names_resolveE [of _ filename]) (simp add: ClassifyInclude_def Let_def split: prod.split)

lemma foreign_source_returns: "names_resolve cfg \<Longrightarrow> \<exists>r. foreign_source cfg filename include exts = Some r"
  by (induction exts) (auto elim!: names_resolveE [of _ filename])

lemma own_header_returns: "names_resolve cfg \<Longrightarrow> \<exists>r. own_header cfg filename include exts = Some r"
proof (induction exts)
  case (Cons ext exts)
  obtain e where e: "Extension (paths cfg) (repository_option cfg) filename = Some e" using names_resolve_file Cons(2) by blast
  obtain name where "RepositoryName (paths cfg) (repository_option cfg)
      (py_slice filename 0 (int (length filename) - int (length e)) @ ''.'' @ ext) = Some name"
    using names_resolveE [OF Cons(2)] by blast
  with e Cons show ?case by (simp add: ex_bool_eq)
qed (simp add: ex_bool_eq)

definition include_result :: "string \<Rightarrow> cleansed_lines \<Rightarrow> (diag list \<times> include_state) option \<Rightarrow> bool" where
  "include_result filename cl r \<longleftrightarrow> (\<exists>ds st. r = Some (ds, st) \<and> list_all (file_diag filename cl) ds \<and> include_inv st)"

lemma include_result_Some [simp]: "include_result filename cl (Some (ds, st)) \<longleftrightarrow> list_all (file_diag filename cl) ds \<and> include_inv st"
  by (simp add: include_result_def)

lemma place_include_result:
  assumes cl: "well_formed cl" "n < NumLines cl" and "names_resolve cfg" "include_inv st" "FindHeader h st < 0"
  shows "include_result filename cl (place_include cfg filename cl n h is_system st)"
proof -
  obtain st1 where st1: "append_include h (int n) st = Some st1" "include_inv st1"
    using include_inv_append [OF assms(4,5)] by (metis of_nat_0_le_iff)
  obtain t where t: "ClassifyInclude cfg filename h is_system = Some t" using ClassifyInclude_returns [OF assms(3)] by blast
  obtain message st2 where order: "CheckNextIncludeOrder t st1 = (message, st2)" by force
  then have inv: "include_inv st2" using st1(2) include_list_simps(1) [of t st1] include_inv_same by (metis snd_conv)
  obtain base where base: "(if message \<noteq> [] then BaseName (paths cfg) (repository_option cfg) filename else Some []) = Some base"
    using names_resolve_file(1) [OF assms(3), of filename] by (cases "message = []") auto
  have "\<exists>b. IsInAlphabeticalOrder cl (int n) (CanonicalizeAlphabeticalOrder h) st2 = Some b"
    using py_nth_pred [of n "elided cl"] cl by (simp add: IsInAlphabeticalOrder_def cl_lengths ex_bool_eq)
  then obtain b where "IsInAlphabeticalOrder cl (int n) (CanonicalizeAlphabeticalOrder h) st2 = Some b" by blast
  with st1(1) t order base include_inv_same [OF include_list_simps(2) inv] cl(2) show ?thesis
    by (simp add: place_include_def Let_def)
qed

lemma check_include_result:
  assumes cl: "well_formed cl" "n < NumLines cl" and "names_resolve cfg" "include_inv st"
  shows "include_result filename cl (check_include cfg filename cl n h is_system st)"
proof (cases "FindHeader h st \<ge> 0")
  case False
  obtain f where f: "foreign_source cfg filename h (source_order cfg) = Some f"
    using foreign_source_returns [OF assms(3)] by blast
  obtain b where "own_header cfg filename h (header_order cfg) = Some b" using own_header_returns [OF assms(3)] by blast
  with f False assms place_include_result [OF assms, of h filename is_system] show ?thesis
    by (auto simp: check_include_def Let_def split: option.split)
qed (use assms in \<open>simp add: check_include_def Let_def\<close>)

lemma CheckIncludeLine_result:
  assumes cl: "well_formed cl" "n < NumLines cl" and "names_resolve cfg" "include_inv st"
  shows "include_result filename cl (CheckIncludeLine cfg filename cl n st)"
proof (cases "re_search RE_PATTERN_INCLUDE (lines cl ! n)")
  case None
  then show ?thesis using cl assms(4) by (simp add: CheckIncludeLine_def cl_lines [OF cl] Let_def del: py_nth_nat)
next
  case (Some m)
  from check_include_result [OF assms, of filename "group_text m 2" "group_text m 1 = ''<''"] obtain ds st'
    where "check_include cfg filename cl n (group_text m 2) (group_text m 1 = ''<'') st = Some (ds, st')"
      "list_all (file_diag filename cl) ds" "include_inv st'" by (auto simp: include_result_def)
  with Some cl show ?thesis by (simp add: CheckIncludeLine_def cl_lines [OF cl] Let_def del: py_nth_nat)
qed

text \<open>C18: CheckIncludeLine keeps the list of includes free of duplicates and never empty, with lines of the
  file, and returns on every line of a cleansed file; every error it reports names the file and the line.\<close>

theorem CheckIncludeLine_keeps:
  assumes "well_formed cl" "n < NumLines cl" "names_resolve cfg" "include_inv st"
  shows "\<exists>ds st'. CheckIncludeLine cfg filename cl n st = Some (ds, st') \<and> include_inv st' \<and> list_all (file_diag filename cl) ds"
  using CheckIncludeLine_result [OF assms, of filename] by (auto simp: include_result_def)

definition example_config :: config where
  "example_config = \<lparr>extensions = initial_extension_options, paths = bare_env, root_option = None,
     repository_option = None, line_length = 80, header_order = [''h'', ''hpp''], source_order = [''c'', ''cc'', ''cpp'']\<rparr>"

lemma example_names: "names_resolve example_config"
  by (simp add: names_resolve_def example_config_def RepositoryName_def bare_env_def Let_def)

definition include_file :: cleansed_lines where
  "include_file = (let ls = [[], ''#include '' @ [DQ] @ ''base/a.h'' @ [DQ]] in
     \<lparr>elided = ls, lines = ls, raw_lines = ls, num_lines = 2, lines_without_raw_strings = ls\<rparr>)"

theorem CheckIncludeLine_keeps_witness:
  "\<exists>ds st'. CheckIncludeLine example_config ''base/a.cc'' include_file 1 IncludeState_init = Some (ds, st') \<and>
     include_inv st' \<and> list_all (file_diag ''base/a.cc'' include_file) ds"
  by (rule CheckIncludeLine_keeps [OF _ _ example_names include_inv_init])
    (simp_all add: include_file_def well_formed_def NumLines_def Let_def)

text \<open>The examples that the source gives for the two functions.\<close>

lemma DropCommonSuffixes_examples:
  "DropCommonSuffixes example_config ''foo/foo-inl.h'' = ''foo/foo''"
  "DropCommonSuffixes example_config ''foo/bar/foo.cc'' = ''foo/bar/foo''"
  "DropCommonSuffixes example_config ''foo/foo_internal.h'' = ''foo/foo''"
  "DropCommonSuffixes example_config ''foo/foo_unusualinternal.h'' = ''foo/foo_unusualinternal''"
  by code_simp+

end
