(* ===== verification/References.thy ===== *)
theory References
  imports Includes
begin

text \<open>
  References as parameters (\<open>cpplint.py\<close>, \<open>IsDerivedFunction\<close>, \<open>IsOutOfLineMethodDefinition\<close>,
  \<open>IsInitializerList\<close>, \<open>CheckForNonConstReference\<close>). The checks look back from a line for the
  start of its function; the lines of such a walk are the list of line numbers it runs over.
\<close>

section \<open>The function around a line\<close>

definition re_function_start :: re where
  "re_function_start = rseq [Bol, Grp 1 (rseq [Star (none_of ''()''), rplus rword]), rchr (CHR ''('')]"

definition re_override_word :: re where
  "re_override_word = rseq [WordB, rlit ''override'', WordB]"

definition re_out_of_line :: re where
  "re_out_of_line = rseq [Bol, Star (none_of ''()''), rplus rword, rlit ''::'', rplus rword, rchr (CHR ''('')]"

definition re_function_body :: re where
  "re_function_body = rseq [Bol, Grp 1 (Star rdot), rchr (CHR ''{''), spaces, Eol]"

definition re_colon_initializer :: re where
  "re_colon_initializer = rseq [rspace, rchr (CHR '':''), spaces, rplus rword, one_of ''({'']"

definition re_brace_comma :: re where
  "re_brace_comma = rseq [rchr (CHR ''}''), spaces, rchr (CHR '',''), spaces, Eol]"

definition re_block_or_statement_end :: re where
  "re_block_or_statement_end = rseq [one_of ''{};'', spaces, Eol]"

text \<open>The line numbers from \<open>linenum\<close> back, at most ten.\<close>

definition lines_back :: "nat \<Rightarrow> nat list" where
  "lines_back linenum = rev [linenum - 9 ..< linenum + 1]"

fun derived_function :: "cleansed_lines \<Rightarrow> nat list \<Rightarrow> bool option" where
  "derived_function clean_lines [] = Some False"
| "derived_function clean_lines (i # is) = do {
     start \<leftarrow> py_nth (elided clean_lines) (int i);
     (case re_match re_function_start start of
        None \<Rightarrow> derived_function clean_lines is
      | Some m \<Rightarrow> do {
          (line, _, closing_paren) \<leftarrow> CloseExpression clean_lines i (length (group_text m 1));
          Some (closing_paren \<ge> 0 \<and> found re_override_word (py_from line closing_paren))
        })
   }"

definition IsDerivedFunction :: "cleansed_lines \<Rightarrow> nat \<Rightarrow> bool option" where
  "IsDerivedFunction clean_lines linenum = derived_function clean_lines (lines_back linenum)"

fun out_of_line :: "cleansed_lines \<Rightarrow> nat list \<Rightarrow> bool option" where
  "out_of_line clean_lines [] = Some False"
| "out_of_line clean_lines (i # is) = do {
     line \<leftarrow> py_nth (elided clean_lines) (int i);
     if matches re_function_start line then Some (matches re_out_of_line line) else out_of_line clean_lines is
   }"

definition IsOutOfLineMethodDefinition :: "cleansed_lines \<Rightarrow> nat \<Rightarrow> bool option" where
  "IsOutOfLineMethodDefinition clean_lines linenum = out_of_line clean_lines (lines_back linenum)"

fun initializer_list :: "cleansed_lines \<Rightarrow> nat \<Rightarrow> nat list \<Rightarrow> bool option" where
  "initializer_list clean_lines linenum [] = Some False"
| "initializer_list clean_lines linenum (i # is) = do {
     line \<leftarrow> py_nth (elided clean_lines) (int i);
     let line = (if i = linenum then
         (case re_match re_function_body line of Some m \<Rightarrow> group_text m 1 | None \<Rightarrow> line) else line);
     if found re_colon_initializer line \<or> found re_brace_comma line then Some True
     else if found re_block_or_statement_end line then Some False
     else initializer_list clean_lines linenum is
   }"

definition IsInitializerList :: "cleansed_lines \<Rightarrow> nat \<Rightarrow> bool option" where
  "IsInitializerList clean_lines linenum = initializer_list clean_lines linenum (rev [2 ..< linenum + 1])"

section \<open>Reference parameters\<close>

definition re_ref_param :: re where
  "re_ref_param =
     rseq [Grp 1 (rseq [ropt (rseq [rlit ''const'', spaces1]), ropt (ralt [rseq [rlit ''typename'', spaces1],
       rseq [rlit ''class'', spaces1], rseq [rlit ''struct'', spaces1], rseq [rlit ''union'', spaces1],
       rseq [rlit ''enum'', spaces1]]), rplus (ralt [rword, rseq [spaces, rchr (CHR ''<''),
       Star (ralt [rseq [rchr (CHR ''<''), Star (ralt [rseq [rchr (CHR ''<''), Star (none_of ''<>''),
       rchr (CHR ''>'')], none_of ''<>'']), rchr (CHR ''>'')], none_of ''<>'']), rchr (CHR ''>'')],
       rlit ''::'']), Star (rseq [spaces, ralt [rseq [WordB, rlit ''const'', WordB], rchr (CHR ''*'')]]),
       spaces, rchr (CHR ''&''), spaces,
       Cls (\<lambda>c. ascii_lower c \<or> ascii_upper c \<or> c \<in> set ''_''), Star rword]), spaces,
       ropt (rseq [rchr (CHR ''=''), rplus (none_of '',()'')]), one_of '',)'']"

definition re_const_ref_param :: re where
  "re_const_ref_param =
     ralt [rseq [Star rdot, spaces, WordB, rlit ''const'', spaces, rchr (CHR ''&''), spaces,
       Cls (\<lambda>c. ascii_lower c \<or> ascii_upper c \<or> c \<in> set ''_''), Star rword],
       rseq [rlit ''const'', spaces1, ropt (rseq [rlit ''const'', spaces1]),
       ropt (ralt [rseq [rlit ''typename'', spaces1], rseq [rlit ''class'', spaces1], rseq [rlit ''struct'',
       spaces1], rseq [rlit ''union'', spaces1], rseq [rlit ''enum'', spaces1]]), rplus (ralt [rword,
       rseq [spaces, rchr (CHR ''<''), Star (ralt [rseq [rchr (CHR ''<''), Star (ralt [rseq [rchr (CHR ''<''),
       Star (none_of ''<>''), rchr (CHR ''>'')], none_of ''<>'']), rchr (CHR ''>'')], none_of ''<>'']),
       rchr (CHR ''>'')], rlit ''::'']), spaces, rchr (CHR ''&''), spaces,
       Cls (\<lambda>c. ascii_lower c \<or> ascii_upper c \<or> c \<in> set ''_''), Star rword]]"

definition re_ref_stream_param :: re where
  "re_ref_stream_param =
     rseq [Star rdot, rlit ''stream'', spaces, rchr (CHR ''&''), spaces,
       Cls (\<lambda>c. ascii_lower c \<or> ascii_upper c \<or> c \<in> set ''_''), Star rword]"

definition re_type_continued :: re where
  "re_type_continued =
     rseq [spaces, rlit ''::'', rplus (ralt [Cls (\<lambda>c. py_word c \<or> c \<in> set ''<>''),
       rlit ''::'']), spaces, rchr (CHR ''&''), spaces, rnonspace]"

definition re_type_broken :: re where
  "re_type_broken =
     rseq [WordB, Grp 1 (rseq [ropt (rseq [rlit ''const'', spaces]),
       rplus (ralt [Cls (\<lambda>c. py_word c \<or> c \<in> set ''<>''), rlit ''::'']),
       Cls (\<lambda>c. py_word c \<or> c \<in> set ''<>'')]), spaces, Eol]"

definition re_type_resumed :: re where
  "re_type_resumed =
     rseq [spaces, Cls (\<lambda>c. ascii_lower c \<or> ascii_upper c \<or> c \<in> set ''_''),
       rplus (Grp 1 (ralt [Cls (\<lambda>c. py_word c \<or> c \<in> set ''<>''), rlit ''::''])), spaces,
       rchr (CHR ''&''), spaces, rnonspace]"

definition re_type_broken_colons :: re where
  "re_type_broken_colons =
     rseq [WordB, Grp 1 (rseq [ropt (rseq [rlit ''const'', spaces]),
       rplus (ralt [Cls (\<lambda>c. py_word c \<or> c \<in> set ''<>''), rlit ''::'']), rlit ''::'']), spaces,
       Eol]"

definition re_argument_end :: re where
  "re_argument_end = rseq [one_of ''),'', spaces, Eol]"

definition re_colon_first :: re where
  "re_colon_first = rseq [Bol, spaces, rchr (CHR '':''), spaces1, rnonspace]"

definition re_backslash_end :: re where
  "re_backslash_end = rseq [rchr BSL, spaces, Eol]"

definition re_whitelisted_function :: re where
  "re_whitelisted_function =
     rseq [ralt [rseq [one_of ''sS'', rlit ''wap'', ropt (rseq [rchr (CHR ''<''), rword,
       rplus (rchr (CHR '':'')), rchr (CHR ''>'')])], rseq [rlit ''operator'', spaces, one_of ''<>'',
       one_of ''<>''], rlit ''static_assert'', rlit ''COMPILE_ASSERT''], spaces, rchr (CHR ''('')]"

definition re_open_call :: re where
  "re_open_call = rseq [rplus rnonspace, rchr (CHR ''(''), Star (none_of '')''), Eol]"

definition re_function_braces :: re where
  "re_function_braces = rseq [rchr (CHR ''{''), Star (none_of ''}''), rchr (CHR ''}'')]"

definition re_spaces_angle :: re where
  "re_spaces_angle = rseq [Star (rchr (CHR '' '')), rchr (CHR ''<'')]"

text \<open>The line, with the part of a type on the lines before it.\<close>

definition joined_line :: "cleansed_lines \<Rightarrow> nat \<Rightarrow> string \<Rightarrow> string option" where
  "joined_line clean_lines linenum line =
     (if linenum > 1 then do {
        before \<leftarrow> py_nth (elided clean_lines) (int linenum - 1);
        let previous = (if matches re_type_continued line then re_search re_type_broken before
          else if matches re_type_resumed line then re_search re_type_broken_colons before
          else None);
        (case previous of
           Some m \<Rightarrow> Some (group_text m 1 @ lstrip line)
         | None \<Rightarrow>
             let endpos = py_rfind line (CHR ''>'') in
             if endpos > -1 then do {
               (_, startline, startpos) \<leftarrow> ReverseCloseExpression clean_lines linenum (nat endpos);
               if startpos > -1 \<and> startline < linenum then do {
                 ls \<leftarrow> those (map (\<lambda>i. py_nth (elided clean_lines) (int i)) [startline ..< linenum + 1]);
                 Some (concat (map strip ls))
               } else Some line
             } else Some line)
      } else Some line)"

text \<open>A line before that starts an initializer list, with only arguments in between.\<close>

fun after_initializer :: "cleansed_lines \<Rightarrow> nat list \<Rightarrow> bool option" where
  "after_initializer clean_lines [] = Some False"
| "after_initializer clean_lines (i # is) = do {
     previous_line \<leftarrow> py_nth (elided clean_lines) (int i);
     if \<not> found re_argument_end previous_line then Some False
     else if matches re_colon_first previous_line then Some True
     else after_initializer clean_lines is
   }"

definition outside_functions :: "nesting_state \<Rightarrow> bool" where
  "outside_functions ns = (case previous_stack_top ns of None \<Rightarrow> True | Some b \<Rightarrow> is_class b \<or> is_namespace b)"

text \<open>A function whose references are not checked is on the line or on one of the two lines before.\<close>

fun whitelisted_before :: "cleansed_lines \<Rightarrow> nat \<Rightarrow> nat list \<Rightarrow> bool option" where
  "whitelisted_before clean_lines linenum [] = Some False"
| "whitelisted_before clean_lines linenum (i # is) =
     (if linenum > i then do {
        line \<leftarrow> py_nth (elided clean_lines) (int linenum - int i - 1);
        if found re_whitelisted_function line then Some True else whitelisted_before clean_lines linenum is
      } else whitelisted_before clean_lines linenum is)"

definition whitelisted :: "cleansed_lines \<Rightarrow> nat \<Rightarrow> string \<Rightarrow> bool option" where
  "whitelisted clean_lines linenum line =
     (if found re_whitelisted_function line then Some True
      else if \<not> found re_open_call line then whitelisted_before clean_lines linenum [0, 1]
      else Some False)"

definition reference_errors :: "string \<Rightarrow> nat \<Rightarrow> string \<Rightarrow> diag list" where
  "reference_errors filename linenum line =
     (let decls = re_sub re_function_braces (\<lambda>_. '' '') line;
          parameters = map (\<lambda>m. group_text m 1) (re_finditer re_ref_param decls);
          suspicious = filter (\<lambda>p. \<not> matches re_const_ref_param p \<and> \<not> matches re_ref_stream_param p) parameters
      in map (\<lambda>p. mk_error filename (int linenum) ''runtime/references'' 2
           (''Is this a non-const reference? '' @ ''If so, make const or use a pointer: '' @
            re_sub re_spaces_angle (\<lambda>_. ''<'') p)) suspicious)"

definition CheckForNonConstReference :: "string \<Rightarrow> nesting_state \<Rightarrow> cleansed_lines \<Rightarrow> nat \<Rightarrow> diag list option" where
  "CheckForNonConstReference filename ns clean_lines linenum = do {
     line \<leftarrow> py_nth (elided clean_lines) (int linenum);
     if \<not> contains line ''&'' then Some []
     else do {
       derived \<leftarrow> IsDerivedFunction clean_lines linenum;
       if derived then Some []
       else do {
         definition_line \<leftarrow> IsOutOfLineMethodDefinition clean_lines linenum;
         if definition_line then Some []
         else do {
           line \<leftarrow> joined_line clean_lines linenum line;
           if \<not> outside_functions ns then Some []
           else do {
             initializer \<leftarrow> after_initializer clean_lines (rev [linenum - 10 + 1 ..< linenum]);
             if initializer \<or> found re_backslash_end line then Some []
             else do {
               in_list \<leftarrow> IsInitializerList clean_lines linenum;
               if in_list then Some []
               else do {
                 white \<leftarrow> whitelisted clean_lines linenum line;
                 Some (if white then [] else reference_errors filename linenum line)
               }
             }
           }
         }
       }
     }
   }"

section \<open>Soundness\<close>

definition lines_in :: "cleansed_lines \<Rightarrow> nat list \<Rightarrow> bool" where
  "lines_in cl is \<longleftrightarrow> list_all (\<lambda>i. i < NumLines cl) is"

lemma lines_in_simps [simp]: "lines_in cl []" "lines_in cl (i # is) \<longleftrightarrow> i < NumLines cl \<and> lines_in cl is"
  by (simp_all add: lines_in_def)

lemma lines_back_in: "n < NumLines cl \<Longrightarrow> lines_in cl (lines_back n)"
  by (auto simp: lines_in_def lines_back_def list_all_iff)

lemma function_start_column: "re_match re_function_start line = Some m \<Longrightarrow> length (group_text m 1) < length line"
  unfolding re_function_start_def by (drule re_match_group1) auto

lemma py_rfind_less: "py_rfind s c > -1 \<Longrightarrow> nat (py_rfind s c) < length s"
  using rfind1_length [of c s] by (auto simp: py_rfind_def)

lemma derived_function_returns:
  assumes "well_formed cl" shows "lines_in cl is \<Longrightarrow> \<exists>b. derived_function cl is = Some b"
proof (induction "is")
  case (Cons i "is")
  then have i: "i < NumLines cl" by simp
  show ?case
  proof (cases "re_match re_function_start (elided cl ! i)")
    case (Some m)
    obtain l k p where "CloseExpression cl i (length (group_text m 1)) = Some (l, k, p)"
      using CloseExpression_at [OF assms i function_start_column [OF Some]] .
    with Some show ?thesis by (simp add: cl_lines [OF assms i] del: py_nth_nat)
  qed (use Cons in \<open>simp add: cl_lines [OF assms i] del: py_nth_nat\<close>)
qed (simp add: ex_bool_eq)

lemma out_of_line_returns: "well_formed cl \<Longrightarrow> lines_in cl is \<Longrightarrow> \<exists>b. out_of_line cl is = Some b"
  by (induction "is") (simp_all add: cl_lines ex_bool_eq del: py_nth_nat)

lemma initializer_list_returns: "well_formed cl \<Longrightarrow> lines_in cl is \<Longrightarrow> \<exists>b. initializer_list cl n is = Some b"
  by (induction "is") (simp_all add: cl_lines Let_def ex_bool_eq del: py_nth_nat)

lemma after_initializer_returns: "well_formed cl \<Longrightarrow> lines_in cl is \<Longrightarrow> \<exists>b. after_initializer cl is = Some b"
  by (induction "is") (simp_all add: cl_lines ex_bool_eq del: py_nth_nat)

lemma whitelisted_before_returns:
  assumes "well_formed cl" "n < NumLines cl"
  shows "\<exists>b. whitelisted_before cl n is = Some b"
proof (induction "is")
  case (Cons i "is")
  show ?case
  proof (cases "i < n")
    case True
    have len: "length (elided cl) = NumLines cl" using assms(1) by (simp add: cl_lengths)
    have "- int (length (elided cl)) \<le> int n - int i - 1" "int n - int i - 1 < int (length (elided cl))"
      using True assms(2) len by linarith+
    from py_nth_Some [OF this] obtain l where "py_nth (elided cl) (int n - int i - 1) = Some l" by blast
    with Cons True show ?thesis by (simp add: ex_bool_eq)
  qed (use Cons in simp)
qed (simp add: ex_bool_eq)

lemma joined_line_returns:
  assumes "well_formed cl" "n < NumLines cl"
  shows "\<exists>l. joined_line cl n (elided cl ! n) = Some l"
proof (cases "n > 1")
  case True
  let ?line = "elided cl ! n"
  obtain before where before: "py_nth (elided cl) (int n - 1) = Some before" using py_nth_pred [of n "elided cl"] assms by (auto simp: cl_lengths)
  have split: "\<exists>l. (if py_rfind ?line (CHR ''>'') > -1 then do {
      (_, startline, startpos) \<leftarrow> ReverseCloseExpression cl n (nat (py_rfind ?line (CHR ''>'')));
      if startpos > -1 \<and> startline < n then do {
        ls \<leftarrow> those (map (\<lambda>i. py_nth (elided cl) (int i)) [startline ..< n + 1]); Some (concat (map strip ls)) }
      else Some ?line } else Some ?line) = Some l"
  proof (cases "py_rfind ?line (CHR ''>'') > -1")
    case True
    from ReverseCloseExpression_at [OF assms py_rfind_less [OF True]]
    obtain t k p where close: "ReverseCloseExpression cl n (nat (py_rfind ?line (CHR ''>''))) = Some (t, k, p)" by blast
    have returns: "\<exists>ls. those (map (\<lambda>i. py_nth (elided cl) (int i)) is) = Some ls" if "lines_in cl is" for "is"
      using that assms(1) by (induction "is") (auto simp: cl_lines simp del: py_nth_nat)
    have "lines_in cl [k ..< n + 1]" using assms(2) by (auto simp: lines_in_def list_all_iff)
    from returns [OF this] obtain ls where "those (map (\<lambda>i. py_nth (elided cl) (int i)) [k ..< n + 1]) = Some ls" by blast
    with close show ?thesis by (simp only: Option.bind.bind_lunit prod.case if_True if_False split: if_split) simp
  qed simp
  show ?thesis
    using split by (simp add: joined_line_def True before Let_def split: option.split)
qed (simp add: joined_line_def)

lemma reference_errors_diags: "n < NumLines cl \<Longrightarrow> list_all (file_diag filename cl) (reference_errors filename n line)"
  by (auto simp: reference_errors_def Let_def list_all_iff)

interpretation references: file_check "\<lambda>_ _. True" "\<lambda>filename. CheckForNonConstReference filename ns" for ns
proof
  fix cl :: cleansed_lines and n filename
  assume cl: "well_formed cl" "n < NumLines cl"
  obtain derived where "IsDerivedFunction cl n = Some derived"
    using derived_function_returns [OF cl(1) lines_back_in [OF cl(2)]] by (auto simp: IsDerivedFunction_def)
  moreover obtain out where "IsOutOfLineMethodDefinition cl n = Some out"
    using out_of_line_returns [OF cl(1) lines_back_in [OF cl(2)]] by (auto simp: IsOutOfLineMethodDefinition_def)
  moreover obtain line where "joined_line cl n (elided cl ! n) = Some line" using joined_line_returns [OF cl] by blast
  moreover have "lines_in cl (rev [n - 10 + 1 ..< n])" "lines_in cl (rev [2 ..< n + 1])"
    using cl(2) by (auto simp: lines_in_def list_all_iff)
  then obtain init inits where "after_initializer cl (rev [n - 10 + 1 ..< n]) = Some init" "IsInitializerList cl n = Some inits"
    using after_initializer_returns [OF cl(1)] initializer_list_returns [OF cl(1)] by (metis IsInitializerList_def)
  moreover have "\<exists>b. whitelisted cl n line = Some b"
    using whitelisted_before_returns [OF cl, of "[0, 1]"] by (simp add: whitelisted_def ex_bool_eq del: whitelisted_before.simps)
  then obtain white where "whitelisted cl n line = Some white" by blast
  ultimately show "sound filename cl (CheckForNonConstReference filename ns cl n)"
    by (simp add: CheckForNonConstReference_def cl_lines [OF cl] reference_errors_diags [OF cl(2)] del: py_nth_nat)
qed

end
