(* ===== verification/Casts.thy ===== *)
theory Casts
  imports References
begin

text \<open>
  The checks of casts (\<open>cpplint.py\<close>, \<open>ExpectingFunctionArgs\<close>, \<open>CheckCStyleCast\<close>, \<open>CheckCasts\<close>).
  One lookup of \<open>CheckCasts\<close> can be past the end of a line: the character after the template
  argument of a cast whose address is taken, when that argument ends its line.
\<close>

section \<open>C-style casts\<close>

definition re_mock_method :: re where
  "re_mock_method =
     rseq [Bol, spaces, rlit ''MOCK_'', ropt (Grp 1 (rlit ''CONST_'')), rlit ''METHOD'', rplus rdigit,
       ropt (Grp 2 (rlit ''_T'')), rchr (CHR ''('')]"

definition re_mock_method_name :: re where
  "re_mock_method_name =
     rseq [Bol, spaces, rlit ''MOCK_'', ropt (rlit ''CONST_''), rlit ''METHOD'', rplus rdigit,
       ropt (rlit ''_T''), rchr (CHR ''(''), ropt (rseq [rplus rnonspace, rchr (CHR '','')]), spaces, Eol]"

definition re_mock_method_open :: re where
  "re_mock_method_open =
     rseq [Bol, spaces, rlit ''MOCK_'', ropt (rlit ''CONST_''), rlit ''METHOD'', rplus rdigit,
       ropt (rlit ''_T''), rchr (CHR ''(''), spaces, Eol]"

definition re_std_function_open :: re where
  "re_std_function_open =
     rseq [WordB, rlit ''std::'', ropt (rchr (CHR ''m'')), rlit ''function'', spaces, rchr (CHR ''<''), spaces,
       Eol]"

definition re_keyword_context :: re where
  "re_keyword_context =
     rseq [Star rdot, WordB, ralt [rlit ''sizeof'', rlit ''alignof'', rlit ''alignas'',
       rseq [Cls (\<lambda>c. ascii_upper c \<or> c \<in> set ''_''),
       Star (Cls (\<lambda>c. ascii_upper c \<or> py_digit c \<or> c \<in> set ''_''))]], spaces, Eol]"

definition re_macro_context :: re where
  "re_macro_context =
     rseq [Star rdot, WordB, Cls (\<lambda>c. ascii_upper c \<or> c \<in> set ''_''),
       Star (Cls (\<lambda>c. ascii_upper c \<or> py_digit c \<or> c \<in> set ''_'')), spaces,
       rchr (CHR ''(''), Star (ralt [rseq [rchr (CHR ''(''), Star (none_of ''()''), rchr (CHR '')'')],
       none_of ''()'']), Eol]"

definition re_unnamed_argument :: re where
  "re_unnamed_argument =
     rseq [Bol, spaces, ralt [rchr (CHR '';''), rseq [rlit ''const'', WordB], rseq [rlit ''throw'', WordB],
       rseq [rlit ''final'', WordB], rseq [rlit ''override'', WordB], one_of ''=>{),'', rlit ''->'']]"

definition ExpectingFunctionArgs :: "cleansed_lines \<Rightarrow> nat \<Rightarrow> bool option" where
  "ExpectingFunctionArgs clean_lines linenum = do {
     line \<leftarrow> py_nth (elided clean_lines) (int linenum);
     if matches re_mock_method line then Some True
     else if linenum \<ge> 2 then do {
       before \<leftarrow> py_nth (elided clean_lines) (int linenum - 1);
       before2 \<leftarrow> py_nth (elided clean_lines) (int linenum - 2);
       Some (matches re_mock_method_name before \<or> matches re_mock_method_open before2 \<or> found re_std_function_open before)
     } else Some False
   }"

text \<open>\<open>match.start(n)\<close>.\<close>

definition group_start :: "match_obj \<Rightarrow> nat \<Rightarrow> int" where
  "group_start m n = (case map_of (m_caps m) n of None \<Rightarrow> -1 | Some (p, _) \<Rightarrow> int (length p))"

text \<open>The code returns whether it reported anything: whether the list is not empty.\<close>

definition CheckCStyleCast :: "string \<Rightarrow> cleansed_lines \<Rightarrow> nat \<Rightarrow> string \<Rightarrow> re \<Rightarrow> diag list option" where
  "CheckCStyleCast filename clean_lines linenum cast_type pattern = do {
     line \<leftarrow> py_nth (elided clean_lines) (int linenum);
     (case re_search pattern line of
        None \<Rightarrow> Some []
      | Some m \<Rightarrow>
          let context = py_slice line 0 (group_start m 1 - 1) in
          if matches re_keyword_context context then Some []
          else do {
            before \<leftarrow> text_of_lines (elided clean_lines) [linenum - 5 + 1 ..< linenum];
            let context = before @ context;
            Some (if matches re_macro_context context \<or> ends_with context '' operator++'' \<or>
                ends_with context '' operator--'' \<or> matches re_unnamed_argument (drop (m_end m) line)
              then []
              else [mk_error filename (int linenum) ''readability/casting'' 4
                (''Using C-style cast.  Use '' @ cast_type @ ''<'' @ group_text m 1 @ ''>(...) instead'')])
          })
   }"

section \<open>All casts of a line\<close>

definition re_function_cast :: re where
  "re_function_cast =
     rseq [ropt (Grp 1 (ralt [rseq [WordB, rlit ''new'', spaces1, ropt (rseq [rlit ''const'', spaces1])],
       rseq [rnonspace, rchr (CHR ''<''), spaces, ropt (rseq [rlit ''const'', spaces1])]])), WordB,
       Grp 2 (ralt [rlit ''int'', rlit ''float'', rlit ''double'', rlit ''bool'', rlit ''char'',
       rlit ''int32'', rlit ''uint32'', rlit ''int64'', rlit ''uint64'']), Grp 3 (rseq [rchr (CHR ''(''),
       none_of '')'', Star rdot])]"

definition re_cast_array :: re where
  "re_cast_array = rseq [rchr (CHR ''(''), rplus (none_of ''()''), rchr (CHR '')''), spaces, rchr (CHR ''['')]"

definition re_function_pointer :: re where
  "re_function_pointer =
     rseq [rchr (CHR ''(''), ropt (rseq [rplus (none_of ''() ''), rlit ''::'', spaces, rchr (CHR ''*''),
       spaces]), rplus (none_of ''() ''), rchr (CHR '')''), spaces, rchr (CHR ''('')]"

definition re_static_cast :: re where
  "re_static_cast =
     rseq [rchr (CHR ''(''), Grp 1 (ralt [rlit ''int'', rlit ''float'', rlit ''double'', rlit ''bool'',
       rlit ''char'', rseq [ropt (rchr (CHR ''u'')), rlit ''int'', Grp 2 (ralt [rlit ''16'', rlit ''32'',
       rlit ''64''])]]), rchr (CHR '')'')]"

definition re_const_cast :: re where
  "re_const_cast =
     rseq [rchr (CHR ''(''), Grp 1 (rseq [rlit ''char'', ropt rspace, rplus (rchr (CHR ''*'')), ropt rspace]),
       rchr (CHR '')''), spaces, rchr DQ]"

definition re_reinterpret_cast :: re where
  "re_reinterpret_cast =
     rseq [rchr (CHR ''(''), Grp 1 (rseq [rplus rword, ropt rspace, rplus (rchr (CHR ''*'')), ropt rspace]),
       rchr (CHR '')'')]"

definition re_cast_address :: re where
  "re_cast_address =
     rseq [Cls (\<lambda>c. \<not> (py_word c)), rchr (CHR ''&''), ralt [rseq [rchr (CHR ''(''),
       Grp 1 (rseq [none_of '')*'', Star (none_of '')'')]), rchr (CHR '')''),
       Cls (\<lambda>c. py_word c \<or> c \<in> set ''('')], rseq [Grp 2 (ralt [rlit ''static'',
       rlit ''dynamic'', rlit ''down'', rlit ''reinterpret'']), rlit ''_cast'', WordB]]]"

definition re_named_cast :: re where
  "re_named_cast =
     rseq [Bol, Grp 1 (rseq [Star rdot, rchr (CHR ''&''), ralt [rlit ''static'', rlit ''dynamic'',
       rlit ''down'', rlit ''reinterpret''], rlit ''_cast'', WordB]), rchr (CHR ''<'')]"

definition re_dereferenced :: re where
  "re_dereferenced = rseq [spaces, ralt [rlit ''->'', rchr (CHR ''['')]]"

definition re_using_type :: "string \<Rightarrow> re" where
  "re_using_type matched_type = rseq [spaces, rlit ''using'', spaces1, rplus rnonspace, spaces, rchr (CHR ''=''), spaces, rlit matched_type]"

definition re_new_type :: "string \<Rightarrow> re" where
  "re_new_type matched_type = rseq [rlit ''new('', rplus rnonspace, rchr (CHR '')''), spaces, rlit matched_type]"

definition function_cast_errors :: "string \<Rightarrow> nat \<Rightarrow> string \<Rightarrow> match_obj \<Rightarrow> diag list" where
  "function_cast_errors filename linenum line m =
     (let matched_type = group_text m 2; matched_funcptr = group_text m 3 in
      report_if (m_group m 1 = None \<and>
          \<not> (matched_funcptr \<noteq> [] \<and> (matches re_function_pointer matched_funcptr \<or> starts_with matched_funcptr ''(*)'')) \<and>
          \<not> matches (re_using_type matched_type) line \<and> \<not> found (re_new_type matched_type) line)
        (mk_error filename (int linenum) ''readability/casting'' 4
          (''Using deprecated casting style.  '' @ ''Use static_cast<'' @ matched_type @ ''>(...) instead'')))"

definition check_pointer_casts :: "string \<Rightarrow> cleansed_lines \<Rightarrow> nat \<Rightarrow> diag list option" where
  "check_pointer_casts filename clean_lines linenum = do {
     const_casts \<leftarrow> CheckCStyleCast filename clean_lines linenum ''const_cast'' re_const_cast;
     if const_casts \<noteq> [] then Some const_casts
     else CheckCStyleCast filename clean_lines linenum ''reinterpret_cast'' re_reinterpret_cast
   }"

text \<open>Whether the \<open>&\<close> before the cast takes the address of something that the cast is dereferenced for.\<close>

definition parenthesis_error :: "cleansed_lines \<Rightarrow> nat \<Rightarrow> string \<Rightarrow> bool option" where
  "parenthesis_error clean_lines linenum line =
     (case re_match re_named_cast line of
        None \<Rightarrow> Some False
      | Some m \<Rightarrow> do {
          (_, y1, x1) \<leftarrow> CloseExpression clean_lines linenum (length (group_text m 1));
          if x1 < 0 then Some False
          else do {
            line1 \<leftarrow> py_nth (elided clean_lines) (int y1);
            c \<leftarrow> py_nth line1 x1;
            if c \<noteq> CHR ''('' then Some False
            else do {
              (_, y2, x2) \<leftarrow> CloseExpression clean_lines y1 (nat x1);
              if x2 < 0 then Some False
              else do {
                line2 \<leftarrow> py_nth (elided clean_lines) (int y2);
                more \<leftarrow> (if int y2 < int (NumLines clean_lines) - 1 then py_nth (elided clean_lines) (int y2 + 1) else Some []);
                Some (matches re_dereferenced (py_from line2 x2 @ more))
              }
            }
          }
        })"

definition check_cast_address :: "string \<Rightarrow> cleansed_lines \<Rightarrow> nat \<Rightarrow> string \<Rightarrow> diag list option" where
  "check_cast_address filename clean_lines linenum line =
     (if found re_cast_address line then do {
        parens \<leftarrow> parenthesis_error clean_lines linenum line;
        Some [if parens
          then mk_error filename (int linenum) ''readability/casting'' 4
            (''Are you taking an address of something dereferenced '' @
             ''from a cast?  Wrapping the dereferenced expression in '' @
             ''parentheses will make the binding more obvious'')
          else mk_error filename (int linenum) ''runtime/casting'' 4
            (''Are you taking an address of a cast?  '' @
             ''This is dangerous: could be a temp var.  '' @
             ''Take the address before doing the cast, rather than after'')]
      } else Some [])"

definition CheckCasts :: "string \<Rightarrow> cleansed_lines \<Rightarrow> nat \<Rightarrow> diag list option" where
  "CheckCasts filename clean_lines linenum = do {
     line \<leftarrow> py_nth (elided clean_lines) (int linenum);
     expecting_function \<leftarrow> ExpectingFunctionArgs clean_lines linenum;
     let function_cast = (if expecting_function then None else re_search re_function_cast line);
     if (case function_cast of None \<Rightarrow> False | Some m \<Rightarrow> matches re_cast_array (group_text m 3)) then Some []
     else run_all [
       Some (case function_cast of None \<Rightarrow> [] | Some m \<Rightarrow> function_cast_errors filename linenum line m),
       if expecting_function then Some []
         else CheckCStyleCast filename clean_lines linenum ''static_cast'' re_static_cast,
       check_pointer_casts filename clean_lines linenum,
       check_cast_address filename clean_lines linenum line]
   }"

section \<open>Soundness, and the index out of range\<close>

lemma ExpectingFunctionArgs_returns:
  assumes "well_formed cl" "n < NumLines cl"
  shows "\<exists>b. ExpectingFunctionArgs cl n = Some b"
proof -
  have len: "length (elided cl) = NumLines cl" using assms(1) by (simp add: cl_lengths)
  have "\<exists>l. py_nth (elided cl) (int n - 1) = Some l" "\<exists>l. py_nth (elided cl) (int n - 2) = Some l" if "n \<ge> 2"
    using that assms(2) len by (auto intro!: py_nth_Some)
  then show ?thesis by (force simp: ExpectingFunctionArgs_def cl_lines [OF assms] ex_bool_eq simp del: py_nth_nat)
qed

lemma CheckCStyleCast_sound:
  assumes "well_formed cl" "n < NumLines cl"
  shows "sound filename cl (CheckCStyleCast filename cl n cast_type r)"
proof -
  have "list_all (\<lambda>i. i < length (elided cl)) [n - 5 + 1 ..< n]" using assms by (auto simp: list_all_iff cl_lengths)
  from text_of_lines_returns [OF this] obtain t where "text_of_lines (elided cl) [n - 5 + 1 ..< n] = Some t" by blast
  then show ?thesis
    using assms(2) by (simp add: CheckCStyleCast_def cl_lines [OF assms] Let_def del: py_nth_nat split: option.split)
qed

lemma check_pointer_casts_sound:
  assumes "well_formed cl" "n < NumLines cl"
  shows "sound filename cl (check_pointer_casts filename cl n)"
  unfolding check_pointer_casts_def
  by (rule sound_bind [OF CheckCStyleCast_sound [OF assms]]) (simp add: CheckCStyleCast_sound [OF assms])

text \<open>
  The address of a named cast is taken on the line, and the template argument of the cast is the last
  thing on its line.
\<close>

definition cast_at_line_end :: "cleansed_lines \<Rightarrow> nat \<Rightarrow> bool" where
  "cast_at_line_end cl n = (case re_match re_named_cast (elided cl ! n) of
     None \<Rightarrow> False
   | Some m \<Rightarrow> (case CloseExpression cl n (length (group_text m 1)) of
         None \<Rightarrow> False
       | Some (_, y, x) \<Rightarrow> x \<ge> 0 \<and> nat x = length (elided cl ! y)))"

definition casts_stuck :: "cleansed_lines \<Rightarrow> nat \<Rightarrow> bool" where
  "casts_stuck cl n \<longleftrightarrow> found re_cast_address (elided cl ! n) \<and> cast_at_line_end cl n \<and>
     \<not> (ExpectingFunctionArgs cl n = Some False \<and>
        (case re_search re_function_cast (elided cl ! n) of None \<Rightarrow> False | Some m \<Rightarrow> matches re_cast_array (group_text m 3)))"

lemma named_cast_column: "re_match re_named_cast line = Some m \<Longrightarrow> length (group_text m 1) < length line"
  unfolding re_named_cast_def by (drule re_match_group1) auto

lemma parenthesis_error_result:
  assumes cl: "well_formed cl" "n < NumLines cl"
  shows "parenthesis_error cl n (elided cl ! n) = None \<longleftrightarrow> cast_at_line_end cl n"
proof (cases "re_match re_named_cast (elided cl ! n)")
  case (Some m)
  obtain l y x where close: "CloseExpression cl n (length (group_text m 1)) = Some (l, y, x)" "close_pointer cl n (l, y, x)"
    using CloseExpression_at [OF cl named_cast_column [OF Some]] .
  show ?thesis
  proof (cases "x < 0")
    case False
    then have y: "y < NumLines cl" "nat x \<le> length (elided cl ! y)" using close(2) by (auto simp: close_pointer_def)
    show ?thesis
    proof (cases "nat x < length (elided cl ! y)")
      case True
      with False have c: "py_nth (elided cl ! y) x = Some (elided cl ! y ! nat x)" by (simp add: py_nth_def)
      obtain l2 y2 x2 where close2: "CloseExpression cl y (nat x) = Some (l2, y2, x2)" "close_pointer cl y (l2, y2, x2)"
        using CloseExpression_at [OF cl(1) y(1) True] .
      have "\<exists>t. (if int y2 < int (NumLines cl) - 1 then py_nth (elided cl) (int y2 + 1) else Some []) = Some t"
      proof (cases "int y2 < int (NumLines cl) - 1")
        case True
        then have "- int (length (elided cl)) \<le> int y2 + 1" "int y2 + 1 < int (length (elided cl))" using cl(1) by (simp_all add: cl_lengths)
        from py_nth_Some [OF this] True show ?thesis by simp
      qed simp
      then obtain t where "(if int y2 < int (NumLines cl) - 1 then py_nth (elided cl) (int y2 + 1) else Some []) = Some t" by blast
      moreover have "x2 \<ge> 0 \<Longrightarrow> y2 < NumLines cl" using close2(2) by (auto simp: close_pointer_def)
      ultimately show ?thesis using Some close(1) close2(1) False True c y(1)
        by (cases "x2 < 0") (simp_all add: parenthesis_error_def cast_at_line_end_def cl_lines [OF cl(1)] ex_bool_eq del: py_nth_nat)
    next
      case end_of_line: False
      with y False have "py_nth (elided cl ! y) x = None" by (simp add: py_nth_def)
      with Some close(1) False end_of_line y show ?thesis
        by (simp add: parenthesis_error_def cast_at_line_end_def cl_lines [OF cl(1)] del: py_nth_nat)
    qed
  qed (use Some close(1) in \<open>simp add: parenthesis_error_def cast_at_line_end_def\<close>)
qed (simp add: parenthesis_error_def cast_at_line_end_def)

lemma check_cast_address_result:
  assumes "well_formed cl" "n < NumLines cl"
  shows "if found re_cast_address (elided cl ! n) \<and> cast_at_line_end cl n then check_cast_address filename cl n (elided cl ! n) = None
    else sound filename cl (check_cast_address filename cl n (elided cl ! n))"
  using parenthesis_error_result [OF assms] assms(2)
  by (cases "parenthesis_error cl n (elided cl ! n)") (simp_all add: check_cast_address_def)

lemma run_all_None: "None \<in> set rs \<Longrightarrow> run_all rs = None"
  by (induction rs) (auto simp: and_then_def)

lemma CheckCasts_result:
  assumes cl: "well_formed cl" "n < NumLines cl"
  shows "if casts_stuck cl n then CheckCasts filename cl n = None else sound filename cl (CheckCasts filename cl n)"
proof -
  obtain expecting where expecting: "ExpectingFunctionArgs cl n = Some expecting" using ExpectingFunctionArgs_returns [OF cl] by blast
  define function_cast where "function_cast = (if expecting then None else re_search re_function_cast (elided cl ! n))"
  define early where "early = (case function_cast of None \<Rightarrow> False | Some m \<Rightarrow> matches re_cast_array (group_text m 3))"
  let ?checks = "[Some (case function_cast of None \<Rightarrow> [] | Some m \<Rightarrow> function_cast_errors filename n (elided cl ! n) m),
      if expecting then Some [] else CheckCStyleCast filename cl n ''static_cast'' re_static_cast,
      check_pointer_casts filename cl n, check_cast_address filename cl n (elided cl ! n)]"
  have run: "CheckCasts filename cl n = (if early then Some [] else run_all ?checks)"
    by (simp only: CheckCasts_def cl_lines [OF cl] expecting Option.bind.bind_lunit Let_def function_cast_def early_def)
  have stuck: "casts_stuck cl n \<longleftrightarrow> \<not> early \<and> found re_cast_address (elided cl ! n) \<and> cast_at_line_end cl n"
    by (auto simp: casts_stuck_def expecting early_def function_cast_def)
  have casts_ok: "list_all (file_diag filename cl) (function_cast_errors filename n line m)" for line m
    using cl(2) by (simp add: function_cast_errors_def Let_def)
  show ?thesis
  proof (cases "found re_cast_address (elided cl ! n) \<and> cast_at_line_end cl n")
    case True
    with check_cast_address_result [OF cl, of filename] have "check_cast_address filename cl n (elided cl ! n) = None" by simp
    then have "run_all ?checks = None" by (intro run_all_None) simp
    with True run stuck show ?thesis by simp
  next
    case False
    with check_cast_address_result [OF cl, of filename] have "sound filename cl (check_cast_address filename cl n (elided cl ! n))"
      by (simp split: if_splits)
    then have "sound filename cl (run_all ?checks)"
      by (intro sound_run_all) (simp add: casts_ok CheckCStyleCast_sound [OF cl] check_pointer_casts_sound [OF cl])
    then have "sound filename cl (CheckCasts filename cl n)" unfolding run by (simp del: run_all.simps)
    moreover have "\<not> casts_stuck cl n" using False stuck by blast
    ultimately show ?thesis by simp
  qed
qed

interpretation casts: file_check "\<lambda>cl n. \<not> casts_stuck cl n" CheckCasts
proof
  fix cl :: cleansed_lines and n filename
  assume "well_formed cl" "n < NumLines cl" "\<not> casts_stuck cl n"
  with CheckCasts_result [of cl n filename] show "sound filename cl (CheckCasts filename cl n)" by simp
qed

text \<open>On a line of a cleansed file \<open>CheckCasts\<close> raises exactly when it gets to a named cast whose address
  is taken and whose template argument ends its line.\<close>

theorem CheckCasts_raises:
  assumes "well_formed cl" "n < NumLines cl"
  shows "CheckCasts filename cl n = None \<longleftrightarrow> casts_stuck cl n"
  using CheckCasts_result [OF assms, of filename] by (auto simp: sound_def split: if_splits)

definition cast_file :: cleansed_lines where
  "cast_file = (let ls = [''f(&static_cast<A*>'', ''(x));''] in
     \<lparr>elided = ls, lines = ls, raw_lines = ls, num_lines = 2, lines_without_raw_strings = ls\<rparr>)"

theorem CheckCasts_raises_witness: "CheckCasts ''a.cc'' cast_file 0 = None"
proof (subst CheckCasts_raises)
  show "well_formed cast_file" "0 < NumLines cast_file" by (simp_all add: cast_file_def well_formed_def NumLines_def Let_def)
  show "casts_stuck cast_file 0" by code_simp
qed

end
