(* ===== verification/Language.thy ===== *)
theory Language
  imports Casts
begin

text \<open>
  The checks of the language rules (\<open>cpplint.py\<close>, \<open>_GetTextInside\<close>, \<open>CheckLanguage\<close>,
  \<open>CheckGlobalStatic\<close>, \<open>CheckPrintf\<close>). The text inside brackets is found with a stack of the
  closing brackets still expected; a grammar of nested texts says what it finds.
\<close>

section \<open>Text inside brackets\<close>

definition matching_punctuation :: "(char \<times> char) list" where
  "matching_punctuation = [(CHR ''('', CHR '')''), (CHR ''{'', CHR ''}''), (CHR ''['', CHR '']'')]"

definition closing_of :: "char \<Rightarrow> char option" where
  "closing_of c = map_of matching_punctuation c"

definition closing_punctuation :: "char set" where
  "closing_punctuation = snd ` set matching_punctuation"

text \<open>How many characters it takes until every bracket of the stack is closed.\<close>

fun inside_length :: "string \<Rightarrow> string \<Rightarrow> nat option" where
  "inside_length [] rest = Some 0"
| "inside_length (c # cs) [] = None"
| "inside_length (c # cs) (x # rest) =
     (if x = c then map_option Suc (inside_length cs rest)
      else if x \<in> closing_punctuation then None
      else case closing_of x of
          Some c' \<Rightarrow> map_option Suc (inside_length (c' # c # cs) rest)
        | None \<Rightarrow> map_option Suc (inside_length (c # cs) rest))"

text \<open>\<open>None\<close> is a failed assertion: the pattern matched without an opening bracket at its end.\<close>

definition GetTextInside :: "string \<Rightarrow> re \<Rightarrow> string option option" where
  "GetTextInside txt start_pattern =
     (case re_search start_pattern txt of
        None \<Rightarrow> Some None
      | Some m \<Rightarrow>
          (case m_upto m of
             [] \<Rightarrow> None
           | x # _ \<Rightarrow>
               (case closing_of x of
                  None \<Rightarrow> None
                | Some c \<Rightarrow> Some (map_option (\<lambda>k. take (k - 1) (m_rest m)) (inside_length [c] (m_rest m))))))"

section \<open>Global strings and self-initialization\<close>

definition re_declaration_open :: re where
  "re_declaration_open = one_of '';({''"

definition re_static_string :: re where
  "re_static_string =
     rseq [Grp 1 (rseq [ralt [Eps, rseq [rlit ''static'', rplus (rchr (CHR '' ''))]], ralt [Eps,
       rseq [rlit ''const'', rplus (rchr (CHR '' ''))]]]), ropt (rseq [Star (rchr (CHR '':'')),
       rlit ''std::'']), rlit ''string'', ropt (Grp 2 (rseq [rplus (rchr (CHR '' '')), rlit ''const''])),
       rplus (rchr (CHR '' '')),
       Grp 3 (rplus (Cls (\<lambda>c. ascii_lower c \<or> ascii_upper c \<or> py_digit c \<or> c \<in> set ''_:''))),
       WordB, Grp 4 (Star rdot)]"

definition re_string_pointer :: re where
  "re_string_pointer =
     rseq [WordB, rlit ''string'', WordB, ropt (Grp 1 (rseq [spaces1, rlit ''const''])), spaces, one_of ''*&'',
       spaces, ropt (Grp 2 (rseq [rlit ''const'', spaces1])), rword]"

definition re_operator_symbol :: re where
  "re_operator_symbol = rseq [WordB, rlit ''operator'', rnonword]"

definition re_function_after_name :: re where
  "re_function_after_name =
     rseq [spaces, ropt (Grp 1 (rseq [rchr (CHR ''<''), Star rdot, rchr (CHR ''>'')])),
       Star (Grp 2 (rseq [rlit ''::'',
       rplus (Cls (\<lambda>c. ascii_lower c \<or> ascii_upper c \<or> py_digit c \<or> c \<in> set ''_''))])),
       spaces, rchr (CHR ''(''), Grp 3 (ralt [none_of [DQ], Eol])]"

definition re_const_word :: re where
  "re_const_word = rseq [WordB, rlit ''const'', WordB]"

text \<open>
  The two patterns with a back reference, \<open>\b([A-Za-z0-9_]*_)\(\1\)\<close> and the one with
  \<open>CHECK_NOTNULL\<close>: for a text of the line in the class of the group, the pattern with this text in
  both places is searched.
\<close>

definition member_name :: "string \<Rightarrow> bool" where
  "member_name w \<longleftrightarrow> w \<noteq> [] \<and> last w = CHR ''_'' \<and> list_all (\<lambda>c. ascii_alnum c \<or> c = CHR ''_'') w"

fun prefixes_of :: "string \<Rightarrow> string list" where
  "prefixes_of [] = [[]]"
| "prefixes_of (x # xs) = [] # map (Cons x) (prefixes_of xs)"

fun member_names :: "string \<Rightarrow> string list" where
  "member_names [] = []"
| "member_names (x # xs) = filter member_name (prefixes_of (x # xs)) @ member_names xs"

definition re_self_init :: "string \<Rightarrow> re" where
  "re_self_init w = rseq [WordB, rlit w, rchr (CHR ''(''), rlit w, rchr (CHR '')'')]"

definition re_self_init_checked :: "string \<Rightarrow> re" where
  "re_self_init_checked w = rseq [WordB, rlit w, rlit ''(CHECK_NOTNULL('', rlit w, rlit ''))'']"

definition initializes_itself :: "string \<Rightarrow> bool" where
  "initializes_itself line \<longleftrightarrow>
     list_ex (\<lambda>w. found (re_self_init w) line \<or> found (re_self_init_checked w) line) (member_names line)"

definition static_string_errors :: "string \<Rightarrow> nat \<Rightarrow> string \<Rightarrow> diag list" where
  "static_string_errors filename linenum line =
     (case re_match re_static_string line of
        None \<Rightarrow> []
      | Some m \<Rightarrow>
          if \<not> found re_string_pointer line \<and> \<not> found re_operator_symbol line \<and>
             \<not> matches re_function_after_name (group_text m 4)
          then [if found re_const_word line then
              mk_error filename (int linenum) ''runtime/string'' 4
                (''For a static/global string constant, use a C style string '' @
                 ''instead: '' @ [DQ] @ group_text m 1 @ ''char'' @ group_text m 2 @ '' '' @ group_text m 3 @ ''[]'' @ [DQ] @ ''.'')
            else mk_error filename (int linenum) ''runtime/string'' 4
                ''Static/global string variables are not permitted.'']
          else [])"

definition CheckGlobalStatic :: "string \<Rightarrow> cleansed_lines \<Rightarrow> nat \<Rightarrow> diag list option" where
  "CheckGlobalStatic filename clean_lines linenum = do {
     line \<leftarrow> py_nth (elided clean_lines) (int linenum);
     more \<leftarrow> (if int linenum + 1 < int (NumLines clean_lines) \<and> \<not> found re_declaration_open line
             then map_option strip (py_nth (elided clean_lines) (int linenum + 1)) else Some []);
     let line = line @ more;
     Some (static_string_errors filename linenum line
       @ report_if (initializes_itself line) (mk_error filename (int linenum) ''runtime/init'' 4
           ''You seem to be initializing a member variable with itself.''))
   }"

section \<open>Formatted output\<close>

definition re_snprintf :: re where
  "re_snprintf =
     rseq [rlit ''snprintf'', spaces, rchr (CHR ''(''), Grp 1 (Star (none_of '','')), rchr (CHR '',''), spaces,
       Grp 2 (Star rdigit), spaces, rchr (CHR '','')]"

definition re_sprintf :: re where
  "re_sprintf = rseq [WordB, rlit ''sprintf'', spaces, rchr (CHR ''('')]"

definition re_strcpy :: re where
  "re_strcpy =
     rseq [WordB, Grp 1 (rseq [rlit ''strc'', ralt [rlit ''py'', rlit ''at'']]), spaces, rchr (CHR ''('')]"

definition CheckPrintf :: "string \<Rightarrow> cleansed_lines \<Rightarrow> nat \<Rightarrow> diag list option" where
  "CheckPrintf filename clean_lines linenum = do {
     line \<leftarrow> py_nth (elided clean_lines) (int linenum);
     Some ((case re_search re_snprintf line of
         None \<Rightarrow> []
       | Some m \<Rightarrow> report_if (group_text m 2 \<noteq> ''0'') (mk_error filename (int linenum) ''runtime/printf'' 3
           (''If you can, use sizeof('' @ group_text m 1 @ '') instead of '' @ group_text m 2 @ '' as the 2nd arg '' @
            ''to snprintf.'')))
       @ report_if (found re_sprintf line) (mk_error filename (int linenum) ''runtime/printf'' 5
           ''Never use sprintf. Use snprintf instead.'')
       @ (case re_search re_strcpy line of
            None \<Rightarrow> []
          | Some m \<Rightarrow> [mk_error filename (int linenum) ''runtime/printf'' 4
              (''Almost always, snprintf is better than '' @ group_text m 1)]))
   }"

text \<open>A letter with the flag \<open>IGNORECASE\<close>; below 256 no other character folds to an ASCII letter.\<close>

definition rlit_ci :: "string \<Rightarrow> re" where
  "rlit_ci s = rseq (map (\<lambda>c. Cls (\<lambda>x. py_lower_char x = c)) s)"

definition re_printf_start :: re where
  "re_printf_start = rseq [WordB, ropt (Grp 1 (rlit_ci ''string'')), rlit_ci ''printf'', spaces, rchr (CHR ''('')]"

definition re_printf_name :: re where
  "re_printf_name = rseq [WordB, Grp 1 (rseq [ropt (rlit_ci ''string''), rlit_ci ''printf'']), spaces, rchr (CHR ''('')]"

definition re_word_arguments :: re where
  "re_word_arguments = rseq [Grp 1 (rplus (Cls (\<lambda>c. py_word c \<or> c \<in> set ''.->()''))), Eol]"

definition check_printf_arguments :: "string \<Rightarrow> nat \<Rightarrow> string \<Rightarrow> diag list option" where
  "check_printf_arguments filename linenum line = do {
     args \<leftarrow> GetTextInside line re_printf_start;
     (case args of
        None \<Rightarrow> Some []
      | Some printf_args \<Rightarrow>
          (case re_match re_word_arguments printf_args of
             None \<Rightarrow> Some []
           | Some m \<Rightarrow>
               if printf_args \<noteq> [] \<and> group_text m 1 \<noteq> ''__VA_ARGS__'' then do {
                 name \<leftarrow> re_search re_printf_name line;
                 Some [mk_error filename (int linenum) ''runtime/printf'' 4
                   (''Potential format string bug. Do '' @ group_text name 1 @ ''('' @ [DQ] @ ''%s'' @ [DQ] @ '', '' @
                    group_text m 1 @ '') instead.'')]
               } else Some []))
   }"

section \<open>The language rules\<close>

definition re_conditional_directive :: re where
  "re_conditional_directive =
     rseq [Bol, spaces, rchr (CHR ''#''), spaces, Grp 1 (ralt [rlit ''if'', rlit ''ifdef'', rlit ''ifndef'',
       rlit ''elif'', rlit ''else'', rlit ''endif'']), WordB]"

definition re_short_port :: re where
  "re_short_port = rseq [WordB, rlit ''short port'', WordB]"

definition re_unsigned_short_port :: re where
  "re_unsigned_short_port = rseq [WordB, rlit ''unsigned short port'', WordB]"

definition re_c_integer :: re where
  "re_c_integer =
     rseq [WordB, Grp 1 (ralt [rlit ''short'', rseq [rlit ''long'', NegA (rseq [rplus (rchr (CHR '' '')),
       rlit ''double''])], rlit ''long long'']), WordB]"

definition re_unary_address :: re where
  "re_unary_address =
     rseq [WordB, rlit ''operator'', spaces, rchr (CHR ''&''), spaces, rchr (CHR ''(''), spaces,
       rchr (CHR '')'')]"

definition re_brace_if :: re where
  "re_brace_if = rseq [rchr (CHR ''}''), spaces, rlit ''if'', spaces, rchr (CHR ''('')]"

definition re_memset :: re where
  "re_memset =
     rseq [rlit ''memset'', spaces, rchr (CHR ''(''), Grp 1 (Star (none_of '','')), rchr (CHR '',''), spaces,
       Grp 2 (Star (none_of '','')), rchr (CHR '',''), spaces, rchr (CHR ''0''), spaces, rchr (CHR '')'')]"

definition re_memset_value :: re where
  "re_memset_value =
     ralt [rseq [Bol, rlit ([SQ] @ [SQ])], rseq [ropt (rchr (CHR ''-'')), rplus rdigit], rseq [rlit ''0x'',
       Cls (\<lambda>c. py_digit c \<or> c \<in> set ''ABCDEFabcdef''), Eol]]"

definition re_using_namespace :: re where
  "re_using_namespace = rseq [WordB, rlit ''using namespace'', WordB]"

definition re_literals :: re where
  "re_literals = rseq [WordB, rlit ''literals'', WordB]"

definition re_array_declaration :: re where
  "re_array_declaration =
     rseq [spaces, ropt (Grp 1 (rseq [rplus rdot, rlit ''::''])), Grp 2 (rplus rword), rchr (CHR '' ''),
       Cls (\<lambda>c. ascii_lower c), Star rword, rchr (CHR ''[''), Grp 3 (rplus rdot), rlit ''];'']"

definition re_size_delimiter :: re where
  "re_size_delimiter =
     ralt [rspace, rchr (CHR ''+''), rchr (CHR ''-''), rchr (CHR ''*''), rchr (CHR ''/''), rlit ''<<'',
       rlit ''>>]'']"

definition re_sizeof_call :: re where
  "re_sizeof_call = rseq [rlit ''sizeof('', rplus rdot, rchr (CHR '')'')]"

definition re_arraysize_call :: re where
  "re_arraysize_call = rseq [rlit ''arraysize('', rplus rword, rchr (CHR '')'')]"

definition re_decimal :: re where
  "re_decimal = rplus rdigit"

definition re_hexadecimal :: re where
  "re_hexadecimal =
     rseq [rchr (CHR ''0''), one_of ''xX'',
       rplus (Cls (\<lambda>c. py_digit c \<or> c \<in> set ''abcdefABCDEF''))]"

definition re_k_constant :: re where
  "re_k_constant = rseq [rchr (CHR ''k''), Cls (\<lambda>c. ascii_upper c \<or> py_digit c), Star rword]"

definition re_scoped_k_constant :: re where
  "re_scoped_k_constant =
     rseq [ropt (Grp 1 (rseq [rplus rdot, rlit ''::''])), rchr (CHR ''k''),
       Cls (\<lambda>c. ascii_upper c \<or> py_digit c), Star rword]"

definition re_upper_constant :: re where
  "re_upper_constant =
     rseq [ropt (Grp 1 (rseq [rplus rdot, rlit ''::''])), Cls (\<lambda>c. ascii_upper c),
       Star (Cls (\<lambda>c. ascii_upper c \<or> py_digit c \<or> c \<in> set ''_''))]"

definition re_unnamed_namespace :: re where
  "re_unnamed_namespace = rseq [WordB, rlit ''namespace'', spaces, rchr (CHR ''{'')]"

definition check_int_types :: "string \<Rightarrow> nat \<Rightarrow> string \<Rightarrow> diag list" where
  "check_int_types filename linenum line =
     (if found re_short_port line then
        report_if (\<not> found re_unsigned_short_port line) (mk_error filename (int linenum) ''runtime/int'' 4
          (''Use '' @ [DQ] @ ''unsigned short'' @ [DQ] @ '' for ports, not '' @ [DQ] @ ''short'' @ [DQ]))
      else (case re_search re_c_integer line of
          None \<Rightarrow> []
        | Some m \<Rightarrow> [mk_error filename (int linenum) ''runtime/int'' 4
            (''Use int16/int64/etc, rather than the C type '' @ group_text m 1)]))"

definition check_operators :: "string \<Rightarrow> nat \<Rightarrow> string \<Rightarrow> diag list" where
  "check_operators filename linenum line =
     report_if (found re_unary_address line) (mk_error filename (int linenum) ''runtime/operator'' 4
       ''Unary operator& is dangerous.  Do not use it.'')
     @ report_if (found re_brace_if line) (mk_error filename (int linenum) ''readability/braces'' 4
       (''Did you mean '' @ [DQ] @ ''else if'' @ [DQ] @ ''? If not, start a new line for '' @ [DQ] @ ''if'' @ [DQ] @ ''.''))"

definition check_memset :: "string \<Rightarrow> nat \<Rightarrow> string \<Rightarrow> diag list" where
  "check_memset filename linenum line =
     (case re_search re_memset line of
        None \<Rightarrow> []
      | Some m \<Rightarrow> report_if (\<not> matches re_memset_value (group_text m 2)) (mk_error filename (int linenum) ''runtime/memset'' 4
          (''Did you mean '' @ [DQ] @ ''memset('' @ group_text m 1 @ '', 0, '' @ group_text m 2 @ '')'' @ [DQ] @ ''?'')))"

definition check_using_namespace :: "string \<Rightarrow> nat \<Rightarrow> string \<Rightarrow> diag list" where
  "check_using_namespace filename linenum line =
     (if found re_using_namespace line then
        [mk_error filename (int linenum) (if found re_literals line then ''build/namespaces_literals'' else ''build/namespaces'') 5
          (''Do not use namespace using-directives.  '' @ ''Use using-declarations instead.'')]
      else [])"

text \<open>\<open>re.split\<close> for a pattern without groups that does not match the empty text.\<close>

fun split_at_matches :: "string \<Rightarrow> string \<Rightarrow> match_obj list \<Rightarrow> string list" where
  "split_at_matches s before [] = [drop (length before) s]"
| "split_at_matches s before (m # ms) = text_between before (m_before m) # split_at_matches s (m_upto m) ms"

definition re_split :: "re \<Rightarrow> string \<Rightarrow> string list" where
  "re_split r s = split_at_matches s [] (re_finditer r s)"

text \<open>
  The tokens of an array size are constants. A token that starts with \<open>sizeof\<close> makes the next one
  be skipped.
\<close>

definition constant_token :: "string \<Rightarrow> bool" where
  "constant_token tok \<longleftrightarrow> tok = [] \<or> matches re_decimal tok \<or> matches re_hexadecimal tok \<or> matches re_k_constant tok \<or>
     matches re_scoped_k_constant tok \<or> matches re_upper_constant tok"

fun constant_size :: "bool \<Rightarrow> string list \<Rightarrow> bool" where
  "constant_size skip_next [] = True"
| "constant_size skip_next (tok # toks) =
     (if skip_next then constant_size False toks
      else if found re_sizeof_call tok \<or> found re_arraysize_call tok then constant_size False toks
      else
        let tok = rstrip_char (CHR '')'') (dropWhile (\<lambda>c. c = CHR ''('') tok) in
        if constant_token tok then constant_size False toks
        else if starts_with tok ''sizeof'' then constant_size True toks
        else False)"

definition check_array_size :: "string \<Rightarrow> nat \<Rightarrow> string \<Rightarrow> diag list" where
  "check_array_size filename linenum line =
     (case re_match re_array_declaration line of
        None \<Rightarrow> []
      | Some m \<Rightarrow>
          report_if (group_text m 2 \<noteq> ''return'' \<and> group_text m 2 \<noteq> ''delete'' \<and> \<not> contains (group_text m 3) '']'' \<and>
              \<not> constant_size False (re_split re_size_delimiter (group_text m 3)))
            (mk_error filename (int linenum) ''runtime/arrays'' 1
              (''Do not use variable-length arrays.  Use an appropriately named '' @
               ''('' @ [SQ] @ ''k'' @ [SQ] @ '' followed by CamelCase) compile-time constant for the size.'')))"

definition check_unnamed_namespace :: "config \<Rightarrow> string \<Rightarrow> nat \<Rightarrow> string \<Rightarrow> string \<Rightarrow> diag list" where
  "check_unnamed_namespace cfg filename linenum file_extension line =
     report_if (IsHeaderExtension (extensions cfg) file_extension \<and> found re_unnamed_namespace line \<and> last line \<noteq> BSL)
       (mk_error filename (int linenum) ''build/namespaces'' 4
         (''Do not use unnamed namespaces in header files.  See '' @
          ''https://google-styleguide.googlecode.com/svn/trunk/cppguide.xml#Namespaces'' @ '' for more information.''))"

definition CheckLanguage :: "config \<Rightarrow> string \<Rightarrow> cleansed_lines \<Rightarrow> nat \<Rightarrow> string \<Rightarrow> include_state \<Rightarrow>
    (diag list \<times> include_state) option" where
  "CheckLanguage cfg filename clean_lines linenum file_extension st = do {
     line \<leftarrow> py_nth (elided clean_lines) (int linenum);
     if line = [] then Some ([], st)
     else if found RE_PATTERN_INCLUDE line then CheckIncludeLine cfg filename clean_lines linenum st
     else do {
       st \<leftarrow> (case re_match re_conditional_directive line of
           None \<Rightarrow> Some st | Some m \<Rightarrow> ResetSection (group_text m 1) st);
       ds \<leftarrow> run_all [
         CheckCasts filename clean_lines linenum,
         CheckGlobalStatic filename clean_lines linenum,
         CheckPrintf filename clean_lines linenum,
         Some (check_int_types filename linenum line @ check_operators filename linenum line),
         check_printf_arguments filename linenum line,
         Some (check_memset filename linenum line @ check_using_namespace filename linenum line
           @ check_array_size filename linenum line @ check_unnamed_namespace cfg filename linenum file_extension line)];
       Some (ds, st)
     }
   }"

section \<open>The grammar of nested texts\<close>

text \<open>A text whose brackets are matched: no bracket, or a matched pair around a nested text.\<close>

inductive nested :: "string \<Rightarrow> bool" where
  nested_empty: "nested []"
| nested_plain: "closing_of x = None \<Longrightarrow> x \<notin> closing_punctuation \<Longrightarrow> nested s \<Longrightarrow> nested (x # s)"
| nested_pair: "closing_of x = Some c \<Longrightarrow> nested s \<Longrightarrow> nested t \<Longrightarrow> nested (x # s @ c # t)"

lemma closing_of_Some: "closing_of x = Some c \<Longrightarrow> c \<in> closing_punctuation \<and> x \<notin> closing_punctuation"
  by (auto simp: closing_of_def closing_punctuation_def matching_punctuation_def split: if_splits)

lemma inside_length_nested:
  "nested t \<Longrightarrow> c \<in> closing_punctuation \<Longrightarrow> inside_length (c # cs) (t @ s) = map_option ((+) (length t)) (inside_length (c # cs) s)"
proof (induction t arbitrary: c cs s rule: nested.induct)
  case nested_empty
  then show ?case by (cases "inside_length (c # cs) s") simp_all
next
  case (nested_plain x t)
  then have "x \<noteq> c" by blast
  with nested_plain show ?case by (simp add: option.map_comp comp_def)
next
  case (nested_pair x c' t u)
  note closing_of_Some [OF nested_pair(1)]
  then have "x \<noteq> c" "c' \<in> closing_punctuation" "x \<notin> closing_punctuation" using nested_pair.prems by blast+
  with nested_pair show ?case by (simp add: option.map_comp comp_def add.assoc)
qed

definition unwind :: "string list \<Rightarrow> string \<Rightarrow> string" where
  "unwind ts cs = concat (map2 (\<lambda>t c. t @ [c]) ts cs)"

lemma inside_length_unwind:
  "inside_length cs s = Some k \<Longrightarrow> \<exists>ts v. length ts = length cs \<and> list_all nested ts \<and> s = unwind ts cs @ v \<and> k = length (unwind ts cs)"
proof (induction cs s arbitrary: k rule: inside_length.induct)
  case (1 rest)
  then show ?case by (simp add: unwind_def)
next
  case (3 c cs x rest)
  consider (close) "x = c" | (plain) "x \<noteq> c" "x \<notin> closing_punctuation" "closing_of x = None"
    | (op) c' where "x \<noteq> c" "x \<notin> closing_punctuation" "closing_of x = Some c'"
    using 3(4) by (cases "closing_of x") (auto split: if_splits)
  then show ?case
  proof cases
    case close
    with 3(4) obtain j where j: "inside_length cs rest = Some j" "k = Suc j" by auto
    from 3(1) [OF close j(1)] obtain ts v where "length ts = length cs" "list_all nested ts" "rest = unwind ts cs @ v"
        "j = length (unwind ts cs)" by blast
    with close j(2) show ?thesis by (intro exI [of _ "[] # ts"] exI [of _ v]) (simp add: unwind_def nested_empty)
  next
    case plain
    with 3(4) obtain j where j: "inside_length (c # cs) rest = Some j" "k = Suc j" by auto
    from 3(2) [OF plain j(1)] obtain ts' v where IH: "length ts' = Suc (length cs)" "list_all nested ts'"
        "rest = unwind ts' (c # cs) @ v" "j = length (unwind ts' (c # cs))" by auto
    then obtain t ts where ts: "ts' = t # ts" by (auto simp: length_Suc_conv)
    with IH plain j(2) show ?thesis
      by (intro exI [of _ "(x # t) # ts"] exI [of _ v]) (simp add: unwind_def nested_plain)
  next
    case op
    with 3(4) obtain j where j: "inside_length (c' # c # cs) rest = Some j" "k = Suc j" by auto
    from 3(3) [OF op j(1)] obtain ts' v where IH: "length ts' = Suc (Suc (length cs))" "list_all nested ts'"
        "rest = unwind ts' (c' # c # cs) @ v" "j = length (unwind ts' (c' # c # cs))" by auto
    then obtain t u ts where ts: "ts' = t # u # ts" by (auto simp: length_Suc_conv)
    with IH op(3) have "nested (x # t @ c' # u)" by (auto intro: nested_pair)
    with IH ts j(2) show ?thesis
      by (intro exI [of _ "(x # t @ c' # u) # ts"] exI [of _ v]) (simp add: unwind_def)
  qed
qed simp

lemma inside_length_iff:
  assumes "c \<in> closing_punctuation"
  shows "inside_length [c] s = Some k \<longleftrightarrow> (\<exists>t v. s = t @ c # v \<and> nested t \<and> k = Suc (length t))"
proof
  assume "inside_length [c] s = Some k"
  from inside_length_unwind [OF this] obtain ts v where "length ts = 1" "list_all nested ts" "s = unwind ts [c] @ v"
      "k = length (unwind ts [c])" by auto
  then show "\<exists>t v. s = t @ c # v \<and> nested t \<and> k = Suc (length t)" by (cases ts) (auto simp: unwind_def)
next
  assume "\<exists>t v. s = t @ c # v \<and> nested t \<and> k = Suc (length t)"
  then show "inside_length [c] s = Some k" using inside_length_nested [OF _ assms] by fastforce
qed

text \<open>C17: GetTextInside is equivalent to its grammar: it returns a text exactly when the first match of
  the pattern ends in an opening bracket, and this text is nested and followed by the closing bracket.\<close>

theorem GetTextInside_equiv:
  "GetTextInside s r = Some (Some t) \<longleftrightarrow>
     (\<exists>m x p c v. re_search r s = Some m \<and> m_upto m = x # p \<and> closing_of x = Some c \<and> m_rest m = t @ c # v \<and> nested t)"
proof (cases "re_search r s")
  case (Some m)
  show ?thesis
  proof (cases "\<exists>x p c. m_upto m = x # p \<and> closing_of x = Some c")
    case True
    then obtain x p c where c: "m_upto m = x # p" "closing_of x = Some c" by blast
    with closing_of_Some have "c \<in> closing_punctuation" by blast
    note iff = inside_length_iff [OF this, of "m_rest m"]
    have "GetTextInside s r = Some (Some t) \<longleftrightarrow> (\<exists>k. inside_length [c] (m_rest m) = Some k \<and> t = take (k - 1) (m_rest m))"
      using Some c by (auto simp: GetTextInside_def)
    also have "\<dots> \<longleftrightarrow> (\<exists>v. m_rest m = t @ c # v \<and> nested t)" unfolding iff
    proof
      assume "\<exists>v. m_rest m = t @ c # v \<and> nested t"
      then show "\<exists>k. (\<exists>t v. m_rest m = t @ c # v \<and> nested t \<and> k = Suc (length t)) \<and> t = take (k - 1) (m_rest m)"
        by (intro exI [of _ "Suc (length t)"]) auto
    qed auto
    finally show ?thesis using Some c by auto
  qed (use Some in \<open>auto simp: GetTextInside_def split: list.splits option.splits\<close>)
qed (simp add: GetTextInside_def)

definition printf_line :: string where
  "printf_line = ''  printf(name(a[1]));''"

text \<open>On the code's own example of a call the text between its parentheses is found.\<close>

lemma GetTextInside_example: "GetTextInside ''printf(a(), b(c()));'' re_printf_start = Some (Some ''a(), b(c())'')"
  by code_simp

section \<open>Soundness\<close>

interpretation printf: file_check "\<lambda>_ _. True" CheckPrintf
  by unfold_locales (simp add: CheckPrintf_def cl_lines del: py_nth_nat)

interpretation global_static: file_check "\<lambda>_ _. True" CheckGlobalStatic
proof
  fix cl :: cleansed_lines and n filename
  assume cl: "well_formed cl" "n < NumLines cl"
  have "\<exists>t. (if int n + 1 < int (NumLines cl) \<and> \<not> found re_declaration_open (elided cl ! n)
      then map_option strip (py_nth (elided cl) (int n + 1)) else Some []) = Some t"
    using py_nth_Some [of "elided cl" "int n + 1"] cl(1) by (auto simp: cl_lengths)
  then obtain t where "(if int n + 1 < int (NumLines cl) \<and> \<not> found re_declaration_open (elided cl ! n)
      then map_option strip (py_nth (elided cl) (int n + 1)) else Some []) = Some t" by blast
  then show "sound filename cl (CheckGlobalStatic filename cl n)"
    using cl(2) by (simp add: CheckGlobalStatic_def cl_lines [OF cl] Let_def static_string_errors_def del: py_nth_nat)
qed

text \<open>A printf call that the first pattern finds is found by the second, and it ends in a parenthesis.\<close>

lemma printf_rel: "re_rel re_printf_name = re_rel re_printf_start"
  by (simp add: re_printf_name_def re_printf_start_def ropt_def O_assoc)

lemma search_rel_cong: "re_rel r = re_rel r' \<Longrightarrow> re_search r s = None \<longleftrightarrow> re_search r' s = None"
  by (simp add: re_search_def search_from_None first_match_None rmatch_rel)

lemma GetTextInside_printf:
  obtains args where "GetTextInside line re_printf_start = Some args" "args \<noteq> None \<Longrightarrow> re_search re_printf_name line \<noteq> None"
proof (cases "re_search re_printf_start line")
  case None
  then show ?thesis using that [of None] by (simp add: GetTextInside_def)
next
  case (Some m)
  have "re_printf_start = rseq ([WordB, ropt (Grp 1 (rlit_ci ''string'')), rlit_ci ''printf'', spaces] @ [rchr (CHR ''('')])"
    by (simp add: re_printf_start_def)
  with re_search_last [of "[WordB, ropt (Grp 1 (rlit_ci ''string'')), rlit_ci ''printf'', spaces]" "CHR ''(''" line m] Some
  obtain k where k: "m_end m = Suc k" "k < length line" "line ! k = CHR ''(''" by auto
  from re_search_text [OF Some] have "line = rev (m_upto m) @ m_rest m" .
  with k obtain p where "m_upto m = CHR ''('' # p"
    by (cases "m_upto m") (auto simp: m_end_def nth_append)
  with Some have "\<exists>args. GetTextInside line re_printf_start = Some args"
    by (simp add: GetTextInside_def closing_of_def matching_punctuation_def)
  moreover have "re_search re_printf_name line \<noteq> None" using Some search_rel_cong [OF printf_rel, of line] by simp
  ultimately show ?thesis using that by blast
qed

lemma check_printf_arguments_sound:
  assumes "n < NumLines cl" shows "sound filename cl (check_printf_arguments filename n line)"
proof -
  obtain args where "GetTextInside line re_printf_start = Some args" "args \<noteq> None \<Longrightarrow> re_search re_printf_name line \<noteq> None"
    by (rule GetTextInside_printf [of line]) blast
  with assms show ?thesis by (auto simp: check_printf_arguments_def split: option.split)
qed

text \<open>The line is not an include, and \<open>CheckCasts\<close> raises on it.\<close>

definition language_stuck :: "cleansed_lines \<Rightarrow> nat \<Rightarrow> bool" where
  "language_stuck cl n \<longleftrightarrow> elided cl ! n \<noteq> [] \<and> \<not> found RE_PATTERN_INCLUDE (elided cl ! n) \<and> casts_stuck cl n"

lemma language_line_diags:
  "n < NumLines cl \<Longrightarrow> list_all (file_diag filename cl) (check_int_types filename n line @ check_operators filename n line)"
  "n < NumLines cl \<Longrightarrow> list_all (file_diag filename cl) (check_memset filename n line @ check_using_namespace filename n line @
     check_array_size filename n line @ check_unnamed_namespace cfg filename n file_extension line)"
  by (simp_all add: check_int_types_def check_operators_def check_memset_def check_using_namespace_def check_array_size_def
    check_unnamed_namespace_def)

lemma CheckLanguage_result:
  assumes cl: "well_formed cl" "n < NumLines cl" and "names_resolve cfg" "include_inv st"
  shows "if language_stuck cl n then CheckLanguage cfg filename cl n file_extension st = None
    else include_result filename cl (CheckLanguage cfg filename cl n file_extension st)"
proof -
  let ?line = "elided cl ! n"
  let ?checks = "[CheckCasts filename cl n, CheckGlobalStatic filename cl n, CheckPrintf filename cl n,
      Some (check_int_types filename n ?line @ check_operators filename n ?line), check_printf_arguments filename n ?line,
      Some (check_memset filename n ?line @ check_using_namespace filename n ?line @ check_array_size filename n ?line @
        check_unnamed_namespace cfg filename n file_extension ?line)]"
  have "\<exists>st'. (case re_match re_conditional_directive ?line of None \<Rightarrow> Some st | Some m \<Rightarrow> ResetSection (group_text m 1) st) = Some st' \<and>
      include_inv st'"
    using include_inv_reset [OF assms(4)] assms(4) by (simp split: option.split)
  then obtain st' where st': "(case re_match re_conditional_directive ?line of None \<Rightarrow> Some st
      | Some m \<Rightarrow> ResetSection (group_text m 1) st) = Some st'" "include_inv st'" by blast
  consider (skip) "?line = [] \<or> found RE_PATTERN_INCLUDE ?line" | (stuck) "\<not> (?line = [] \<or> found RE_PATTERN_INCLUDE ?line)" "casts_stuck cl n"
    | (check) "\<not> (?line = [] \<or> found RE_PATTERN_INCLUDE ?line)" "\<not> casts_stuck cl n" by blast
  then show ?thesis
  proof cases
    case skip
    then show ?thesis using CheckIncludeLine_result [OF assms, of filename] assms(4)
      by (auto simp: language_stuck_def CheckLanguage_def cl_lines [OF cl] simp del: py_nth_nat)
  next
    case stuck
    then have "run_all ?checks = None" using CheckCasts_result [OF cl, of filename] by (intro run_all_None) simp
    with stuck st' show ?thesis
      by (simp add: language_stuck_def CheckLanguage_def cl_lines [OF cl] del: py_nth_nat run_all.simps)
  next
    case check
    then have "sound filename cl (run_all ?checks)"
      using casts.check_sound [OF cl] global_static.check_sound [OF cl] printf.check_sound [OF cl]
        check_printf_arguments_sound [OF cl(2)] language_line_diags [OF cl(2)]
      by (intro sound_run_all) simp
    then obtain ds where "run_all ?checks = Some ds" "list_all (file_diag filename cl) ds" by (rule soundE)
    with check st' show ?thesis
      by (simp add: language_stuck_def CheckLanguage_def cl_lines [OF cl] del: py_nth_nat run_all.simps)
  qed
qed

end
