(* ===== verification/ModernChecks.thy ===== *)
theory ModernChecks
  imports Language
begin

text \<open>
  The checks of \<open>cpplint.py\<close> for C++11 and later: \<open>CheckMakePairUsesDeduction\<close>,
  \<open>CheckRedundantVirtual\<close>, \<open>CheckRedundantOverrideOrFinal\<close>, \<open>FlagCxx11Features\<close>, and
  \<open>FlagCxx14Features\<close>, which nothing calls.
\<close>

section \<open>\<open>make_pair\<close>\<close>

definition re_explicit_make_pair :: re where
  "re_explicit_make_pair = rseq [WordB, rlit ''make_pair'', spaces, rchr (CHR ''<'')]"

definition CheckMakePairUsesDeduction :: "string \<Rightarrow> cleansed_lines \<Rightarrow> nat \<Rightarrow> diag list option" where
  "CheckMakePairUsesDeduction filename clean_lines linenum = do {
     line \<leftarrow> py_nth (elided clean_lines) (int linenum);
     Some (report_if (found re_explicit_make_pair line) (mk_error filename (int linenum) ''build/explicit_make_pair'' 4
       (''For C++11-compatibility, omit template arguments from make_pair'' @
        '' OR use pair directly OR if appropriate, construct a pair directly'')))
   }"

section \<open>\<open>virtual\<close>, \<open>override\<close> and \<open>final\<close>\<close>

definition re_virtual :: re where
  "re_virtual =
     rseq [Bol, Grp 1 (Star rdot), Grp 2 (rseq [WordB, rlit ''virtual'', WordB]), Grp 3 (Star rdot), Eol]"

definition re_access_before :: re where
  "re_access_before =
     rseq [WordB, Grp 1 (rseq [rchr (CHR ''p''), ralt [rlit ''ublic'', rlit ''rotected'', rlit ''rivate'']]),
       spaces1, Eol]"

definition re_access_after :: re where
  "re_access_after =
     rseq [Bol, spaces1, Grp 1 (rseq [rchr (CHR ''p''), ralt [rlit ''ublic'', rlit ''rotected'',
       rlit ''rivate'']]), WordB]"

definition re_lone_colon :: re where
  "re_lone_colon = rseq [Bol, Star rdot, none_of '':'', rchr (CHR '':''), none_of '':'', Star rdot, Eol]"

definition re_parameter_list :: re where
  "re_parameter_list = rseq [Bol, Grp 1 (Star (none_of ''('')), rchr (CHR ''('')]"

definition re_override_or_final :: re where
  "re_override_or_final = rseq [WordB, Grp 1 (ralt [rlit ''override'', rlit ''final'']), WordB]"

definition re_nonword_end :: re where
  "re_nonword_end = rseq [Cls (\<lambda>c. \<not> (py_word c)), spaces, Eol]"

definition re_final_word :: re where
  "re_final_word = rseq [WordB, rlit ''final'', WordB]"

text \<open>The end of the parameter list that starts on one of the lines; a negative column when none does.\<close>

fun parameters_end :: "cleansed_lines \<Rightarrow> nat \<Rightarrow> nat list \<Rightarrow> (nat \<times> int) option" where
  "parameters_end clean_lines start_col [] = Some (0, -1)"
| "parameters_end clean_lines start_col (i # is) = do {
     line \<leftarrow> py_nth (elided clean_lines) (int i);
     (case re_match re_parameter_list (drop start_col line) of
        None \<Rightarrow> parameters_end clean_lines 0 is
      | Some m \<Rightarrow> do {
          (_, end_line, end_col) \<leftarrow> CloseExpression clean_lines i (start_col + length (group_text m 1));
          Some (end_line, end_col)
        })
   }"

text \<open>The specifiers after the parameter list, up to a line that does not end in a word.\<close>

fun redundant_virtual :: "string \<Rightarrow> cleansed_lines \<Rightarrow> nat \<Rightarrow> int \<Rightarrow> nat list \<Rightarrow> diag list option" where
  "redundant_virtual filename clean_lines linenum end_col [] = Some []"
| "redundant_virtual filename clean_lines linenum end_col (i # is) = do {
     line \<leftarrow> py_nth (elided clean_lines) (int i);
     let line = py_from line end_col;
     and_then (Some (case re_search re_override_or_final line of
         None \<Rightarrow> []
       | Some m \<Rightarrow> [mk_error filename (int linenum) ''readability/inheritance'' 4
           ([DQ] @ ''virtual'' @ [DQ] @ '' is redundant since function is '' @ ''already declared as '' @
            [DQ] @ group_text m 1 @ [DQ])]))
       (if found re_nonword_end line then Some [] else redundant_virtual filename clean_lines linenum 0 is)
   }"

definition CheckRedundantVirtual :: "string \<Rightarrow> cleansed_lines \<Rightarrow> nat \<Rightarrow> diag list option" where
  "CheckRedundantVirtual filename clean_lines linenum = do {
     line \<leftarrow> py_nth (elided clean_lines) (int linenum);
     (case re_match re_virtual line of
        None \<Rightarrow> Some []
      | Some virtual \<Rightarrow>
          if found re_access_before (group_text virtual 1) \<or> matches re_access_after (group_text virtual 3) \<or>
             matches re_lone_colon line
          then Some []
          else do {
            (end_line, end_col) \<leftarrow> parameters_end clean_lines (length (group_text virtual 2))
              [linenum ..< min (linenum + 3) (NumLines clean_lines)];
            if end_col < 0 then Some []
            else redundant_virtual filename clean_lines linenum end_col
              [end_line ..< min (end_line + 3) (NumLines clean_lines)]
          })
   }"

definition CheckRedundantOverrideOrFinal :: "string \<Rightarrow> cleansed_lines \<Rightarrow> nat \<Rightarrow> diag list option" where
  "CheckRedundantOverrideOrFinal filename clean_lines linenum = do {
     line \<leftarrow> py_nth (elided clean_lines) (int linenum);
     let declarator_end = py_rfind line (CHR '')'');
     fragment \<leftarrow> (if declarator_end \<ge> 0 then Some (py_from line declarator_end)
       else if linenum > 1 then do {
         previous \<leftarrow> py_nth (elided clean_lines) (int linenum - 1);
         Some (if py_rfind previous (CHR '')'') \<ge> 0 then line else [])
       } else Some []);
     Some (report_if (found re_override_word fragment \<and> found re_final_word fragment)
       (mk_error filename (int linenum) ''readability/inheritance'' 4
         ([DQ] @ ''override'' @ [DQ] @ '' is redundant since function is '' @ ''already declared as '' @
          [DQ] @ ''final'' @ [DQ])))
   }"

section \<open>C++11 and C++14\<close>

definition re_include_header :: re where
  "re_include_header =
     rseq [spaces, rchr (CHR ''#''), spaces, rlit ''include'', spaces1, one_of (''<'' @ [DQ]),
       Grp 1 (rplus (none_of (''<'' @ [DQ]))), one_of ([DQ] @ ''>'')]"

definition re_directive_start :: re where
  "re_directive_start = rseq [spaces, rchr (CHR ''#'')]"

definition re_define_directive :: re where
  "re_define_directive = rseq [spaces, rchr (CHR ''#''), spaces, rlit ''define'', WordB]"

definition cxx11_headers :: "string list" where
  "cxx11_headers = [''cfenv'', ''condition_variable'', ''fenv.h'', ''future'', ''mutex'', ''thread'', ''chrono'', ''ratio'',
     ''regex'', ''system_error'']"

definition re_std_name :: "string \<Rightarrow> re" where
  "re_std_name top_name = rseq [WordB, rlit ''std::'', rlit top_name, WordB]"

definition FlagCxx11Features :: "string \<Rightarrow> cleansed_lines \<Rightarrow> nat \<Rightarrow> diag list option" where
  "FlagCxx11Features filename clean_lines linenum = do {
     line \<leftarrow> py_nth (elided clean_lines) (int linenum);
     let header = (case re_match re_include_header line of
         None \<Rightarrow> []
       | Some include \<Rightarrow>
           report_if (starts_with (group_text include 1) ''tr1/'') (mk_error filename (int linenum) ''build/c++tr1'' 5
             (''C++ TR1 headers such as <'' @ group_text include 1 @ ''> are unapproved.''))
           @ report_if (group_text include 1 \<in> set cxx11_headers) (mk_error filename (int linenum) ''build/c++11'' 5
             (''<'' @ group_text include 1 @ ''> is an unapproved C++11 header.'')));
     Some (header @
       (if matches re_directive_start line \<and> \<not> matches re_define_directive line then []
        else concat (map (\<lambda>top_name. report_if (found (re_std_name top_name) line)
          (mk_error filename (int linenum) ''build/c++11'' 5
            (''std::'' @ top_name @ '' is an unapproved C++11 class or function.  Send c-style '' @
             ''an example of where it would make your code more readable, and '' @ ''they may let you use it.'')))
          [''alignment_of'', ''aligned_union''])))
   }"

definition FlagCxx14Features :: "string \<Rightarrow> cleansed_lines \<Rightarrow> nat \<Rightarrow> diag list option" where
  "FlagCxx14Features filename clean_lines linenum = do {
     line \<leftarrow> py_nth (elided clean_lines) (int linenum);
     Some (case re_match re_include_header line of
         None \<Rightarrow> []
       | Some include \<Rightarrow> report_if (group_text include 1 \<in> {''scoped_allocator'', ''shared_mutex''})
           (mk_error filename (int linenum) ''build/c++14'' 5
             (''<'' @ group_text include 1 @ ''> is an unapproved C++14 header.'')))
   }"

section \<open>Soundness\<close>

interpretation make_pair: file_check "\<lambda>_ _. True" CheckMakePairUsesDeduction
  by unfold_locales (simp add: CheckMakePairUsesDeduction_def cl_lines del: py_nth_nat)

interpretation cxx11: file_check "\<lambda>_ _. True" FlagCxx11Features
  by unfold_locales (simp add: FlagCxx11Features_def cl_lines Let_def del: py_nth_nat)

interpretation cxx14: file_check "\<lambda>_ _. True" FlagCxx14Features
  by unfold_locales (simp add: FlagCxx14Features_def cl_lines del: py_nth_nat)

lemma parameter_list_column: "re_match re_parameter_list line = Some m \<Longrightarrow> length (group_text m 1) < length line"
  unfolding re_parameter_list_def by (drule re_match_group1) auto

lemma parameters_end_returns:
  assumes "well_formed cl" shows "lines_in cl is \<Longrightarrow> \<exists>r. parameters_end cl col is = Some r"
proof (induction "is" arbitrary: col)
  case (Cons i "is")
  then have i: "i < NumLines cl" by simp
  show ?case
  proof (cases "re_match re_parameter_list (drop col (elided cl ! i))")
    case (Some m)
    from parameter_list_column [OF Some] have "col + length (group_text m 1) < length (elided cl ! i)" by simp
    then obtain l k p where "CloseExpression cl i (col + length (group_text m 1)) = Some (l, k, p)"
      using CloseExpression_at [OF assms i] by metis
    with Some show ?thesis by (simp add: cl_lines [OF assms i] del: py_nth_nat)
  qed (use Cons in \<open>simp add: cl_lines [OF assms i] del: py_nth_nat\<close>)
qed simp

lemma redundant_virtual_sound:
  "well_formed cl \<Longrightarrow> n < NumLines cl \<Longrightarrow> lines_in cl is \<Longrightarrow> sound filename cl (redundant_virtual filename cl n col is)"
  by (induction "is" arbitrary: col)
    (auto simp: cl_lines Let_def simp del: py_nth_nat intro!: sound_and_then split: option.split)

interpretation redundant_virtual: file_check "\<lambda>_ _. True" CheckRedundantVirtual
proof
  fix cl :: cleansed_lines and n filename
  assume cl: "well_formed cl" "n < NumLines cl"
  have "lines_in cl [k ..< min (k + 3) (NumLines cl)]" for k by (auto simp: lines_in_def list_all_iff)
  from parameters_end_returns [OF cl(1) this] redundant_virtual_sound [OF cl this]
  show "sound filename cl (CheckRedundantVirtual filename cl n)"
    by (auto simp: CheckRedundantVirtual_def cl_lines [OF cl] simp del: py_nth_nat split: option.split intro!: sound_lookup)
qed

interpretation redundant_override: file_check "\<lambda>_ _. True" CheckRedundantOverrideOrFinal
proof
  fix cl :: cleansed_lines and n filename
  assume cl: "well_formed cl" "n < NumLines cl"
  obtain previous where "py_nth (elided cl) (int n - 1) = Some previous"
    using py_nth_pred [of n "elided cl"] cl by (auto simp: cl_lengths)
  with cl show "sound filename cl (CheckRedundantOverrideOrFinal filename cl n)"
    by (simp add: CheckRedundantOverrideOrFinal_def cl_lines [OF cl] Let_def del: py_nth_nat)
qed

end
