(* ===== verification/IncludeUse.thy ===== *)
theory IncludeUse
  imports ModernChecks "HOL-Library.AList" "HOL-Library.Product_Lexorder"
begin

text \<open>
  The check for missing includes (\<open>cpplint.py\<close>, \<open>FilesBelongToSameModule\<close>, \<open>UpdateIncludeState\<close>,
  \<open>CheckForIncludeWhatYouUse\<close>). A dictionary is an association list in the order of insertion. The
  text of a header on disk is a parameter: its lines with their ends, or \<open>None\<close> for an IOError.
\<close>

section \<open>The templates of the headers\<close>

definition HEADERS_CONTAINING_TEMPLATES :: "(string \<times> string list) list" where
  "HEADERS_CONTAINING_TEMPLATES =
    [(''<deque>'', [''deque'']),
     (''<functional>'', [''unary_function'', ''binary_function'', ''plus'', ''minus'', ''multiplies'', ''divides'',
        ''modulus'', ''negate'', ''equal_to'', ''not_equal_to'', ''greater'', ''less'', ''greater_equal'', ''less_equal'',
        ''logical_and'', ''logical_or'', ''logical_not'', ''unary_negate'', ''not1'', ''binary_negate'', ''not2'',
        ''bind1st'', ''bind2nd'', ''pointer_to_unary_function'', ''pointer_to_binary_function'', ''ptr_fun'',
        ''mem_fun_t'', ''mem_fun'', ''mem_fun1_t'', ''mem_fun1_ref_t'', ''mem_fun_ref_t'', ''const_mem_fun_t'',
        ''const_mem_fun1_t'', ''const_mem_fun_ref_t'', ''const_mem_fun1_ref_t'', ''mem_fun_ref'']),
     (''<limits>'', [''numeric_limits'']),
     (''<list>'', [''list'']),
     (''<map>'', [''multimap'']),
     (''<memory>'', [''allocator'', ''make_shared'', ''make_unique'', ''shared_ptr'', ''unique_ptr'', ''weak_ptr'']),
     (''<queue>'', [''queue'', ''priority_queue'']),
     (''<set>'', [''multiset'']),
     (''<stack>'', [''stack'']),
     (''<string>'', [''char_traits'', ''basic_string'']),
     (''<tuple>'', [''tuple'']),
     (''<unordered_map>'', [''unordered_map'', ''unordered_multimap'']),
     (''<unordered_set>'', [''unordered_set'', ''unordered_multiset'']),
     (''<utility>'', [''pair'']),
     (''<vector>'', [''vector'']),
     (''<hash_map>'', [''hash_map'', ''hash_multimap'']),
     (''<hash_set>'', [''hash_set'', ''hash_multiset'']),
     (''<slist>'', [''slist''])]"

definition HEADERS_MAYBE_TEMPLATES :: "(string \<times> string list) list" where
  "HEADERS_MAYBE_TEMPLATES =
    [(''<algorithm>'', [''copy'', ''max'', ''min'', ''min_element'', ''sort'', ''transform'']),
     (''<utility>'', [''forward'', ''make_pair'', ''move'', ''swap''])]"

definition re_string_word :: re where
  "re_string_word = rseq [WordB, rlit ''string'', WordB]"

definition re_set_template :: re where
  "re_set_template = rseq [none_of ''>.'', WordB, rlit ''set'', spaces, rchr (CHR ''<'')]"

definition re_map_template :: re where
  "re_map_template =
     ralt [Grp 1 (rseq [rlit ''std'', WordB, rlit ''::'', WordB, rlit ''map'', spaces, rchr (CHR ''<'')]),
       Grp 2 (rseq [Bol, Grp 3 (rseq [rlit ''std'', WordB, rlit ''::'', WordB]), rlit ''map'', WordB,
       rchr (CHR ''(''), spaces, rchr (CHR ''<'')])]"

definition re_flymake_cc :: re where
  "re_flymake_cc = rseq [rlit ''_flymake.cc'', Eol]"

definition re_maybe_template :: "string \<Rightarrow> re" where
  "re_maybe_template template =
     rseq [none_of ''>.'', WordB, rlit template, ropt (Grp 1 (rseq [rchr (CHR ''<''), Lazy rdot, rchr (CHR ''>'')])),
       rchr (CHR ''(''), none_of '')'']"

definition re_template :: "string \<Rightarrow> re" where
  "re_template template = rseq [Grp 1 (ralt [rchr (CHR ''<''), WordB]), rlit template, spaces, rchr (CHR ''<'')]"

text \<open>The patterns with the name of the template and its header.\<close>

definition pattern_headers_maybe_templates :: "(re \<times> string \<times> string) list" where
  "pattern_headers_maybe_templates =
     concat (map (\<lambda>(header, templates). map (\<lambda>template. (re_maybe_template template, template, header)) templates)
       HEADERS_MAYBE_TEMPLATES) @
     [(re_set_template, ''set<>'', ''<set>''), (re_map_template, ''map<>'', ''<map>'')]"

definition pattern_templates :: "(re \<times> string \<times> string) list" where
  "pattern_templates =
     concat (map (\<lambda>(header, templates). map (\<lambda>template. (re_template template, template @ ''<>'', header)) templates)
       HEADERS_CONTAINING_TEMPLATES)"

section \<open>Files of a module\<close>

definition lstrip_char :: "char \<Rightarrow> string \<Rightarrow> string" where
  "lstrip_char c s = dropWhile (\<lambda>x. x = c) s"

definition drop_directories :: "string \<Rightarrow> string" where
  "drop_directories path = replace_sub ''/internal/'' ''/'' (replace_sub ''/public/'' ''/'' path)"

definition module_of_source :: "string \<Rightarrow> string \<Rightarrow> string \<Rightarrow> string" where
  "module_of_source filename_cc extension base =
     (let filename_cc = py_upto filename_cc (- int (length extension));
          filename_cc = (case re_search TEST_FILE_SUFFIX base of
             None \<Rightarrow> filename_cc | Some m \<Rightarrow> py_upto filename_cc (- int (length (group_text m 1))))
      in drop_directories filename_cc)"

definition module_of_header :: "string \<Rightarrow> string \<Rightarrow> string" where
  "module_of_header filename_h extension =
     (let filename_h = py_upto filename_h (- int (length extension));
          filename_h = (if ends_with filename_h ''-inl'' then py_upto filename_h (- 4) else filename_h)
      in drop_directories filename_h)"

definition FilesBelongToSameModule :: "config \<Rightarrow> string \<Rightarrow> string \<Rightarrow> (bool \<times> string) option" where
  "FilesBelongToSameModule cfg filename_cc filename_h = do {
     ext_cc \<leftarrow> Extension (paths cfg) (repository_option cfg) filename_cc;
     if lstrip_char (CHR ''.'') ext_cc \<notin> GetNonHeaderExtensions (extensions cfg) then Some (False, [])
     else do {
       ext_h \<leftarrow> Extension (paths cfg) (repository_option cfg) filename_h;
       if \<not> IsHeaderExtension (extensions cfg) (lstrip_char (CHR ''.'') ext_h) then Some (False, [])
       else do {
         base \<leftarrow> BaseName (paths cfg) (repository_option cfg) filename_cc;
         let module_cc = module_of_source filename_cc ext_cc base;
         let module_h = module_of_header filename_h ext_h;
         Some (if ends_with module_cc module_h then (True, py_upto module_cc (- int (length module_h))) else (False, []))
       }
     }
   }"

section \<open>The includes of a header\<close>

definition setdefault :: "string \<Rightarrow> int \<Rightarrow> (string \<times> int) list \<Rightarrow> (string \<times> int) list" where
  "setdefault k v d = (if k \<in> fst ` set d then d else d @ [(k, v)])"

fun add_includes :: "int \<Rightarrow> string list \<Rightarrow> (string \<times> int) list \<Rightarrow> (string \<times> int) list" where
  "add_includes linenum [] include_dict = include_dict"
| "add_includes linenum (line # ls) include_dict =
     (case re_search RE_PATTERN_INCLUDE (CleanseComments line) of
        None \<Rightarrow> add_includes (linenum + 1) ls include_dict
      | Some m \<Rightarrow> add_includes (linenum + 1) ls (setdefault (group_text m 2) (linenum + 1) include_dict))"

definition UpdateIncludeState ::
  "(string \<Rightarrow> string list option) \<Rightarrow> string \<Rightarrow> (string \<times> int) list \<Rightarrow> bool \<times> (string \<times> int) list" where
  "UpdateIncludeState read_header filename include_dict =
     (case read_header filename of
        None \<Rightarrow> (False, include_dict)
      | Some ls \<Rightarrow> (True, add_includes 0 ls include_dict))"

section \<open>Required headers\<close>

type_synonym required = "(string \<times> nat \<times> string) list"

text \<open>A use in a namespace other than the standard one does not count.\<close>

definition std_or_unqualified :: "string \<Rightarrow> match_obj \<Rightarrow> bool" where
  "std_or_unqualified line m \<longleftrightarrow>
     (let prefix = take (m_start m) line in ends_with prefix ''std::'' \<or> \<not> ends_with prefix ''::'')"

definition require :: "nat \<Rightarrow> string \<Rightarrow> bool \<Rightarrow> (re \<times> string \<times> string) \<Rightarrow> required \<Rightarrow> required" where
  "require linenum line qualified p required =
     (case p of (r, template, header) \<Rightarrow>
        case re_search r line of
          None \<Rightarrow> required
        | Some m \<Rightarrow> if qualified \<longrightarrow> std_or_unqualified line m then AList.update header (linenum, template) required
            else required)"

definition require_line :: "nat \<Rightarrow> string \<Rightarrow> required \<Rightarrow> required" where
  "require_line linenum line required =
     (if line = [] \<or> hd line = CHR ''#'' then required
      else
        let required = require linenum line True (re_string_word, ''string'', ''<string>'') required;
            required = fold (require linenum line False) pattern_headers_maybe_templates required
        in if \<not> contains line ''<'' then required
           else fold (require linenum line True) pattern_templates required)"

definition required_headers :: "string list \<Rightarrow> required" where
  "required_headers ls = fold (\<lambda>(n, line). require_line n line) (enumerate 0 ls) []"

text \<open>The loop over the included headers that may belong to the file.\<close>

fun read_module_headers ::
  "config \<Rightarrow> (string \<Rightarrow> string list option) \<Rightarrow> string \<Rightarrow> string list \<Rightarrow> (string \<times> int) list \<Rightarrow> bool \<Rightarrow>
   (bool \<times> (string \<times> int) list) option" where
  "read_module_headers cfg read_header abs_filename [] include_dict header_found = Some (header_found, include_dict)"
| "read_module_headers cfg read_header abs_filename (header # headers) include_dict header_found = do {
     (same_module, common_path) \<leftarrow> FilesBelongToSameModule cfg abs_filename header;
     if same_module then
       let (added, include_dict) = UpdateIncludeState read_header (common_path @ header) include_dict in
       read_module_headers cfg read_header abs_filename headers include_dict (header_found \<or> added)
     else read_module_headers cfg read_header abs_filename headers include_dict header_found
   }"

definition strip_brackets :: "string \<Rightarrow> string" where
  "strip_brackets header =
     (let bracket = (\<lambda>c. c \<in> {CHR ''<'', CHR ''>'', DQ}) in rev (dropWhile bracket (rev (dropWhile bracket header))))"

definition missing_includes :: "string \<Rightarrow> required \<Rightarrow> (string \<times> int) list \<Rightarrow> diag list" where
  "missing_includes filename required include_dict =
     map (\<lambda>(header, linenum, template). mk_error filename (int linenum) ''build/include_what_you_use'' 4
         (''Add #include '' @ header @ '' for '' @ template))
       (filter (\<lambda>(header, _). strip_brackets header \<notin> fst ` set include_dict) (sort_key snd required))"

definition CheckForIncludeWhatYouUse ::
  "config \<Rightarrow> (string \<Rightarrow> string list option) \<Rightarrow> string \<Rightarrow> cleansed_lines \<Rightarrow> include_state \<Rightarrow> diag list option" where
  "CheckForIncludeWhatYouUse cfg read_header filename clean_lines st =
     (let required = required_headers (take (NumLines clean_lines) (elided clean_lines));
          include_dict = fold (\<lambda>(header, n). AList.update header n) (concat (include_list st)) [];
          abs_filename = re_sub re_flymake_cc (\<lambda>_. ''.cc'') (FullName (paths cfg) filename)
      in do {
        (header_found, include_dict) \<leftarrow>
          read_module_headers cfg read_header abs_filename (map fst include_dict) include_dict False;
        Some (if \<not> header_found \<and> list_ex (\<lambda>extension. ends_with filename (''.'' @ extension)) (source_order cfg) then []
          else missing_includes filename required include_dict)
      })"

section \<open>Correctness\<close>

lemma list_all_update: "list_all P al \<Longrightarrow> P (k, v) \<Longrightarrow> list_all P (AList.update k v al)"
  by (induction al) auto

lemma keys_update [simp]: "fst ` set (AList.update k v al) = insert k (fst ` set al)"
  by (induction al) auto

lemma list_all_fold: "Q y \<Longrightarrow> (\<And>x y. x \<in> set xs \<Longrightarrow> Q y \<Longrightarrow> Q (f x y)) \<Longrightarrow> Q (fold f xs y)"
  by (induction xs arbitrary: y) auto

definition required_in :: "nat \<Rightarrow> required \<Rightarrow> bool" where
  "required_in k required \<longleftrightarrow> list_all (\<lambda>(_, n, _). n < k) required"

lemma required_in_require: "n < k \<Longrightarrow> required_in k req \<Longrightarrow> required_in k (require n line q p req)"
  by (auto simp: require_def required_in_def split: prod.split option.split intro!: list_all_update)

lemma required_in_line: "n < k \<Longrightarrow> required_in k req \<Longrightarrow> required_in k (require_line n line req)"
  by (auto simp: require_line_def Let_def intro!: required_in_require list_all_fold [where Q = "required_in k"])

lemma required_headers_in: "required_in (length ls) (required_headers ls)"
  unfolding required_headers_def
  by (rule list_all_fold) (auto simp: required_in_def [of _ "[]"] in_set_enumerate_eq intro: required_in_line)

lemma add_includes_keys: "fst ` set d \<subseteq> fst ` set (add_includes n ls d)"
proof (induction n ls d rule: add_includes.induct)
  case (2 n line ls d)
  have "fst ` set d \<subseteq> fst ` set (setdefault k v d)" for k v by (auto simp: setdefault_def)
  with 2 show ?case by (cases "re_search RE_PATTERN_INCLUDE (CleanseComments line)") (simp_all, meson subset_trans)
qed simp

lemma FilesBelongToSameModule_returns:
  assumes "names_resolve cfg" shows "\<exists>r. FilesBelongToSameModule cfg cc h = Some r"
proof -
  obtain e1 e2 b where "Extension (paths cfg) (repository_option cfg) cc = Some e1"
      "Extension (paths cfg) (repository_option cfg) h = Some e2" "BaseName (paths cfg) (repository_option cfg) cc = Some b"
    using names_resolve_file [OF assms] by metis
  then show ?thesis by (simp add: FilesBelongToSameModule_def Let_def ex_bool_eq)
qed

lemma read_module_headers_returns:
  assumes "names_resolve cfg"
  shows "\<exists>b d'. read_module_headers cfg rd f hs d b0 = Some (b, d') \<and> fst ` set d \<subseteq> fst ` set d'"
proof (induction hs arbitrary: d b0)
  case (Cons h hs)
  obtain same common where same: "FilesBelongToSameModule cfg f h = Some (same, common)"
    using FilesBelongToSameModule_returns [OF assms] by (metis surj_pair)
  obtain added d1 where u: "UpdateIncludeState rd (common @ h) d = (added, d1)" by force
  then have keys: "fst ` set d \<subseteq> fst ` set d1"
    using add_includes_keys [of d 0] by (simp add: UpdateIncludeState_def split: option.splits) blast
  show ?case
  proof (cases same)
    case True
    obtain b d' where "read_module_headers cfg rd f hs d1 (b0 \<or> added) = Some (b, d')" "fst ` set d1 \<subseteq> fst ` set d'"
      using Cons by blast
    with True same u keys show ?thesis by (simp add: subset_trans [OF keys])
  next
    case False
    with Cons [of d b0] same show ?thesis by simp
  qed
qed simp

lemma include_dict_keys:
  "fst ` set (fold (\<lambda>(h, n). AList.update h n) xs d) = fst ` set xs \<union> fst ` set d"
  by (induction xs arbitrary: d) (simp_all add: split_beta)

text \<open>An error asks for a header that the file does not include.\<close>

definition asks_for_missing :: "include_state \<Rightarrow> diag \<Rightarrow> bool" where
  "asks_for_missing st d \<longleftrightarrow> (\<exists>header template. d_message d = ''Add #include '' @ header @ '' for '' @ template \<and>
     strip_brackets header \<notin> fst ` set (concat (include_list st)))"

lemma missing_includes_spec:
  assumes "required_in k req" "k \<le> NumLines cl" "fst ` set (concat (include_list st)) \<subseteq> fst ` set d"
  shows "sorted (map (\<lambda>d. the (d_linenum d)) (missing_includes filename req d)) \<and>
    list_all (\<lambda>e. file_diag filename cl e \<and> asks_for_missing st e) (missing_includes filename req d)"
proof
  have "sorted (map (fst \<circ> snd) (sort_key snd req))"
    using sorted_sort_key [of snd req] by (auto simp: sorted_map less_eq_prod_def elim: sorted_wrt_mono_rel [rotated])
  then have "sorted (map (fst \<circ> snd) (filter P (sort_key snd req)))" for P by (rule sorted_filter)
  then show "sorted (map (\<lambda>d. the (d_linenum d)) (missing_includes filename req d))"
    by (auto simp: missing_includes_def sorted_map mk_error_def case_prod_beta)
  have "file_diag filename cl e \<and> asks_for_missing st e" if e: "e \<in> set (missing_includes filename req d)" for e
  proof -
    from e obtain header n template where h: "(header, n, template) \<in> set req" "strip_brackets header \<notin> fst ` set d"
        "e = mk_error filename (int n) ''build/include_what_you_use'' 4 (''Add #include '' @ header @ '' for '' @ template)"
      by (auto simp: missing_includes_def)
    with assms(1,2) have "n < NumLines cl" by (auto simp: required_in_def list_all_iff)
    moreover have "strip_brackets header \<notin> fst ` set (concat (include_list st))" using h(2) assms(3) by blast
    moreover have "d_message e = ''Add #include '' @ header @ '' for '' @ template" using h(3) by (simp add: mk_error_def)
    ultimately show ?thesis unfolding asks_for_missing_def h(3) file_diag_mk by auto
  qed
  then show "list_all (\<lambda>e. file_diag filename cl e \<and> asks_for_missing st e) (missing_includes filename req d)"
    by (simp add: list_all_iff)
qed

lemma CheckForIncludeWhatYouUse_result:
  assumes "names_resolve cfg" "well_formed cl"
  shows "\<exists>ds. CheckForIncludeWhatYouUse cfg read_header filename cl st = Some ds \<and>
    sorted (map (\<lambda>d. the (d_linenum d)) ds) \<and> list_all (\<lambda>d. file_diag filename cl d \<and> asks_for_missing st d) ds"
proof -
  define req where "req = required_headers (take (NumLines cl) (elided cl))"
  have req: "required_in (NumLines cl) req" using required_headers_in [of "take (NumLines cl) (elided cl)"] assms(2)
    by (simp add: req_def cl_lengths)
  define inc where "inc = fold (\<lambda>(header, n). AList.update header n) (concat (include_list st)) []"
  obtain b d where d: "read_module_headers cfg read_header (re_sub re_flymake_cc (\<lambda>_. ''.cc'') (FullName (paths cfg) filename))
      (map fst inc) inc False = Some (b, d)" "fst ` set inc \<subseteq> fst ` set d"
    using read_module_headers_returns [OF assms(1)] by blast
  then have "fst ` set (concat (include_list st)) \<subseteq> fst ` set d" using include_dict_keys [of "concat (include_list st)" "[]"]
    by (simp add: inc_def)
  from missing_includes_spec [OF req order_refl this] d(1) show ?thesis
    by (simp add: CheckForIncludeWhatYouUse_def Let_def flip: req_def inc_def)
qed

lemma CheckForIncludeWhatYouUse_returns:
  "names_resolve cfg \<Longrightarrow> well_formed cl \<Longrightarrow> \<exists>ds. CheckForIncludeWhatYouUse cfg read_header filename cl st = Some ds"
  using CheckForIncludeWhatYouUse_result by blast

text \<open>C19: CheckForIncludeWhatYouUse returns; its errors are in the order of the lines, each on a line of the
  file, and none asks for a header that the file includes.\<close>

theorem CheckForIncludeWhatYouUse_spec:
  assumes "names_resolve cfg" "well_formed cl"
  shows "\<exists>ds. CheckForIncludeWhatYouUse cfg read_header filename cl st = Some ds \<and>
    sorted (map (\<lambda>d. the (d_linenum d)) ds) \<and> list_all (\<lambda>d. file_diag filename cl d \<and> asks_for_missing st d) ds"
  by (rule CheckForIncludeWhatYouUse_result [OF assms])

theorem CheckForIncludeWhatYouUse_spec_witness:
  "\<exists>ds. CheckForIncludeWhatYouUse example_config (\<lambda>_. None) ''base/a.h'' include_file IncludeState_init = Some ds \<and>
    sorted (map (\<lambda>d. the (d_linenum d)) ds) \<and>
    list_all (\<lambda>d. file_diag ''base/a.h'' include_file d \<and> asks_for_missing IncludeState_init d) ds"
  by (rule CheckForIncludeWhatYouUse_spec [OF example_names]) (simp add: include_file_def well_formed_def NumLines_def Let_def)

text \<open>When two files belong to the same module, the prefix that FilesBelongToSameModule computes makes the
  module of the header the module of the source.\<close>

theorem FilesBelongToSameModule_prefix:
  assumes "FilesBelongToSameModule cfg filename_cc filename_h = Some (True, common_path)"
    "Extension (paths cfg) (repository_option cfg) filename_cc = Some ext_cc"
    "Extension (paths cfg) (repository_option cfg) filename_h = Some ext_h"
    "BaseName (paths cfg) (repository_option cfg) filename_cc = Some base" "module_of_header filename_h ext_h \<noteq> []"
  shows "common_path @ module_of_header filename_h ext_h = module_of_source filename_cc ext_cc base"
proof -
  let ?cc = "module_of_source filename_cc ext_cc base" and ?h = "module_of_header filename_h ext_h"
  from assms(1-4) have *: "ends_with ?cc ?h" "common_path = py_upto ?cc (- int (length ?h))"
    by (auto simp: FilesBelongToSameModule_def Let_def split: if_splits)
  then obtain p where "?cc = p @ ?h" by (auto simp: ends_with_iff)
  with *(2) assms(5) show ?thesis by (simp add: py_upto_def slice_pos_def)
qed

theorem FilesBelongToSameModule_prefix_witness:
  "''/absolute/path/to/'' @ module_of_header ''base/sysinfo.h'' ''.h'' =
    module_of_source ''/absolute/path/to/base/sysinfo.cc'' ''.cc'' ''sysinfo''"
proof (rule FilesBelongToSameModule_prefix)
  show "FilesBelongToSameModule example_config ''/absolute/path/to/base/sysinfo.cc'' ''base/sysinfo.h'' =
      Some (True, ''/absolute/path/to/'')" by code_simp
  show "Extension (paths example_config) (repository_option example_config) ''/absolute/path/to/base/sysinfo.cc'' = Some ''.cc''"
    by code_simp
  show "Extension (paths example_config) (repository_option example_config) ''base/sysinfo.h'' = Some ''.h''" by code_simp
  show "BaseName (paths example_config) (repository_option example_config) ''/absolute/path/to/base/sysinfo.cc'' = Some ''sysinfo''"
    by code_simp
  show "module_of_header ''base/sysinfo.h'' ''.h'' \<noteq> []" by code_simp
qed

end
