(* ===== verification/ProcessLines.thy ===== *)
theory ProcessLines
  imports NestingLines IncludeUse FileChecks
begin

text \<open>
  The composition of the checks (\<open>cpplint.py\<close>, \<open>ProcessLine\<close>, \<open>CheckForBadCharacters\<close> and
  \<open>ProcessFileData\<close>), and the exact conditions under which it raises.
\<close>

section \<open>The checks of a line\<close>

text \<open>The three objects that the checks of the lines of a file update.\<close>

record check_state =
  includes_seen :: include_state
  functions_seen :: function_state
  blocks_open :: nesting_state

definition check_state_init :: check_state where
  "check_state_init = \<lparr>includes_seen = IncludeState_init, functions_seen = FunctionState_init, blocks_open = NestingState_init\<rparr>"

type_synonym line_checker = "string \<Rightarrow> cleansed_lines \<Rightarrow> nat \<Rightarrow> diag list option"

text \<open>
  The checks of a line outside of inline assembly. The additional functions that a caller of the
  module may pass are the argument \<open>extra_check_functions\<close>.
\<close>

definition check_line :: "config \<Rightarrow> int \<Rightarrow> line_checker list \<Rightarrow> string \<Rightarrow> string \<Rightarrow> cleansed_lines \<Rightarrow> nat \<Rightarrow>
    check_state \<Rightarrow> (effect list \<times> check_state) option" where
  "check_line cfg verbose extra_check_functions filename file_extension clean_lines line st = do {
     let ns = blocks_open st;
     (lengths, fs) \<leftarrow> CheckForFunctionLengths verbose filename clean_lines line (functions_seen st);
     comments \<leftarrow> CheckForMultilineCommentsAndStrings filename clean_lines line;
     style \<leftarrow> CheckStyle cfg filename ns file_extension clean_lines line;
     (language, incs) \<leftarrow> CheckLanguage cfg filename clean_lines line file_extension (includes_seen st);
     ds \<leftarrow> run_all ([
       CheckForNonConstReference filename ns clean_lines line,
       CheckForNonStandardConstructs filename ns clean_lines line,
       CheckVlogArguments filename clean_lines line,
       CheckPosixThreading filename clean_lines line,
       CheckInvalidIncrement filename clean_lines line,
       CheckMakePairUsesDeduction filename clean_lines line,
       CheckRedundantVirtual filename clean_lines line,
       CheckRedundantOverrideOrFinal filename clean_lines line] @
       map (\<lambda>check_fn. check_fn filename clean_lines line) extra_check_functions);
     Some (map Report (lengths @ comments) @ style @ map Report (language @ ds),
       \<lparr>includes_seen = incs, functions_seen = fs, blocks_open = ns\<rparr>)
   }"

definition ProcessLine :: "config \<Rightarrow> int \<Rightarrow> line_checker list \<Rightarrow> string \<Rightarrow> string \<Rightarrow> cleansed_lines \<Rightarrow> nat \<Rightarrow>
    check_state \<Rightarrow> (effect list \<times> check_state) option" where
  "ProcessLine cfg verbose extra_check_functions filename file_extension clean_lines line st = do {
     raw \<leftarrow> py_nth (raw_lines clean_lines) (int line);
     let suppressions = ParseNolintSuppressions filename raw (int line);
     (ds, ns) \<leftarrow> Update filename clean_lines line (blocks_open st);
     indentation \<leftarrow> CheckForNamespaceIndentation filename ns clean_lines line;
     let es = suppressions @ map Report (ds @ indentation);
     let st = st\<lparr>blocks_open := ns\<rparr>;
     if InAsmBlock ns then Some (es, st)
     else do {
       (es', st) \<leftarrow> check_line cfg verbose extra_check_functions filename file_extension clean_lines line st;
       Some (es @ es', st)
     }
   }"

section \<open>When the checks of a line raise\<close>

text \<open>
  What the code relies on beyond the text: the repository name of every file is found (the search
  for it ends), the verbosity level is not negative, and the additional checks are sound.
\<close>

definition extra_sound :: "line_checker list \<Rightarrow> cleansed_lines \<Rightarrow> bool" where
  "extra_sound extra cl \<longleftrightarrow> (\<forall>check \<in> set extra. \<forall>filename n. n < NumLines cl \<longrightarrow> sound filename cl (check filename cl n))"

definition line_stuck :: "cleansed_lines \<Rightarrow> nesting_state \<Rightarrow> nat \<Rightarrow> bool" where
  "line_stuck cl ns n \<longleftrightarrow> \<not> InAsmBlock ns \<and> (language_stuck cl n \<or> constructor_stuck ns (elided cl ! n))"

definition state_ok :: "nat \<Rightarrow> check_state \<Rightarrow> bool" where
  "state_ok n st \<longleftrightarrow> nesting_lines n (blocks_open st) \<and> include_inv (includes_seen st)"

lemma state_ok_init: "state_ok n check_state_init"
  by (simp add: state_ok_def check_state_init_def nesting_lines_init include_inv_init)

lemma state_ok_mono: "state_ok n st \<Longrightarrow> n \<le> k \<Longrightarrow> state_ok k st"
  by (auto simp: state_ok_def intro: nesting_lines_mono)

lemma nesting_lines_blocks: "nesting_lines n ns \<Longrightarrow> n < NumLines cl \<Longrightarrow> blocks_in cl ns"
  by (auto simp: nesting_lines_def lines_down_def blocks_in_def list_all_iff)

lemma names_resolve_guard: "names_resolve cfg \<Longrightarrow> guard_known cfg filename file_extension"
  by (auto simp: guard_known_def GetHeaderGuardCPPVariable_def Let_def elim!: names_resolveE [of _ "guard_filename filename"])

lemma body_search_errors:
  "(case body of Body_Begins function \<Rightarrow> ([], f function) | No_Body \<Rightarrow> ([], fs) | Body_Not_Found \<Rightarrow> ([e], fs)) = (ds, fs') \<Longrightarrow>
     ds = [] \<or> ds = [e]"
  by (cases body) auto

lemma CheckForFunctionLengths_diags:
  assumes "CheckForFunctionLengths verbose filename cl n fs = Some (ds, fs')" "n < NumLines cl" "0 \<le> verbose"
  shows "list_all (file_diag filename cl) ds"
proof -
  have level: "0 \<le> int_log2_ratio (lines_in_function fs) (base_trigger fs)"
    if "exceeds_trigger (lines_in_function fs) (base_trigger fs) verbose"
    using level_reaches [OF base_trigger_pos, of fs "nat verbose" "lines_in_function fs"] that assms(3)
    by (simp add: exceeds_trigger_def)
  have "list_all (file_diag filename cl) (Check verbose filename (int n) fs)"
    using assms(2) level by (simp add: Check_def Let_def)
  with assms(1,2) show ?thesis
    by (auto simp: CheckForFunctionLengths_def bind_eq_Some_conv split: if_splits dest!: body_search_errors)
qed

lemma run_all_raises: "run_all rs = None \<longleftrightarrow> None \<in> set rs"
proof (induction rs)
  case (Cons r rs)
  then show ?case by (cases r; cases "run_all rs") (auto simp: and_then_def)
qed simp

text \<open>The result of the checks of a line, on every line of a cleansed file.\<close>

definition checked :: "string \<Rightarrow> cleansed_lines \<Rightarrow> nat \<Rightarrow> nesting_state \<Rightarrow> (effect list \<times> check_state) option \<Rightarrow> bool" where
  "checked filename cl n ns r \<longleftrightarrow> (\<exists>es st. r = Some (es, st) \<and> list_all (file_effect filename cl) es \<and>
     state_ok n st \<and> blocks_open st = ns)"

lemma check_line_result:
  assumes cl: "well_formed cl" "n < NumLines cl" and "names_resolve cfg" "0 \<le> verbose" "extra_sound extra cl" "state_ok n st"
    "\<not> InAsmBlock (blocks_open st)"
  shows "if line_stuck cl (blocks_open st) n then check_line cfg verbose extra filename file_extension cl n st = None
    else checked filename cl n (blocks_open st) (check_line cfg verbose extra filename file_extension cl n st)"
proof -
  let ?ns = "blocks_open st"
  from assms(6) have inv: "nesting_lines n ?ns" "include_inv (includes_seen st)" by (simp_all add: state_ok_def)
  obtain lengths fs where lengths: "CheckForFunctionLengths verbose filename cl n (functions_seen st) = Some (lengths, fs)"
    using function_lengths_return [OF cl] by blast
  note lengths_ok = CheckForFunctionLengths_diags [OF this cl(2) assms(4)]
  obtain comments where comments: "CheckForMultilineCommentsAndStrings filename cl n = Some comments"
      "list_all (file_diag filename cl) comments"
    using multiline.on_file.returns [OF cl] by blast
  obtain style where style: "CheckStyle cfg filename ?ns file_extension cl n = Some style" "list_all (file_effect filename cl) style"
    using CheckStyle_effects [OF cl nesting_lines_blocks [OF inv(1) cl(2)] names_resolve_guard [OF assms(3)]]
    by (auto simp: effects_sound_def)
  let ?rest = "[CheckVlogArguments filename cl n, CheckPosixThreading filename cl n, CheckInvalidIncrement filename cl n,
      CheckMakePairUsesDeduction filename cl n, CheckRedundantVirtual filename cl n, CheckRedundantOverrideOrFinal filename cl n] @
      map (\<lambda>check_fn. check_fn filename cl n) extra"
  let ?checks = "CheckForNonConstReference filename ?ns cl n # CheckForNonStandardConstructs filename ?ns cl n # ?rest"
  note heads = lengths comments(1) style(1)
  have references: "sound filename cl (CheckForNonConstReference filename ?ns cl n)"
    using references.check_sound [OF cl] by simp
  have rest: "list_all (sound filename cl) ?rest"
    using cl assms(5) by (simp add: vlog.on_file.check_sound threading.on_file.check_sound increment.on_file.check_sound
      make_pair.check_sound redundant_virtual.check_sound redundant_override.check_sound extra_sound_def list_all_iff)
  have language: "if language_stuck cl n then CheckLanguage cfg filename cl n file_extension (includes_seen st) = None
      else include_result filename cl (CheckLanguage cfg filename cl n file_extension (includes_seen st))"
    by (rule CheckLanguage_result [OF cl assms(3) inv(2)])
  show ?thesis
  proof (cases "line_stuck cl ?ns n")
    case True
    then consider "language_stuck cl n" | "constructor_stuck ?ns (elided cl ! n)" by (auto simp: line_stuck_def)
    then have "check_line cfg verbose extra filename file_extension cl n st = None"
    proof cases
      case 1
      with language heads show ?thesis by (simp add: check_line_def Let_def del: run_all.simps)
    next
      case 2
      with nonstandard_result [OF cl, of ?ns filename] have "CheckForNonStandardConstructs filename ?ns cl n = None" by simp
      then have "run_all ?checks = None" by (simp only: run_all_raises) simp
      with heads show ?thesis
        by (cases "CheckLanguage cfg filename cl n file_extension (includes_seen st)")
          (auto simp: check_line_def Let_def simp del: run_all.simps)
    qed
    with True show ?thesis by simp
  next
    case False
    with assms(7) language obtain ds incs where language: "CheckLanguage cfg filename cl n file_extension (includes_seen st) = Some (ds, incs)"
        "list_all (file_diag filename cl) ds" "include_inv incs"
      by (auto simp: line_stuck_def include_result_def)
    have "sound filename cl (CheckForNonStandardConstructs filename ?ns cl n)"
      using False assms(7) nonstandard_result [OF cl, of ?ns filename] by (auto simp: line_stuck_def)
    with references rest have "sound filename cl (run_all ?checks)" by (intro sound_run_all) simp
    then obtain ds' where "run_all ?checks = Some ds'" "list_all (file_diag filename cl) ds'" by (rule soundE)
    with False heads language comments(2) style(2) lengths_ok inv show ?thesis
      by (simp add: check_line_def Let_def checked_def state_ok_def list.pred_map comp_def del: run_all.simps)
  qed
qed


lemma ParseNolintSuppressions_line:
  "n < NumLines cl \<Longrightarrow> list_all (file_effect filename cl) (ParseNolintSuppressions filename raw (int n))"
  by (rule ParseNolintSuppressions_effects) auto

lemma ProcessLine_result:
  assumes cl: "well_formed cl" "n < NumLines cl" and env: "names_resolve cfg" "0 \<le> verbose" "extra_sound extra cl"
    and "state_ok n st" "Update filename cl n (blocks_open st) = Some (ds, ns)"
  shows "if line_stuck cl ns n then ProcessLine cfg verbose extra filename file_extension cl n st = None
    else checked filename cl n ns (ProcessLine cfg verbose extra filename file_extension cl n st)"
proof -
  have ok: "state_ok n (st\<lparr>blocks_open := ns\<rparr>)" and ds: "list_all (file_diag filename cl) ds"
    using Update_lines [OF assms(7) cl(2)] assms(6) by (simp_all add: state_ok_def)
  obtain indentation where indentation: "CheckForNamespaceIndentation filename ns cl n = Some indentation"
      "list_all (file_diag filename cl) indentation"
    using namespace_indent.on_file.returns [OF cl] by blast
  note heads = cl_lines(3) [OF cl] assms(7) indentation(1)
  note effects = ParseNolintSuppressions_line [OF cl(2)] ds indentation(2)
  show ?thesis
  proof (cases "InAsmBlock ns")
    case True
    with heads effects ok show ?thesis
      by (simp add: ProcessLine_def Let_def line_stuck_def checked_def list.pred_map comp_def del: py_nth_nat)
  next
    case False
    with check_line_result [OF cl env ok, of filename file_extension] have
      "if line_stuck cl ns n then check_line cfg verbose extra filename file_extension cl n (st\<lparr>blocks_open := ns\<rparr>) = None
       else checked filename cl n ns (check_line cfg verbose extra filename file_extension cl n (st\<lparr>blocks_open := ns\<rparr>))" by (simp split: if_splits)
    with False heads effects show ?thesis
      by (auto simp: ProcessLine_def Let_def checked_def list.pred_map comp_def simp del: py_nth_nat)
  qed
qed

text \<open>C15: on a line of a cleansed file \<open>ProcessLine\<close> raises exactly when, after the update of the blocks, the
  line is outside of inline assembly and either \<open>CheckCasts\<close> gets to a cast that ends its line under an
  address-of, or the line declares a constructor whose arguments cannot be put together.\<close>

theorem ProcessLine_raises:
  assumes "well_formed cl" "n < NumLines cl" "names_resolve cfg" "0 \<le> verbose" "extra_sound extra cl" "state_ok n st"
    "Update filename cl n (blocks_open st) = Some (ds, ns)"
  shows "ProcessLine cfg verbose extra filename file_extension cl n st = None \<longleftrightarrow> line_stuck cl ns n"
  using ProcessLine_result [OF assms, of file_extension] by (auto simp: checked_def split: if_splits)

theorem ProcessLine_raises_witness:
  "ProcessLine example_config 0 [] ''a.cc'' ''cc'' cast_file 0 check_state_init = None"
proof (rule ProcessLine_raises [THEN iffD2])
  show "well_formed cast_file" "0 < NumLines cast_file" by (simp_all add: cast_file_def well_formed_def NumLines_def Let_def)
  show "names_resolve example_config" "(0::int) \<le> 0" "extra_sound [] cast_file" "state_ok 0 check_state_init"
    by (simp_all add: example_names extra_sound_def state_ok_init)
  show "Update ''a.cc'' cast_file 0 (blocks_open check_state_init) = Some ([], blocks_open check_state_init)" by code_simp
  show "line_stuck cast_file (blocks_open check_state_init) 0" by code_simp
qed

text \<open>C4: \<open>ProcessLine\<close> keeps the state of the file in order: the blocks of the stack begin on earlier lines from
  the top down, and no header is recorded twice. Every error it reports names the file, a line of the file,
  a listed category and a confidence from 0 to 5, and every suppression is of a listed category or of all.\<close>

theorem ProcessLine_keeps:
  assumes "well_formed cl" "n < NumLines cl" "names_resolve cfg" "0 \<le> verbose" "extra_sound extra cl" "state_ok n st"
    "ProcessLine cfg verbose extra filename file_extension cl n st = Some (es, st')"
  shows "state_ok n st' \<and> list_all (file_effect filename cl) es"
proof -
  obtain ds ns where u: "Update filename cl n (blocks_open st) = Some (ds, ns)" using Update_returns [OF assms(1,2)] by blast
  from ProcessLine_result [OF assms(1-6) u, of file_extension] assms(7) show ?thesis by (auto simp: checked_def split: if_splits)
qed

theorem ProcessLine_keeps_witness:
  "\<exists>es st'. ProcessLine example_config 0 [] ''base/a.cc'' ''cc'' include_file 1 check_state_init = Some (es, st') \<and>
     concat (include_list (includes_seen st')) = [(''base/a.h'', 1)] \<and>
     state_ok 1 st' \<and> list_all (file_effect ''base/a.cc'' include_file) es"
proof -
  have "case ProcessLine example_config 0 [] ''base/a.cc'' ''cc'' include_file 1 check_state_init of None \<Rightarrow> False
      | Some (es, st') \<Rightarrow> concat (include_list (includes_seen st')) = [(''base/a.h'', 1)]" by code_simp
  then obtain es st' where r: "ProcessLine example_config 0 [] ''base/a.cc'' ''cc'' include_file 1 check_state_init = Some (es, st')"
      "concat (include_list (includes_seen st')) = [(''base/a.h'', 1)]" by (auto split: option.splits prod.splits)
  have "well_formed include_file" "1 < NumLines include_file" by (simp_all add: include_file_def well_formed_def NumLines_def Let_def)
  from ProcessLine_keeps [OF this example_names _ _ state_ok_init r(1)] r show ?thesis by (auto simp: extra_sound_def)
qed

end
