(* ===== verification/ProcessData.thy ===== *)
theory ProcessData
  imports ProcessLines
begin

text \<open>
  The checks of a file (\<open>cpplint.py\<close>, \<open>ProcessFileData\<close> and \<open>CheckForBadCharacters\<close>). Every check hands
  its errors to the handler before the next one runs. \<open>None\<close> is an exception or a failed assertion.
\<close>

section \<open>Bad characters\<close>

text \<open>A line is a list of code points here, of which U+FFFD is the one that replaces invalid UTF-8.\<close>

definition CheckForBadCharacters :: "string \<Rightarrow> nat list list \<Rightarrow> diag list" where
  "CheckForBadCharacters filename ls = concat (map (\<lambda>(linenum, line).
     report_if (0xFFFD \<in> set line) (mk_error filename (int linenum) ''readability/utf8'' 5
       ''Line contains invalid UTF-8 (or Unicode replacement character).'') @
     report_if (0 \<in> set line) (mk_error filename (int linenum) ''readability/nul'' 5 ''Line contains NUL byte.''))
     (enumerate 0 ls))"

section \<open>The head of the checks of a file\<close>

text \<open>
  \<open>ProcessFileData\<close> up to the header guard: the two marker lines, the suppression tables, the
  copyright notice, and the cleansing. The comments are removed from the list of lines itself, so
  that all later checks see the list without them.
\<close>

definition marked_lines :: "string list \<Rightarrow> string list" where
  "marked_lines ls = [''// marker so line numbers and indices both start at 1''] @ ls @
     [''// marker so line numbers end in a known way'']"

definition process_file_head ::
  "extension_options \<Rightarrow> path_env \<Rightarrow> string option \<Rightarrow> string option \<Rightarrow> string \<Rightarrow> string \<Rightarrow> string list \<Rightarrow> world \<Rightarrow>
   (cleansed_lines \<times> string list \<times> world) option" where
  "process_file_head opts env root repository filename file_extension ls w = do {
     let ls = marked_lines ls;
     let w = w\<lparr>nolint := ResetNolintSuppressions (nolint w)\<rparr>;
     w \<leftarrow> perform_all (map Report (CheckForCopyright filename ls)) w;
     let w = w\<lparr>nolint := ProcessGlobalSuppresions ls (nolint w)\<rparr>;
     let (ls, ds) = RemoveMultiLineComments filename ls;
     w \<leftarrow> perform_all (map Report ds) w;
     clean_lines \<leftarrow> CleansedLines ls;
     w \<leftarrow> (if IsHeaderExtension opts file_extension then do {
           es \<leftarrow> CheckForHeaderGuard env root repository filename clean_lines; perform_all es w }
         else Some w);
     Some (clean_lines, ls, w)
   }"

lemma perform_all_ok: "filters_ok w \<Longrightarrow> \<exists>w'. perform_all es w = Some w' \<and> filters_ok w'"
  using handler.run_total by (simp add: perform_all_def)

lemma header_guard_returns:
  "RepositoryName env repository (guard_filename filename) \<noteq> None \<Longrightarrow>
    \<exists>es. CheckForHeaderGuard env root repository filename cl = Some es"
  by (auto simp: CheckForHeaderGuard_def GetHeaderGuardCPPVariable_def Let_def)

lemma file_head_result:
  assumes "filters_ok w" "RepositoryName env repository (guard_filename filename) \<noteq> None"
  shows "\<exists>cl ls' w'. process_file_head opts env root repository filename ext ls w = Some (cl, ls', w') \<and>
    well_formed cl \<and> NumLines cl = length ls + 2 \<and> filters_ok w'"
proof -
  let ?ls = "marked_lines ls"
  have "filters_ok (w\<lparr>nolint := ResetNolintSuppressions (nolint w)\<rparr>)" using assms(1) by simp
  then obtain w1 where 1: "perform_all (map Report (CheckForCopyright filename ?ls))
      (w\<lparr>nolint := ResetNolintSuppressions (nolint w)\<rparr>) = Some w1" "filters_ok w1"
    using perform_all_ok by blast
  obtain ls' ds where c: "RemoveMultiLineComments filename ?ls = (ls', ds)" by fastforce
  with RemoveMultiLineComments_length [of filename ?ls] have len: "length ls' = length ls + 2"
    by (simp add: marked_lines_def)
  have "filters_ok (w1\<lparr>nolint := ProcessGlobalSuppresions ?ls (nolint w1)\<rparr>)" using 1(2) by simp
  then obtain w2 where 2: "perform_all (map Report ds) (w1\<lparr>nolint := ProcessGlobalSuppresions ?ls (nolint w1)\<rparr>) = Some w2"
      "filters_ok w2" using perform_all_ok by blast
  obtain cl where cl: "CleansedLines ls' = Some cl" "well_formed cl" "NumLines cl = length ls'"
    using CleansedLines_returns by blast
  obtain es where es: "CheckForHeaderGuard env root repository filename cl = Some es"
    using header_guard_returns [OF assms(2)] by blast
  obtain w3 where 3: "perform_all es w2 = Some w3" "filters_ok w3" using perform_all_ok [OF 2(2)] by blast
  show ?thesis
    using 1 2 3 c cl es len
    by (cases "IsHeaderExtension opts ext") (simp_all add: process_file_head_def Let_def)
qed


section \<open>The checks of a file\<close>

fun process_lines :: "config \<Rightarrow> line_checker list \<Rightarrow> string \<Rightarrow> string \<Rightarrow> cleansed_lines \<Rightarrow> nat list \<Rightarrow>
    check_state \<times> world \<Rightarrow> (check_state \<times> world) option" where
  "process_lines cfg extra filename file_extension cl [] (st, w) = Some (st, w)"
| "process_lines cfg extra filename file_extension cl (line # ls) (st, w) = do {
     (es, st) \<leftarrow> ProcessLine cfg (verbose_level (lint w)) extra filename file_extension cl line st;
     w \<leftarrow> perform_all es w;
     ds \<leftarrow> FlagCxx11Features filename cl line;
     w \<leftarrow> perform_all (map Report ds) w;
     process_lines cfg extra filename file_extension cl ls (st, w)
   }"

text \<open>The checks after the lines; \<open>read_header\<close> yields the lines of a header on disk.\<close>

definition finish_file :: "config \<Rightarrow> (string \<Rightarrow> string list option) \<Rightarrow> string \<Rightarrow> string \<Rightarrow> cleansed_lines \<Rightarrow> string list \<Rightarrow>
    check_state \<times> world \<Rightarrow> world option" where
  "finish_file cfg read_header filename file_extension clean_lines ls = (\<lambda>(st, w). do {
     w \<leftarrow> perform_all (map Report (CheckCompletedBlocks filename (blocks_open st))) w;
     ds \<leftarrow> CheckForIncludeWhatYouUse cfg read_header filename clean_lines (includes_seen st);
     w \<leftarrow> perform_all (map Report ds) w;
     w \<leftarrow> (if IsSourceExtension (extensions cfg) file_extension then do {
           ds \<leftarrow> CheckHeaderFileIncluded (paths cfg) (repository_option cfg) (header_order cfg) filename (includes_seen st);
           perform_all (map Report ds) w }
         else Some w);
     w \<leftarrow> perform_all (map Report (CheckForBadCharacters filename (map (map of_char) ls))) w;
     perform_all (map Report (CheckForNewlineAtEOF filename ls)) w
   })"

definition ProcessFileData :: "config \<Rightarrow> (string \<Rightarrow> string list option) \<Rightarrow> line_checker list \<Rightarrow> string \<Rightarrow> string \<Rightarrow>
    string list \<Rightarrow> world \<Rightarrow> world option" where
  "ProcessFileData cfg read_header extra_check_functions filename file_extension ls w = do {
     (clean_lines, ls, w) \<leftarrow> process_file_head (extensions cfg) (paths cfg) (root_option cfg) (repository_option cfg)
       filename file_extension ls w;
     sw \<leftarrow> process_lines cfg extra_check_functions filename file_extension clean_lines [0 ..< NumLines clean_lines]
       (check_state_init, w);
     finish_file cfg read_header filename file_extension clean_lines ls sw
   }"

section \<open>The handler apart from the checks\<close>

text \<open>The checks of the lines as a function that only collects effects.\<close>

fun lines_effects :: "config \<Rightarrow> int \<Rightarrow> line_checker list \<Rightarrow> string \<Rightarrow> string \<Rightarrow> cleansed_lines \<Rightarrow> nat list \<Rightarrow>
    check_state \<Rightarrow> (effect list \<times> check_state) option" where
  "lines_effects cfg verbose extra filename file_extension cl [] st = Some ([], st)"
| "lines_effects cfg verbose extra filename file_extension cl (line # ls) st = do {
     (es, st) \<leftarrow> ProcessLine cfg verbose extra filename file_extension cl line st;
     ds \<leftarrow> FlagCxx11Features filename cl line;
     (es', st) \<leftarrow> lines_effects cfg verbose extra filename file_extension cl ls st;
     Some (es @ map Report ds @ es', st)
   }"

lemma emit_verbose [simp]: "verbose_level (lint (emit d w)) = verbose_level (lint w)"
  by (simp add: emit_def PrintError_def write_err_def update_lint_def AddJUnitFailure_def Let_def)

lemma perform_verbose: "perform e w = Some w' \<Longrightarrow> verbose_level (lint w') = verbose_level (lint w)"
  by (cases e) (auto simp: perform_def update_lint_def IncrementErrorCount_def Let_def elim!: Error_cases)

lemma perform_all_verbose: "perform_all es w = Some w' \<Longrightarrow> verbose_level (lint w') = verbose_level (lint w)"
  by (erule perform_all_induct) (auto dest: perform_verbose)

lemma perform_all_append: "perform_all (es @ es') w = perform_all es w \<bind> perform_all es'"
  by (simp add: perform_all_def handler.run_append split: option.split)

text \<open>The handler does not influence the checks: handing every effect to the handler as it arises, as the
  code does, has the same result as collecting the effects of all lines first and performing them at the end.\<close>

theorem process_lines_refines:
  "process_lines cfg extra filename file_extension cl ls (st, w) = do {
     (es, st') \<leftarrow> lines_effects cfg (verbose_level (lint w)) extra filename file_extension cl ls st;
     w' \<leftarrow> perform_all es w;
     Some (st', w')
   }"
proof (induction ls arbitrary: st w)
  case (Cons n ls)
  show ?case
  proof (cases "ProcessLine cfg (verbose_level (lint w)) extra filename file_extension cl n st")
    case (Some r)
    obtain es st1 where r: "r = (es, st1)" by fastforce
    show ?thesis
    proof (cases "perform_all es w")
      case None
      with Some r show ?thesis by (simp add: perform_all_append case_prod_beta split: option.split)
    next
      case w1: (Some w1)
      show ?thesis
      proof (cases "FlagCxx11Features filename cl n")
        case ds: (Some ds)
        show ?thesis
        proof (cases "perform_all (map Report ds) w1")
          case (Some w2)
          with perform_all_verbose [OF w1] perform_all_verbose [OF Some] Cons.IH [of st1 w2] w1 ds r
            \<open>ProcessLine _ _ _ _ _ _ _ _ = _\<close>
          show ?thesis by (simp add: perform_all_append case_prod_beta)
        qed (use Some r w1 ds in \<open>simp add: perform_all_append case_prod_beta\<close>)
      qed (use Some r w1 in simp)
    qed
  qed simp
qed (simp add: perform_all_def)


section \<open>When the checks of a file raise\<close>

text \<open>The blocks that are open after the first \<open>k\<close> lines.\<close>

primrec nesting_after :: "string \<Rightarrow> cleansed_lines \<Rightarrow> nat \<Rightarrow> nesting_state" where
  "nesting_after filename cl 0 = NestingState_init"
| "nesting_after filename cl (Suc n) =
     (case Update filename cl n (nesting_after filename cl n) of None \<Rightarrow> nesting_after filename cl n | Some (ds, ns) \<Rightarrow> ns)"

definition file_stuck :: "string \<Rightarrow> cleansed_lines \<Rightarrow> nat \<Rightarrow> bool" where
  "file_stuck filename cl k \<longleftrightarrow> (\<exists>n. k \<le> n \<and> n < NumLines cl \<and> line_stuck cl (nesting_after filename cl (Suc n)) n)"

lemma file_stuck_step: "k < NumLines cl \<Longrightarrow> file_stuck filename cl k \<longleftrightarrow>
    line_stuck cl (nesting_after filename cl (Suc k)) k \<or> file_stuck filename cl (Suc k)"
  unfolding file_stuck_def by (metis Suc_le_eq le_eq_less_or_eq)

text \<open>The effects of the lines from the \<open>k\<close>-th on.\<close>

definition file_checked :: "string \<Rightarrow> cleansed_lines \<Rightarrow> (effect list \<times> check_state) option \<Rightarrow> bool" where
  "file_checked filename cl r \<longleftrightarrow> (\<exists>es st. r = Some (es, st) \<and> list_all (file_effect filename cl) es \<and> state_ok (NumLines cl) st)"

lemma lines_effects_result:
  assumes "well_formed cl" "names_resolve cfg" "0 \<le> verbose" "extra_sound extra cl"
  shows "k \<le> NumLines cl \<Longrightarrow> state_ok k st \<Longrightarrow> blocks_open st = nesting_after filename cl k \<Longrightarrow>
    if file_stuck filename cl k then lines_effects cfg verbose extra filename file_extension cl [k ..< NumLines cl] st = None
    else file_checked filename cl (lines_effects cfg verbose extra filename file_extension cl [k ..< NumLines cl] st)"
proof (induction "NumLines cl - k" arbitrary: k st)
  case 0
  then have "NumLines cl = k" by simp
  with 0 show ?case by (simp add: file_stuck_def file_checked_def)
next
  case (Suc m)
  then have k: "k < NumLines cl" by simp
  obtain ds ns where u: "Update filename cl k (blocks_open st) = Some (ds, ns)" using Update_returns [OF assms(1) k] by blast
  with Suc.prems(3) have ns: "nesting_after filename cl (Suc k) = ns" by simp
  have upt: "[k ..< NumLines cl] = k # [Suc k ..< NumLines cl]" using k by (rule upt_conv_Cons)
  note step = ProcessLine_result [OF assms(1) k assms(2-4) Suc.prems(2) u, of file_extension]
  show ?case
  proof (cases "line_stuck cl ns k")
    case True
    with step ns show ?thesis by (simp add: upt file_stuck_step [OF k])
  next
    case False
    with step obtain es st1 where es: "ProcessLine cfg verbose extra filename file_extension cl k st = Some (es, st1)"
        "list_all (file_effect filename cl) es" "state_ok k st1" "blocks_open st1 = ns" by (auto simp: checked_def)
    obtain ds' where ds': "FlagCxx11Features filename cl k = Some ds'" "list_all (file_diag filename cl) ds'"
      using cxx11.returns [OF assms(1) k] by blast
    have "m = NumLines cl - Suc k" "Suc k \<le> NumLines cl" using Suc.hyps(2) k by simp_all
    from Suc.hyps(1) [OF this, of st1] state_ok_mono [OF es(3), of "Suc k"] es(4) ns
    have "if file_stuck filename cl (Suc k) then lines_effects cfg verbose extra filename file_extension cl [Suc k ..< NumLines cl] st1 = None
      else file_checked filename cl (lines_effects cfg verbose extra filename file_extension cl [Suc k ..< NumLines cl] st1)" by simp
    with False ns es ds' show ?thesis
      by (auto simp: upt file_stuck_step [OF k] file_checked_def list.pred_map comp_def)
  qed
qed

lemma check_headers_returns:
  assumes "names_resolve cfg"
  shows "\<exists>ds. check_headers (paths cfg) (repository_option cfg) filename extension st exts = Some ds"
proof (induction exts)
  case (Cons ext exts)
  obtain name where name: "RepositoryName (paths cfg) (repository_option cfg) filename = Some name" using names_resolveE [OF assms] .
  have "\<exists>h. RepositoryName (paths cfg) (repository_option cfg) f = Some h" for f using names_resolveE [OF assms, of f] by metis
  then obtain header where "\<And>f. RepositoryName (paths cfg) (repository_option cfg) f = Some (header f)" by metis
  with Cons name show ?case by (auto simp: Let_def split: option.split)
qed simp

lemma CheckHeaderFileIncluded_returns:
  assumes "names_resolve cfg"
  shows "\<exists>ds. CheckHeaderFileIncluded (paths cfg) (repository_option cfg) exts filename st = Some ds"
proof -
  obtain base ext where "BaseName (paths cfg) (repository_option cfg) filename = Some base"
      "Extension (paths cfg) (repository_option cfg) filename = Some ext" using names_resolve_file [OF assms] by metis
  with check_headers_returns [OF assms, of filename ext st exts] show ?thesis by (simp add: CheckHeaderFileIncluded_def)
qed

text \<open>
  What every effect keeps of the handler: the filters, the settings and standard output; and no error
  is ever uncounted.
\<close>

definition later :: "world \<Rightarrow> world \<Rightarrow> bool" where
  "later w w' \<longleftrightarrow> filters (lint w') = filters (lint w) \<and> filters_backup (lint w') = filters_backup (lint w) \<and>
     verbose_level (lint w') = verbose_level (lint w) \<and> quiet (lint w') = quiet (lint w) \<and>
     error_count (lint w) \<le> error_count (lint w') \<and> stdout w' = stdout w"

lemma later_refl [simp]: "later w w" and later_trans [trans]: "later w w1 \<Longrightarrow> later w1 w2 \<Longrightarrow> later w w2"
  by (auto simp: later_def)

lemma later_ok: "later w w' \<Longrightarrow> filters_ok w' = filters_ok w"
  by (simp add: later_def filters_ok_def)

lemma emit_later: "later w (emit d w)"
  by (simp add: later_def emit_def PrintError_def write_err_def update_lint_def AddJUnitFailure_def Let_def)

lemma perform_later: "perform e w = Some w' \<Longrightarrow> later w w'"
proof (cases e)
  case (Report d)
  have "later w (update_lint (IncrementErrorCount (d_category d)) w)"
    by (simp add: later_def update_lint_def IncrementErrorCount_def Let_def)
  moreover assume "perform e w = Some w'"
  ultimately show ?thesis using Report emit_later by (auto simp: perform_def intro: later_trans elim!: Error_cases)
qed (auto simp: perform_def later_def)

lemma perform_all_later: "perform_all es w = Some w' \<Longrightarrow> later w w'"
  by (erule perform_all_induct) (auto dest: perform_later intro: later_trans)

lemma perform_all_total: "filters_ok w \<Longrightarrow> \<exists>w'. perform_all es w = Some w' \<and> filters_ok w' \<and> later w w'"
  using perform_all_ok [of w es] perform_all_later by blast

lemma finish_file_returns:
  assumes "names_resolve cfg" "well_formed cl" "filters_ok w"
  shows "\<exists>w'. finish_file cfg read_header filename file_extension cl ls (st, w) = Some w' \<and> later w w'"
proof -
  obtain w1 where 1: "perform_all (map Report (CheckCompletedBlocks filename (blocks_open st))) w = Some w1" "filters_ok w1" "later w w1"
    using perform_all_total [OF assms(3)] by blast
  obtain ds where ds: "CheckForIncludeWhatYouUse cfg read_header filename cl (includes_seen st) = Some ds"
    using CheckForIncludeWhatYouUse_returns [OF assms(1,2)] by blast
  obtain w2 where 2: "perform_all (map Report ds) w1 = Some w2" "filters_ok w2" "later w1 w2" using perform_all_total [OF 1(2)] by blast
  obtain hs where hs: "CheckHeaderFileIncluded (paths cfg) (repository_option cfg) (header_order cfg) filename (includes_seen st) = Some hs"
    using CheckHeaderFileIncluded_returns [OF assms(1)] by blast
  obtain w3 where 3: "(if IsSourceExtension (extensions cfg) file_extension then perform_all (map Report hs) w2 else Some w2) = Some w3"
      "filters_ok w3" "later w2 w3" using perform_all_total [OF 2(2), of "map Report hs"] 2(2) by (cases "IsSourceExtension (extensions cfg) file_extension") auto
  obtain w4 where 4: "perform_all (map Report (CheckForBadCharacters filename (map (map of_char) ls))) w3 = Some w4"
      "filters_ok w4" "later w3 w4" using perform_all_total [OF 3(2)] by blast
  obtain w5 where 5: "perform_all (map Report (CheckForNewlineAtEOF filename ls)) w4 = Some w5" "later w4 w5"
    using perform_all_total [OF 4(2)] by blast
  have "later w w5" using 1(3) 2(3) 3(3) 4(3) 5(2) by (meson later_trans)
  with 1 ds 2 hs 3 4 5 show ?thesis by (auto simp: finish_file_def split: if_splits)
qed


lemma later_nolint [simp]: "later w (w\<lparr>nolint := n\<rparr>)" "later (w\<lparr>nolint := n\<rparr>) w' \<longleftrightarrow> later w w'"
  by (auto simp: later_def)

lemma process_file_head_later:
  assumes "process_file_head opts env root repository filename ext ls w = Some (cl, ls', w')"
  shows "later w w'"
proof -
  from assms obtain w1 ds w2 where
      1: "perform_all (map Report (CheckForCopyright filename (marked_lines ls))) (w\<lparr>nolint := ResetNolintSuppressions (nolint w)\<rparr>) = Some w1"
      and 2: "perform_all (map Report ds) (w1\<lparr>nolint := ProcessGlobalSuppresions (marked_lines ls) (nolint w1)\<rparr>) = Some w2"
      and 3: "w' = w2 \<or> (\<exists>es. perform_all es w2 = Some w')"
    by (auto simp: process_file_head_def Let_def case_prod_beta bind_eq_Some_conv split: if_splits)
  from perform_all_later [OF 1] perform_all_later [OF 2] have "later w w2" using later_trans by auto
  with 3 show ?thesis using perform_all_later later_trans by blast
qed

lemma ProcessFileData_result:
  assumes "filters_ok w" "0 \<le> verbose_level (lint w)" "names_resolve cfg" "\<And>cl. extra_sound extra cl"
    and head: "process_file_head (extensions cfg) (paths cfg) (root_option cfg) (repository_option cfg)
      filename file_extension ls w = Some (cl, ls', w1)"
  shows "if file_stuck filename cl 0 then ProcessFileData cfg read_header extra filename file_extension ls w = None
    else \<exists>w'. ProcessFileData cfg read_header extra filename file_extension ls w = Some w' \<and> later w w'"
proof -
  have "RepositoryName (paths cfg) (repository_option cfg) (guard_filename filename) \<noteq> None"
    using assms(3) by (simp add: names_resolve_def)
  from file_head_result [OF assms(1) this, of "extensions cfg" "root_option cfg" file_extension ls] head
  have cl: "well_formed cl" and w1: "filters_ok w1" by auto
  from process_file_head_later [OF head] assms(2) have later: "later w w1" "0 \<le> verbose_level (lint w1)" by (auto simp: later_def)
  have "if file_stuck filename cl 0 then lines_effects cfg (verbose_level (lint w1)) extra filename file_extension cl [0 ..< NumLines cl] check_state_init = None
    else file_checked filename cl (lines_effects cfg (verbose_level (lint w1)) extra filename file_extension cl [0 ..< NumLines cl] check_state_init)"
    by (rule lines_effects_result [OF cl assms(3) later(2) assms(4)], simp, rule state_ok_init) (simp add: check_state_init_def)
  then show ?thesis
  proof (cases "file_stuck filename cl 0")
    case False
    with \<open>if _ then _ else _\<close> obtain es st where es: "lines_effects cfg (verbose_level (lint w1)) extra filename file_extension cl
        [0 ..< NumLines cl] check_state_init = Some (es, st)" by (auto simp: file_checked_def)
    obtain w2 where w2: "perform_all es w1 = Some w2" "filters_ok w2" "later w1 w2" using perform_all_total [OF w1] by blast
    obtain w' where "finish_file cfg read_header filename file_extension cl ls' (st, w2) = Some w'" "later w2 w'"
      using finish_file_returns [OF assms(3) cl w2(2)] by blast
    with False head es w2 later(1) show ?thesis
      by (simp add: ProcessFileData_def process_lines_refines del: upt_conv_Cons) (meson later_trans)
  qed (simp add: ProcessFileData_def process_lines_refines head)
qed


text \<open>However the checks of a file end, they leave the filters and the settings of the handler alone.\<close>

lemma finish_file_later: "finish_file cfg read_header filename ext cl ls (st, w) = Some w' \<Longrightarrow> later w w'"
  by (auto simp: finish_file_def bind_eq_Some_conv split: if_splits dest!: perform_all_later intro: later_trans) (meson later_trans)+

lemma ProcessFileData_later:
  assumes "ProcessFileData cfg read_header extra filename ext ls w = Some w'"
  shows "later w w'"
proof -
  from assms obtain cl ls' w1 st w2 where 1: "process_file_head (extensions cfg) (paths cfg) (root_option cfg)
        (repository_option cfg) filename ext ls w = Some (cl, ls', w1)"
      and 2: "process_lines cfg extra filename ext cl [0 ..< NumLines cl] (check_state_init, w1) = Some (st, w2)"
      and 3: "finish_file cfg read_header filename ext cl ls' (st, w2) = Some w'"
    by (auto simp: ProcessFileData_def bind_eq_Some_conv)
  from 2 obtain es where "perform_all es w1 = Some w2" by (auto simp: process_lines_refines bind_eq_Some_conv)
  then have "later w1 w2" by (rule perform_all_later)
  with process_file_head_later [OF 1] finish_file_later [OF 3] show ?thesis by (meson later_trans)
qed

end
