(* ===== verification/ConfigFiles.thy ===== *)
theory ConfigFiles
  imports ProcessData
begin

text \<open>
  Configuration files and the checks of one file (\<open>cpplint.py\<close>, \<open>ProcessConfigOverrides\<close> and
  \<open>ProcessFile\<close>). The surroundings are a record of functions: the file system, the patterns that a
  user writes in a configuration file, and the order in which Python iterates over a set.
\<close>

section \<open>The surroundings and the state of a run\<close>

text \<open>
  \<open>text_lines\<close> and \<open>header_lines\<close> are the lines of a file with their ends, \<open>None\<close> is an IOError;
  \<open>whole_text\<close> is the decoded text. \<open>standard_input\<close> is what the stream reader around \<open>sys.stdin\<close>
  gives: the decoded text, or \<open>None\<close> when it raises. It raises under Python 3, where \<open>sys.stdin\<close> is a
  text stream and the reader adds what it reads to bytes, a TypeError. \<open>pattern_matches p s\<close> is \<open>re.compile(p).match(s)\<close>, \<open>None\<close> for a
  pattern that does not compile. \<open>walk\<close> is \<open>os.walk\<close> without the lists of directories.
\<close>

record surroundings =
  is_file :: "string \<Rightarrow> bool"
  is_dir :: "string \<Rightarrow> bool"
  text_lines :: "string \<Rightarrow> string list option"
  header_lines :: "string \<Rightarrow> string list option"
  whole_text :: "string \<Rightarrow> string option"
  standard_input :: "string option"
  pattern_matches :: "string \<Rightarrow> string \<Rightarrow> bool option"
  set_order :: "string set \<Rightarrow> string list"
  walk :: "string \<Rightarrow> (string \<times> string list) list"
  glob :: "string \<Rightarrow> string list"
  tostring :: "xml \<Rightarrow> string"

text \<open>The module variables: the settings, the files to exclude, and the state of the handler.\<close>

record session =
  settings :: config
  excludes :: "string set"
  handler_state :: world

definition update_world :: "(world \<Rightarrow> world) \<Rightarrow> session \<Rightarrow> session" where
  "update_world f s = s\<lparr>handler_state := f (handler_state s)\<rparr>"

text \<open>
  How a run can stop: an exception that nobody catches (a ValueError, a malformed pattern, an
  exception of a check, or one of reading the standard input), or one of the calls of \<open>sys.exit\<close>.
\<close>

datatype stop = Raises py_error | PatternError | CheckError | InputError | Usage "string option" | Version | Categories

definition set_extensions :: "surroundings \<Rightarrow> (extension_options \<Rightarrow> extension_options) \<Rightarrow> session \<Rightarrow> session" where
  "set_extensions sys f s =
     (let e = f (extensions (settings s)) in
      s\<lparr>settings := (settings s)\<lparr>extensions := e, header_order := set_order sys (GetHeaderExtensions e),
        source_order := set_order sys (GetNonHeaderExtensions e)\<rparr>\<rparr>)"

section \<open>Numbers\<close>

text \<open>\<open>int(s)\<close>: white space around, a sign, and digits that single underscores may separate.\<close>

fun digits_value :: "nat \<Rightarrow> string \<Rightarrow> nat option" where
  "digits_value n [] = Some n"
| "digits_value n (c # s) =
     (if py_digit c then digits_value (10 * n + (of_char c - 48)) s
      else if c = CHR ''_'' \<and> s \<noteq> [] \<and> py_digit (hd s) then digits_value n s
      else None)"

definition py_nat :: "string \<Rightarrow> nat option" where
  "py_nat s = (if s \<noteq> [] \<and> py_digit (hd s) then digits_value 0 s else None)"

definition py_int :: "string \<Rightarrow> int option" where
  "py_int s =
     (let s = strip s in
      if starts_with s ''-'' then map_option (\<lambda>n. - int n) (py_nat (tl s))
      else map_option int (py_nat (if starts_with s ''+'' then tl s else s)))"

section \<open>One line of a configuration file\<close>

text \<open>\<open>s.partition(c)\<close>, without the separator.\<close>

definition partition_char :: "char \<Rightarrow> string \<Rightarrow> string \<times> string" where
  "partition_char c s = (takeWhile (\<lambda>x. x \<noteq> c) s, tl (dropWhile (\<lambda>x. x \<noteq> c) s))"

text \<open>The variables of the loop: \<open>keep_looking\<close>, \<open>cfg_filters\<close>, and the module variables.\<close>

record looking =
  keep_looking :: bool
  cfg_filters :: "string list"
  run :: session

definition update_run :: "(session \<Rightarrow> session) \<Rightarrow> looking \<Rightarrow> looking" where
  "update_run f st = st\<lparr>run := f (run st)\<rparr>"

definition update_settings :: "(config \<Rightarrow> config) \<Rightarrow> looking \<Rightarrow> looking" where
  "update_settings f = update_run (\<lambda>s. s\<lparr>settings := f (settings s)\<rparr>)"

definition excluded_message :: "string \<Rightarrow> string \<Rightarrow> string \<Rightarrow> string \<Rightarrow> string" where
  "excluded_message filename cfg_file base_name val =
     ''Ignoring '' @ [DQ] @ filename @ [DQ] @ '': file excluded by '' @ [DQ] @ cfg_file @ [DQ] @ ''. '' @
     ''File path component '' @ [DQ] @ base_name @ [DQ] @ '' matches pattern '' @ [DQ] @ val @ [DQ] @ [LF]"

text \<open>\<open>Inl\<close> is the early return of \<open>False\<close>.\<close>

definition exclude_files :: "surroundings \<Rightarrow> string \<Rightarrow> string \<Rightarrow> string \<Rightarrow> string \<Rightarrow> looking \<Rightarrow>
    (session + looking) option" where
  "exclude_files sys filename cfg_file base_name val st =
     (if base_name = [] then Some (Inr st)
      else do {
        m \<leftarrow> pattern_matches sys val base_name;
        Some (if \<not> m then Inr st
          else if quiet (lint (handler_state (run st))) then Inl (run st)
          else Inl (update_world (PrintInfo (excluded_message filename cfg_file base_name val)) (run st)))
      })"

definition set_line_length :: "string \<Rightarrow> looking \<Rightarrow> looking" where
  "set_line_length val st = (case py_int val of
       Some n \<Rightarrow> update_settings (\<lambda>c. c\<lparr>line_length := n\<rparr>) st
     | None \<Rightarrow> update_run (update_world (PrintError ''Line length must be numeric.'')) st)"

definition config_line :: "surroundings \<Rightarrow> string \<Rightarrow> string \<Rightarrow> string \<Rightarrow> string \<Rightarrow> looking \<Rightarrow> (session + looking) option" where
  "config_line sys filename cfg_file base_name line st =
     (let line = fst (partition_char (CHR ''#'') line) in
      if strip line = [] then Some (Inr st)
      else
        let (name, val) = partition_char (CHR ''='') line; name = strip name; val = strip val in
        if name = ''exclude_files'' then exclude_files sys filename cfg_file base_name val st
        else Some (Inr (
          if name = ''set noparent'' then st\<lparr>keep_looking := False\<rparr>
          else if name = ''filter'' then st\<lparr>cfg_filters := cfg_filters st @ [val]\<rparr>
          else if name = ''linelength'' then set_line_length val st
          else if name = ''extensions'' then update_run (set_extensions sys (ProcessExtensionsOption val)) st
          else if name = ''root'' then update_settings (\<lambda>c. c\<lparr>root_option := Some (path_join (dirname cfg_file) val)\<rparr>) st
          else if name = ''headers'' then update_run (set_extensions sys (ProcessHppHeadersOption val)) st
          else update_run (update_world (PrintError (''Invalid configuration option ('' @ name @ '') in file '' @
            cfg_file @ [LF]))) st)))"

fun config_lines :: "surroundings \<Rightarrow> string \<Rightarrow> string \<Rightarrow> string \<Rightarrow> string list \<Rightarrow> looking \<Rightarrow> (session + looking) option" where
  "config_lines sys filename cfg_file base_name [] st = Some (Inr st)"
| "config_lines sys filename cfg_file base_name (line # ls) st =
     (case config_line sys filename cfg_file base_name line st of
        Some (Inr st') \<Rightarrow> config_lines sys filename cfg_file base_name ls st'
      | r \<Rightarrow> r)"

section \<open>The directories above a file\<close>

definition config_file :: "surroundings \<Rightarrow> string \<Rightarrow> string \<Rightarrow> string \<Rightarrow> looking \<Rightarrow> (session + looking) option" where
  "config_file sys filename cfg_file base_name st =
     (if \<not> is_file sys cfg_file then Some (Inr st)
      else case text_lines sys cfg_file of
        Some ls \<Rightarrow> config_lines sys filename cfg_file base_name ls st
      | None \<Rightarrow> Some (Inr (update_run (update_world (PrintError (''Skipping config file '' @ [SQ] @ cfg_file @ [SQ] @
          '': Can'' @ [SQ] @ ''t open for reading'' @ [LF]))) (st\<lparr>keep_looking := False\<rparr>))))"

lemma path_split_shorter: "path_split p = (h, t) \<Longrightarrow> t \<noteq> [] \<Longrightarrow> length h < length p"
  using length_strip_slashes [of "take (rfind1 SL p) p"] by (auto simp: path_split_def Let_def)

function config_walk :: "surroundings \<Rightarrow> string \<Rightarrow> string \<Rightarrow> looking \<Rightarrow> (session + looking) option" where
  "config_walk sys filename abs_filename st =
     (if \<not> keep_looking st then Some (Inr st)
      else case path_split abs_filename of (abs_path, base_name) \<Rightarrow>
        if base_name = [] then Some (Inr st)
        else case config_file sys filename (path_join abs_path ''CPPLINT.cfg'') base_name st of
          Some (Inr st') \<Rightarrow> config_walk sys filename abs_path st'
        | r \<Rightarrow> r)"
  by pat_completeness auto
termination
  by (relation "measure (\<lambda>(sys, filename, abs_filename, st). length abs_filename)") (auto dest: path_split_shorter [OF sym])

declare config_walk.simps [simp del]

text \<open>\<open>_AddFilters\<close> for every filter, that of the file read last first.\<close>

fun add_all_filters :: "string list \<Rightarrow> cpplint_state \<Rightarrow> py_error + cpplint_state" where
  "add_all_filters [] s = Inr s"
| "add_all_filters (f # fs) s = (case AddFilters f s of Inl e \<Rightarrow> Inl e | Inr s' \<Rightarrow> add_all_filters fs s')"

definition ProcessConfigOverrides :: "surroundings \<Rightarrow> string \<Rightarrow> session \<Rightarrow> stop + bool \<times> session" where
  "ProcessConfigOverrides sys filename s =
     (case config_walk sys filename (abspath (paths (settings s)) filename)
          \<lparr>keep_looking = True, cfg_filters = [], run = s\<rparr> of
        None \<Rightarrow> Inl PatternError
      | Some (Inl s') \<Rightarrow> Inr (False, s')
      | Some (Inr st) \<Rightarrow>
          (case add_all_filters (rev (cfg_filters st)) (lint (handler_state (run st))) of
             Inl e \<Rightarrow> Inl (Raises e)
           | Inr l \<Rightarrow> Inr (True, update_world (update_lint (\<lambda>_. l)) (run st))))"

section \<open>One file\<close>

text \<open>The lines without the carriage returns at their ends, and the numbers of the lines of both kinds.\<close>

definition text_line :: "string \<Rightarrow> string" where
  "text_line l = (if ends_with l [CR] then rstrip_char CR l else l)"

definition unix_lines :: "string list \<Rightarrow> string list" where
  "unix_lines ls = map text_line (butlast ls) @ [last ls]"

definition ended_lines :: "bool \<Rightarrow> string list \<Rightarrow> nat list" where
  "ended_lines crlf ls = map fst (filter (\<lambda>(n, l). ends_with l [CR] = crlf) (enumerate 1 (butlast ls)))"

definition newline_errors :: "string \<Rightarrow> string list \<Rightarrow> diag list" where
  "newline_errors filename ls =
     (if ended_lines False ls \<noteq> [] \<and> ended_lines True ls \<noteq> [] then
        map (\<lambda>linenum. mk_error filename (int linenum) ''whitespace/newline'' 1
          (''Unexpected '' @ [BSL] @ ''r (^M) found; better to use only '' @ [BSL] @ ''n'')) (ended_lines True ls)
      else [])"

definition check_text :: "surroundings \<Rightarrow> line_checker list \<Rightarrow> string \<Rightarrow> string \<Rightarrow> string list \<Rightarrow> session \<Rightarrow> world option" where
  "check_text sys extra filename file_extension ls s = do {
     w \<leftarrow> ProcessFileData (settings s) (header_lines sys) extra filename file_extension (unix_lines ls) (handler_state s);
     perform_all (map Report (newline_errors filename ls)) w
   }"

definition file_ext :: "string \<Rightarrow> string" where
  "file_ext filename = drop (rfind1 (CHR ''.'') filename) filename"

text \<open>\<open>Inl\<close> is an exception that is not an IOError, \<open>Inr None\<close> is an IOError.\<close>

definition read_text :: "surroundings \<Rightarrow> string \<Rightarrow> stop + string option" where
  "read_text sys filename =
     (if filename = ''-'' then (case standard_input sys of None \<Rightarrow> Inl InputError | Some text \<Rightarrow> Inr (Some text))
      else Inr (whole_text sys filename))"

text \<open>The message at the end, and the filters as they were.\<close>

definition file_done :: "string \<Rightarrow> nat \<Rightarrow> world \<Rightarrow> world" where
  "file_done filename old_errors w =
     (if \<not> quiet (lint w) \<or> old_errors \<noteq> error_count (lint w) then PrintInfo (''Done processing '' @ filename @ [LF]) w else w)"

definition begin_file :: "int \<Rightarrow> session \<Rightarrow> session" where
  "begin_file vlevel = update_world (update_lint (\<lambda>l. BackupFilters (snd (SetVerboseLevel vlevel l))))"

definition restore_filters :: "session \<Rightarrow> session" where
  "restore_filters = update_world (update_lint RestoreFilters)"

definition process_text :: "surroundings \<Rightarrow> line_checker list \<Rightarrow> string \<Rightarrow> string \<Rightarrow> session \<Rightarrow> world option" where
  "process_text sys extra filename text s =
     (let file_extension = file_ext filename; all = GetAllExtensions (extensions (settings s)) in
      if filename \<noteq> ''-'' \<and> file_extension \<notin> all
      then Some (PrintError (''Ignoring '' @ filename @ ''; not a valid file name ('' @ join '', '' (set_order sys all) @
        '')'' @ [LF]) (handler_state s))
      else check_text sys extra filename file_extension (split_sub [LF] text) s)"

definition ProcessFile :: "surroundings \<Rightarrow> string \<Rightarrow> int \<Rightarrow> line_checker list \<Rightarrow> session \<Rightarrow> stop + session" where
  "ProcessFile sys filename vlevel extra s =
     (let s = begin_file vlevel s; old_errors = error_count (lint (handler_state s)) in
      case ProcessConfigOverrides sys filename s of
        Inl e \<Rightarrow> Inl e
      | Inr (go, s) \<Rightarrow>
          if \<not> go then Inr (restore_filters s)
          else case read_text sys filename of
            Inl e \<Rightarrow> Inl e
          | Inr None \<Rightarrow> Inr (restore_filters (update_world (PrintError (''Skipping input '' @ [SQ] @ filename @ [SQ] @
              '': Can'' @ [SQ] @ ''t open for reading'' @ [LF])) s))
          | Inr (Some text) \<Rightarrow>
              (case process_text sys extra filename text s of
                 None \<Rightarrow> Inl CheckError
               | Some w \<Rightarrow> Inr (restore_filters (s\<lparr>handler_state := file_done filename old_errors w\<rparr>))))"

section \<open>Numbers that are printed are read back\<close>

lemma digits_value_append:
  "list_all py_digit u \<Longrightarrow> digits_value n (u @ v) = digits_value (foldl (\<lambda>n c. 10 * n + (of_char c - 48)) n u) v"
  by (induction u arbitrary: n) auto

lemma digit_char: "k < 10 \<Longrightarrow> py_digit (char_of (48 + k)) \<and> of_char (char_of (48 + k) :: char) = 48 + k" for k :: nat
  by (simp add: py_digit_def code_point_def Let_def)

lemma show_nat_digits:
  "list_all py_digit (show_nat n) \<and> show_nat n \<noteq> [] \<and> foldl (\<lambda>n c. 10 * n + (of_char c - 48)) 0 (show_nat n) = n"
proof (induction n rule: show_nat.induct)
  case (1 n)
  show ?case
  proof (cases "n < 10")
    case True
    with digit_char [OF True] show ?thesis by (subst (1 2 3) show_nat.simps) simp
  next
    case False
    with 1 digit_char [of "n mod 10"] show ?thesis by (subst (1 2 3) show_nat.simps) simp
  qed
qed

lemma digit_no_space: "py_digit c \<Longrightarrow> \<not> py_space c \<and> c \<noteq> CHR ''-'' \<and> c \<noteq> CHR ''+''"
  by (auto simp: py_digit_def py_space_def code_point_def Let_def)

lemma strip_ends: "s \<noteq> [] \<Longrightarrow> \<not> py_space (hd s) \<Longrightarrow> \<not> py_space (last s) \<Longrightarrow> strip s = s"
proof -
  assume s: "s \<noteq> []" "\<not> py_space (hd s)" "\<not> py_space (last s)"
  then have "lstrip s = s" "rstrip s = s"
    by (cases s; simp add: lstrip_def) (cases s rule: rev_cases; use s in \<open>simp add: rstrip_def\<close>)
  then show ?thesis by (simp add: strip_def)
qed

lemma py_nat_show: "py_nat (show_nat n) = Some n"
  using show_nat_digits [of n] digits_value_append [of "show_nat n" 0 "[]"]
  by (cases "show_nat n") (auto simp: py_nat_def)

lemma show_nat_ends: "\<not> py_space (hd (show_nat n)) \<and> \<not> py_space (last (show_nat n)) \<and> hd (show_nat n) \<notin> {CHR ''-'', CHR ''+''}"
  using show_nat_digits [of n] digit_no_space by (auto simp: list_all_iff dest!: bspec [OF _ hd_in_set] bspec [OF _ last_in_set])

lemma py_int_show: "py_int (show_int n) = Some n"
proof -
  have "py_nat (show_nat k) = Some k" "strip (show_nat k) = show_nat k" "\<not> starts_with (show_nat k) ''-''" "\<not> starts_with (show_nat k) ''+''" for k
    using py_nat_show show_nat_digits [of k] show_nat_ends [of k] by (auto simp: strip_ends) (cases "show_nat k"; simp)+
  moreover have "strip (''-'' @ show_nat k) = ''-'' @ show_nat k" for k
    using show_nat_digits [of k] show_nat_ends [of k] by (intro strip_ends) (simp_all add: py_space_def code_point_def Let_def)
  ultimately show ?thesis by (simp add: py_int_def show_int_def Let_def)
qed

text \<open>A line length that is printed in decimal is read back: the configuration line \<open>linelength=\<close> with
  the number sets the line length to it.\<close>

lemma linelength_roundtrip:
  "set_line_length (show_int n) st = update_settings (\<lambda>c. c\<lparr>line_length := n\<rparr>) st"
  by (simp add: set_line_length_def py_int_show)

section \<open>What configuration files can change\<close>

text \<open>
  The settings of the handler, its filters and its counts, and the paths stay as they are; in a quiet
  run standard output does, too.
\<close>

definition configured :: "session \<Rightarrow> session \<Rightarrow> bool" where
  "configured s s' \<longleftrightarrow> paths (settings s') = paths (settings s) \<and>
     repository_option (settings s') = repository_option (settings s) \<and> excludes s' = excludes s \<and>
     filters (lint (handler_state s')) = filters (lint (handler_state s)) \<and>
     filters_backup (lint (handler_state s')) = filters_backup (lint (handler_state s)) \<and>
     verbose_level (lint (handler_state s')) = verbose_level (lint (handler_state s)) \<and>
     quiet (lint (handler_state s')) = quiet (lint (handler_state s)) \<and>
     error_count (lint (handler_state s')) = error_count (lint (handler_state s)) \<and>
     (quiet (lint (handler_state s)) \<longrightarrow> stdout (handler_state s') = stdout (handler_state s))"

lemma configured_refl [simp]: "configured s s" and configured_trans: "configured s t \<Longrightarrow> configured t u \<Longrightarrow> configured s u"
  by (auto simp: configured_def)

lemma print_configured [simp]:
  "configured s (update_world (PrintError m) s)"
  "\<not> quiet (lint (handler_state s)) \<Longrightarrow> configured s (update_world (PrintInfo m) s)"
  by (simp_all add: configured_def update_world_def PrintError_def PrintInfo_def write_err_def update_lint_def)

lemma settings_configured [simp]:
  "configured s (set_extensions sys f s)"
  "(\<And>c. paths (f' c) = paths c \<and> repository_option (f' c) = repository_option c) \<Longrightarrow> configured s (s\<lparr>settings := f' (settings s)\<rparr>)"
  by (simp_all add: configured_def set_extensions_def Let_def)

text \<open>The session in the result of a step of the loop, whether it goes on or returns.\<close>

definition result_session :: "session + looking \<Rightarrow> session" where
  "result_session r = (case r of Inl s \<Rightarrow> s | Inr st \<Rightarrow> run st)"

lemma result_session_simps [simp]: "result_session (Inl s) = s" "result_session (Inr st) = run st"
  by (simp_all add: result_session_def)

lemma set_line_length_configured: "configured (run st) (run (set_line_length val st))"
  by (simp add: set_line_length_def update_settings_def update_run_def split: option.split)

lemma config_line_configured:
  "config_line sys filename cfg_file base_name line st = Some r \<Longrightarrow> configured (run st) (result_session r)"
  by (auto simp: config_line_def exclude_files_def Let_def case_prod_beta update_settings_def update_run_def
    set_line_length_configured bind_eq_Some_conv split: if_splits)

lemma config_lines_configured:
  "config_lines sys filename cfg_file base_name ls st = Some r \<Longrightarrow> configured (run st) (result_session r)"
proof (induction ls arbitrary: st)
  case (Cons line ls)
  then show ?case
    by (auto split: option.splits sum.splits dest!: config_line_configured intro: configured_trans)
qed auto

lemma config_file_configured:
  "config_file sys filename cfg_file base_name st = Some r \<Longrightarrow> configured (run st) (result_session r)"
  by (auto simp: config_file_def update_run_def dest: config_lines_configured split: if_splits option.splits)

lemma config_walk_configured:
  "config_walk sys filename abs_filename st = Some r \<Longrightarrow> configured (run st) (result_session r)"
proof (induction sys filename abs_filename st arbitrary: r rule: config_walk.induct)
  case (1 sys filename abs_filename st)
  obtain abs_path base_name where split: "path_split abs_filename = (abs_path, base_name)" by fastforce
  show ?case
  proof (cases "keep_looking st \<and> base_name \<noteq> []")
    case False
    with "1.prems" split show ?thesis by (subst (asm) config_walk.simps) (auto split: if_splits)
  next
    case True
    with "1.prems" split have step: "(case config_file sys filename (path_join abs_path ''CPPLINT.cfg'') base_name st of
          Some (Inr st') \<Rightarrow> config_walk sys filename abs_path st' | r \<Rightarrow> r) = Some r"
      by (subst (asm) config_walk.simps) simp
    then obtain r1 where r1: "config_file sys filename (path_join abs_path ''CPPLINT.cfg'') base_name st = Some r1"
      by (auto split: option.splits)
    show ?thesis
    proof (cases r1)
      case (Inl s')
      with step r1 show ?thesis using config_file_configured [OF r1] by simp
    next
      case (Inr st')
      with step r1 have "config_walk sys filename abs_path st' = Some r" by simp
      from "1.IH" [OF _ split [symmetric] _ r1 Inr this] True
      have "configured (run st') (result_session r)" by simp
      with config_file_configured [OF r1] Inr show ?thesis using configured_trans by fastforce
    qed
  qed
qed


section \<open>The filters of a file\<close>

lemma add_all_filters_Inr:
  "add_all_filters fs s = Inr s' \<Longrightarrow> \<exists>gs. s' = s\<lparr>filters := filters s @ gs\<rparr> \<and>
     (list_all signed_filter (filters s) \<longrightarrow> list_all signed_filter (filters s'))"
proof (induction fs arbitrary: s)
  case Nil
  then show ?case by (auto intro!: exI [of _ "[]"])
next
  case (Cons f fs)
  then obtain s1 where 1: "AddFilters f s = Inr s1" "add_all_filters fs s1 = Inr s'" by (auto split: sum.splits)
  from 1(1) obtain g where g: "s1 = s\<lparr>filters := filters s @ g\<rparr>" "list_all signed_filter (filters s1)"
    unfolding AddFilters_Inr by blast
  from Cons.IH [OF 1(2)] obtain gs where "s' = s1\<lparr>filters := filters s1 @ gs\<rparr>" "list_all signed_filter (filters s')"
    using g(2) by blast
  with g(1) show ?case by (auto intro!: exI [of _ "g @ gs"])
qed

lemma ProcessConfigOverrides_result:
  assumes "ProcessConfigOverrides sys filename s = Inr (go, s')"
  obtains t fs where "configured s t" "s' = update_world (update_lint (\<lambda>l. l\<lparr>filters := filters l @ fs\<rparr>)) t"
    "\<not> go \<longrightarrow> fs = []" "list_all signed_filter (filters (lint (handler_state s))) \<longrightarrow> list_all signed_filter (filters (lint (handler_state s')))"
proof -
  let ?st = "\<lparr>keep_looking = True, cfg_filters = [], run = s\<rparr>"
  from assms obtain r where r: "config_walk sys filename (abspath (paths (settings s)) filename) ?st = Some r"
    by (auto simp: ProcessConfigOverrides_def split: option.splits)
  from config_walk_configured [OF this] have c: "configured s (result_session r)" by simp
  show ?thesis
  proof (cases r)
    case (Inl t)
    with r assms have "\<not> go" "s' = t" by (auto simp: ProcessConfigOverrides_def)
    with c Inl show ?thesis by (intro that [of t "[]"]) (auto simp: update_world_def update_lint_def configured_def)
  next
    case (Inr st)
    with r assms obtain l where l: "add_all_filters (rev (cfg_filters st)) (lint (handler_state (run st))) = Inr l"
        "s' = update_world (update_lint (\<lambda>_. l)) (run st)" "go"
      by (auto simp: ProcessConfigOverrides_def split: sum.splits)
    from add_all_filters_Inr [OF l(1)] obtain fs where "l = lint (handler_state (run st))\<lparr>filters := filters (lint (handler_state (run st))) @ fs\<rparr>"
        "list_all signed_filter (filters (lint (handler_state (run st)))) \<longrightarrow> list_all signed_filter (filters l)" by blast
    with c Inr l(2,3) show ?thesis
      by (intro that [of "run st" fs]) (auto simp: update_world_def update_lint_def configured_def)
  qed
qed

lemma begin_file_simps [simp]:
  "settings (begin_file vlevel s) = settings s" "excludes (begin_file vlevel s) = excludes s"
  "filters (lint (handler_state (begin_file vlevel s))) = filters (lint (handler_state s))"
  "filters_backup (lint (handler_state (begin_file vlevel s))) = filters (lint (handler_state s))"
  "verbose_level (lint (handler_state (begin_file vlevel s))) = vlevel"
  "error_count (lint (handler_state (begin_file vlevel s))) = error_count (lint (handler_state s))"
  "quiet (lint (handler_state (begin_file vlevel s))) = quiet (lint (handler_state s))"
  "stdout (handler_state (begin_file vlevel s)) = stdout (handler_state s)"
  by (simp_all add: begin_file_def update_world_def update_lint_def BackupFilters_def SetVerboseLevel_def)

lemma restore_filters_simps [simp]:
  "settings (restore_filters s) = settings s" "excludes (restore_filters s) = excludes s"
  "filters (lint (handler_state (restore_filters s))) = filters_backup (lint (handler_state s))"
  "filters_backup (lint (handler_state (restore_filters s))) = filters_backup (lint (handler_state s))"
  "verbose_level (lint (handler_state (restore_filters s))) = verbose_level (lint (handler_state s))"
  "error_count (lint (handler_state (restore_filters s))) = error_count (lint (handler_state s))"
  "quiet (lint (handler_state (restore_filters s))) = quiet (lint (handler_state s))"
  "stdout (handler_state (restore_filters s)) = stdout (handler_state s)"
  by (simp_all add: restore_filters_def update_world_def update_lint_def RestoreFilters_def)

lemma PrintError_later: "later w (PrintError m w)"
  by (simp add: later_def PrintError_def write_err_def update_lint_def)

lemma check_text_later: "check_text sys extra filename ext ls s = Some w \<Longrightarrow> later (handler_state s) w"
  by (auto simp: check_text_def bind_eq_Some_conv dest!: ProcessFileData_later perform_all_later intro: later_trans)

lemma process_text_later: "process_text sys extra filename text s = Some w \<Longrightarrow> later (handler_state s) w"
  by (auto simp: process_text_def Let_def intro: PrintError_later dest: check_text_later split: if_splits)

text \<open>What the checks of a file leave of the session that its configuration makes.\<close>

definition file_after :: "nat \<Rightarrow> world \<Rightarrow> world \<Rightarrow> bool" where
  "file_after old_errors w w' \<longleftrightarrow> filters_backup (lint w') = filters_backup (lint w) \<and>
     verbose_level (lint w') = verbose_level (lint w) \<and> quiet (lint w') = quiet (lint w) \<and>
     error_count (lint w) \<le> error_count (lint w') \<and>
     (quiet (lint w) \<and> error_count (lint w') = old_errors \<longrightarrow> stdout w' = stdout w)"

lemma later_after: "later w w' \<Longrightarrow> file_after n w w'" and done_after: "later w w' \<Longrightarrow> file_after n w (file_done filename n w')"
  by (auto simp: file_after_def later_def file_done_def PrintInfo_def)

lemma ProcessFile_result:
  assumes "ProcessFile sys filename vlevel extra s = Inr s'"
  obtains go s1 w where "ProcessConfigOverrides sys filename (begin_file vlevel s) = Inr (go, s1)"
    "s' = restore_filters (s1\<lparr>handler_state := w\<rparr>)"
    "file_after (error_count (lint (handler_state (begin_file vlevel s)))) (handler_state s1) w"
proof -
  from assms obtain go s1 where c: "ProcessConfigOverrides sys filename (begin_file vlevel s) = Inr (go, s1)"
    by (auto simp: ProcessFile_def Let_def split: sum.splits)
  let ?n = "error_count (lint (handler_state (begin_file vlevel s)))"
  consider "\<not> go" "s' = restore_filters s1"
    | m where "s' = restore_filters (update_world (PrintError m) s1)"
    | w where "s' = restore_filters (s1\<lparr>handler_state := file_done filename ?n w\<rparr>)" "later (handler_state s1) w"
    using assms c
    by (auto simp: ProcessFile_def Let_def split: if_splits option.splits sum.splits dest!: process_text_later)
  then show ?thesis
  proof cases
    case 1
    with that [OF c, of "handler_state s1"] later_after [OF later_refl] show ?thesis by simp
  next
    case 2
    with that [OF c, of "PrintError m (handler_state s1)"] later_after [OF PrintError_later] show ?thesis by (simp add: update_world_def)
  next
    case 3
    with that [OF c, of "file_done filename ?n w"] done_after show ?thesis by blast
  qed
qed

section \<open>How the checks of a file can stop\<close>

text \<open>The lines of a text are stuck in a session: the checks of one of them raise.\<close>

definition text_stuck :: "string \<Rightarrow> string \<Rightarrow> session \<Rightarrow> bool" where
  "text_stuck filename text s =
     (case process_file_head (extensions (settings s)) (paths (settings s)) (root_option (settings s))
         (repository_option (settings s)) filename (file_ext filename) (unix_lines (split_sub [LF] text)) (handler_state s) of
        None \<Rightarrow> False
      | Some (cl, ls, w) \<Rightarrow> file_stuck filename cl 0)"

lemma process_text_result:
  assumes "filters_ok (handler_state s)" "0 \<le> verbose_level (lint (handler_state s))" "names_resolve (settings s)"
    "\<And>cl. extra_sound extra cl"
  shows "process_text sys extra filename text s = None \<longleftrightarrow>
    (filename = ''-'' \<or> file_ext filename \<in> GetAllExtensions (extensions (settings s))) \<and> text_stuck filename text s"
proof -
  let ?ls = "unix_lines (split_sub [LF] text)"
  have "RepositoryName (paths (settings s)) (repository_option (settings s)) (guard_filename filename) \<noteq> None"
    using assms(3) by (simp add: names_resolve_def)
  from file_head_result [OF assms(1) this, of "extensions (settings s)" "root_option (settings s)" "file_ext filename" ?ls]
  obtain cl ls' w1 where head: "process_file_head (extensions (settings s)) (paths (settings s)) (root_option (settings s))
      (repository_option (settings s)) filename (file_ext filename) ?ls (handler_state s) = Some (cl, ls', w1)" by blast
  note result = ProcessFileData_result [OF assms head, of "header_lines sys"]
  have "check_text sys extra filename (file_ext filename) (split_sub [LF] text) s = None \<longleftrightarrow> file_stuck filename cl 0"
  proof (cases "file_stuck filename cl 0")
    case False
    with result obtain w where w: "ProcessFileData (settings s) (header_lines sys) extra filename (file_ext filename) ?ls (handler_state s) = Some w"
        "later (handler_state s) w" by auto
    with assms(1) have "filters_ok w" by (simp add: later_ok)
    with w(1) False show ?thesis using perform_all_total [of w] by (auto simp: check_text_def)
  qed (use result in \<open>simp add: check_text_def\<close>)
  then show ?thesis by (auto simp: process_text_def text_stuck_def head Let_def)
qed

lemma ProcessConfigOverrides_stops: "ProcessConfigOverrides sys filename s = Inl e \<Longrightarrow> e = PatternError \<or> (\<exists>x. e = Raises x)"
  by (auto simp: ProcessConfigOverrides_def split: option.splits sum.splits)

lemma ProcessFile_stuck:
  assumes "filters_ok (handler_state s)" "0 \<le> vlevel" "names_resolve (settings s)" "\<And>cl. extra_sound extra cl"
  shows "ProcessFile sys filename vlevel extra s = Inl CheckError \<longleftrightarrow>
    (\<exists>s1 text. ProcessConfigOverrides sys filename (begin_file vlevel s) = Inr (True, s1) \<and> read_text sys filename = Inr (Some text) \<and>
       (filename = ''-'' \<or> file_ext filename \<in> GetAllExtensions (extensions (settings s1))) \<and> text_stuck filename text s1)"
proof (cases "ProcessConfigOverrides sys filename (begin_file vlevel s)")
  case (Inl e)
  with ProcessConfigOverrides_stops [OF Inl] show ?thesis by (auto simp: ProcessFile_def)
next
  case (Inr r)
  obtain go s1 where r: "r = (go, s1)" by fastforce
  from Inr r have "ProcessConfigOverrides sys filename (begin_file vlevel s) = Inr (go, s1)" by simp
  then obtain t fs where t: "configured (begin_file vlevel s) t" "s1 = update_world (update_lint (\<lambda>l. l\<lparr>filters := filters l @ fs\<rparr>)) t"
      "list_all signed_filter (filters (lint (handler_state (begin_file vlevel s)))) \<longrightarrow> list_all signed_filter (filters (lint (handler_state s1)))"
    by (rule ProcessConfigOverrides_result)
  with assms(1-3) have "filters_ok (handler_state s1)" "0 \<le> verbose_level (lint (handler_state s1))" "names_resolve (settings s1)"
    by (auto simp: filters_ok_def configured_def update_world_def update_lint_def names_resolve_def)
  note checks = process_text_result [OF this assms(4), of sys filename]
  show ?thesis
  proof (cases "read_text sys filename")
    case (Inl e)
    then have "e = InputError" by (auto simp: read_text_def split: if_splits option.splits)
    with Inl \<open>ProcessConfigOverrides sys filename (begin_file vlevel s) = Inr r\<close> r show ?thesis
      by (auto simp: ProcessFile_def Let_def)
  next
    case input: (Inr x)
    show ?thesis
    proof (cases x)
      case (Some t)
      with input Inr r checks [of t] show ?thesis
        by (cases "process_text sys extra filename t s1") (auto simp: ProcessFile_def Let_def)
    qed (use input Inr r in \<open>auto simp: ProcessFile_def Let_def\<close>)
  qed
qed

lemma ProcessFile_configured:
  "ProcessConfigOverrides sys filename (begin_file vlevel s) = Inr r \<Longrightarrow> read_text sys filename = Inr t \<Longrightarrow>
     ProcessFile sys filename vlevel extra s = Inl CheckError \<or> (\<exists>s'. ProcessFile sys filename vlevel extra s = Inr s')"
  by (cases r) (auto simp: ProcessFile_def Let_def split: option.split)

text \<open>Reading the standard input ends the run where the reader raises, unless the configuration excludes the file.\<close>

lemma ProcessFile_input:
  assumes "standard_input sys = None"
  shows "ProcessFile sys ''-'' vlevel extra s = Inl InputError \<longleftrightarrow>
    (\<exists>s1. ProcessConfigOverrides sys ''-'' (begin_file vlevel s) = Inr (True, s1))"
  using assms
  by (auto simp: ProcessFile_def Let_def read_text_def split: sum.splits dest: ProcessConfigOverrides_stops)

text \<open>What a file leaves of the session before it.\<close>

lemma ProcessFile_session:
  assumes "ProcessFile sys filename vlevel extra s = Inr s'"
  shows "filters (lint (handler_state s')) = filters (lint (handler_state s)) \<and>
    filters_backup (lint (handler_state s')) = filters (lint (handler_state s)) \<and>
    verbose_level (lint (handler_state s')) = vlevel \<and> quiet (lint (handler_state s')) = quiet (lint (handler_state s)) \<and>
    error_count (lint (handler_state s)) \<le> error_count (lint (handler_state s')) \<and>
    paths (settings s') = paths (settings s) \<and> repository_option (settings s') = repository_option (settings s) \<and>
    (quiet (lint (handler_state s)) \<and> error_count (lint (handler_state s')) = error_count (lint (handler_state s)) \<longrightarrow>
       stdout (handler_state s') = stdout (handler_state s))"
proof -
  obtain go s1 w where 1: "ProcessConfigOverrides sys filename (begin_file vlevel s) = Inr (go, s1)"
      "s' = restore_filters (s1\<lparr>handler_state := w\<rparr>)"
      "file_after (error_count (lint (handler_state (begin_file vlevel s)))) (handler_state s1) w" by (rule ProcessFile_result [OF assms])
  from 1(1) obtain t fs where "configured (begin_file vlevel s) t" "s1 = update_world (update_lint (\<lambda>l. l\<lparr>filters := filters l @ fs\<rparr>)) t"
    by (rule ProcessConfigOverrides_result)
  with 1(2,3) show ?thesis by (simp add: configured_def file_after_def update_world_def update_lint_def)
qed

lemma file_stuck_code [code]: "file_stuck filename cl k = list_ex (\<lambda>n. line_stuck cl (nesting_after filename cl (Suc n)) n) [k ..< NumLines cl]"
  by (auto simp: file_stuck_def list_ex_iff)

section \<open>The session after a file\<close>

definition example_files :: "string \<Rightarrow> string list option" where
  "example_files f = (if f = ''/w/CPPLINT.cfg'' then
     Some [''# project'' @ [LF], ''linelength=100'' @ [LF], ''filter=-legal/copyright'' @ [LF], ''set noparent'' @ [LF]] else None)"

definition example_texts :: "string \<Rightarrow> string option" where
  "example_texts f = (if f = ''a.cc'' then Some (''x'' @ [CR, LF] @ ''y'' @ [LF])
     else if f = ''b.cc'' then Some (''f(&static_cast<A*>'' @ [LF] @ ''(x));'' @ [LF]) else None)"

definition example_system :: surroundings where
  "example_system = \<lparr>is_file = (\<lambda>f. example_files f \<noteq> None), is_dir = (\<lambda>f. f = ''/w''), text_lines = example_files,
     header_lines = (\<lambda>_. None), whole_text = example_texts,
     standard_input = None, pattern_matches = (\<lambda>_ _. Some False), set_order = sorted_list_of_set,
     walk = (\<lambda>_. [(''/w'', [''a.cc'', ''notes.txt''])]), glob = (\<lambda>p. [p]), tostring = (\<lambda>_. [])\<rparr>"

definition example_session :: session where
  "example_session = \<lparr>settings = example_config, excludes = {}, handler_state = example_world\<rparr>"

lemma example_session_ok:
  "filters_ok (handler_state example_session)" "names_resolve (settings example_session)" "extra_sound [] cl"
  by (simp_all add: example_session_def example_world_ok example_names extra_sound_def)

lemma example_run:
  obtains s1 s' where "ProcessConfigOverrides example_system ''a.cc'' (begin_file 1 example_session) = Inr (True, s1)"
    "line_length (settings s1) = 100" "ProcessFile example_system ''a.cc'' 1 [] example_session = Inr s'"
proof -
  have "case ProcessConfigOverrides example_system ''a.cc'' (begin_file 1 example_session) of Inl e \<Rightarrow> False
    | Inr (go, s1) \<Rightarrow> go \<and> line_length (settings s1) = 100 \<and> list_all signed_filter (filters (lint (handler_state s1))) \<and>
        (case example_texts ''a.cc'' of None \<Rightarrow> False | Some t \<Rightarrow> \<not> text_stuck ''a.cc'' t s1)" by code_simp
  then obtain s1 t where 1: "ProcessConfigOverrides example_system ''a.cc'' (begin_file 1 example_session) = Inr (True, s1)"
      "line_length (settings s1) = 100" "example_texts ''a.cc'' = Some t" "\<not> text_stuck ''a.cc'' t s1"
    by (auto split: sum.splits option.splits)
  have "ProcessFile example_system ''a.cc'' 1 [] example_session \<noteq> Inl CheckError"
    using 1 ProcessFile_stuck [of example_session 1 "[]" example_system "''a.cc''"] example_session_ok
    by (auto simp: read_text_def example_system_def)
  moreover have "read_text example_system ''a.cc'' = Inr (Some t)" using 1(3) by (simp add: read_text_def example_system_def)
  ultimately show ?thesis using ProcessFile_configured [OF 1(1)] that [OF 1(1,2)] by blast
qed

text \<open>C11: the filters that a file's configuration adds hold for this file only: when \<open>ProcessFile\<close> returns, the
  filters are those before it, and no error has been uncounted.\<close>

theorem ProcessFile_restores:
  assumes "ProcessFile sys filename vlevel extra s = Inr s'"
  shows "filters (lint (handler_state s')) = filters (lint (handler_state s)) \<and>
    error_count (lint (handler_state s)) \<le> error_count (lint (handler_state s'))"
  using ProcessFile_session [OF assms] by simp

theorem ProcessFile_restores_witness:
  "\<exists>s'. ProcessFile example_system ''a.cc'' 1 [] example_session = Inr s' \<and>
     filters (lint (handler_state s')) = filters (lint (handler_state example_session)) \<and>
     error_count (lint (handler_state example_session)) \<le> error_count (lint (handler_state s'))"
  using example_run ProcessFile_restores by metis

text \<open>C21: all other settings that configuration files change stay changed after the file: the line length, the
  extensions and the root are those that the configuration of this file has set.\<close>

theorem ProcessFile_keeps_settings:
  assumes "ProcessFile sys filename vlevel extra s = Inr s'"
    "ProcessConfigOverrides sys filename (begin_file vlevel s) = Inr (go, s1)"
  shows "settings s' = settings s1"
  using ProcessFile_result [OF assms(1)] assms(2) by force


theorem ProcessFile_keeps_settings_witness:
  "\<exists>s'. ProcessFile example_system ''a.cc'' 1 [] example_session = Inr s' \<and> line_length (settings example_session) = 80 \<and>
     line_length (settings s') = 100"
proof -
  obtain s1 s' where 1: "ProcessConfigOverrides example_system ''a.cc'' (begin_file 1 example_session) = Inr (True, s1)"
      "line_length (settings s1) = 100" "ProcessFile example_system ''a.cc'' 1 [] example_session = Inr s'" by (rule example_run)
  from ProcessFile_keeps_settings [OF 1(3,1)] 1 show ?thesis by (simp add: example_session_def example_config_def)
qed

text \<open>C7: \<open>ProcessFile\<close> stops with an exception of a check exactly when its configuration lets it be checked, it
  can be read, its extension is one of those that are checked, and one of its lines is stuck.\<close>

theorem ProcessFile_fails:
  assumes "filters_ok (handler_state s)" "0 \<le> vlevel" "names_resolve (settings s)" "\<And>cl. extra_sound extra cl"
  shows "ProcessFile sys filename vlevel extra s = Inl CheckError \<longleftrightarrow>
    (\<exists>s1 text. ProcessConfigOverrides sys filename (begin_file vlevel s) = Inr (True, s1) \<and> read_text sys filename = Inr (Some text) \<and>
       (filename = ''-'' \<or> file_ext filename \<in> GetAllExtensions (extensions (settings s1))) \<and> text_stuck filename text s1)"
  using assms by (rule ProcessFile_stuck)

theorem ProcessFile_fails_witness:
  "ProcessFile example_system ''b.cc'' 1 [] example_session = Inl CheckError"
proof (rule ProcessFile_fails [THEN iffD2])
  have "case ProcessConfigOverrides example_system ''b.cc'' (begin_file 1 example_session) of Inl e \<Rightarrow> False
    | Inr (go, s1) \<Rightarrow> go \<and> (case example_texts ''b.cc'' of None \<Rightarrow> False | Some t \<Rightarrow>
        file_ext ''b.cc'' \<in> GetAllExtensions (extensions (settings s1)) \<and> text_stuck ''b.cc'' t s1)" by code_simp
  then show "\<exists>s1 text. ProcessConfigOverrides example_system ''b.cc'' (begin_file 1 example_session) = Inr (True, s1) \<and>
      read_text example_system ''b.cc'' = Inr (Some text) \<and>
      (''b.cc'' = ''-'' \<or> file_ext ''b.cc'' \<in> GetAllExtensions (extensions (settings s1))) \<and> text_stuck ''b.cc'' text s1"
    by (auto simp: read_text_def example_system_def split: sum.splits option.splits)
qed (simp_all add: example_session_ok)

end
