(* ===== verification/CommandLine.thy ===== *)
theory CommandLine
  imports ConfigFiles
begin

text \<open>
  The command line (\<open>cpplint.py\<close>, \<open>ParseArguments\<close>, \<open>_ExpandDirectories\<close>, \<open>_FilterExcludedFiles\<close> and
  \<open>main\<close>), with the part of Python's \<open>getopt\<close> that it uses.
\<close>

section \<open>Options\<close>

text \<open>
  \<open>getopt.getopt(args, '', longopts)\<close>. A long option may be abbreviated to a unique prefix; one whose
  listed name ends in \<open>=\<close> takes a value, after \<open>=\<close> or as the next argument. \<open>None\<close> is a GetoptError.
\<close>

definition LONG_OPTIONS :: "string list" where
  "LONG_OPTIONS = [''help'', ''output='', ''verbose='', ''v='', ''version'', ''counting='', ''filter='', ''root='',
     ''repository='', ''linelength='', ''extensions='', ''exclude='', ''recursive'', ''headers='', ''quiet'']"

definition long_has_args :: "string list \<Rightarrow> string \<Rightarrow> (bool \<times> string) option" where
  "long_has_args longopts opt =
     (let possibilities = filter (\<lambda>name. starts_with name opt) longopts in
      if opt \<in> set possibilities then Some (False, opt)
      else if opt @ ''='' \<in> set possibilities then Some (True, opt)
      else case possibilities of
        [unique_match] \<Rightarrow> Some (if ends_with unique_match ''='' then (True, butlast unique_match) else (False, unique_match))
      | _ \<Rightarrow> None)"

text \<open>One long option, without its dashes, and the arguments after it.\<close>

definition do_longs :: "string list \<Rightarrow> string \<Rightarrow> string list \<Rightarrow> ((string \<times> string) \<times> string list) option" where
  "do_longs longopts arg args = do {
     let (opt, optarg) = (if CHR ''='' \<in> set arg then map_prod id Some (partition_char (CHR ''='') arg) else (arg, None));
     (has_arg, opt) \<leftarrow> long_has_args longopts opt;
     if has_arg then
       (case (optarg, args) of
          (Some val, _) \<Rightarrow> Some ((''--'' @ opt, val), args)
        | (None, val # args) \<Rightarrow> Some ((''--'' @ opt, val), args)
        | (None, []) \<Rightarrow> None)
     else if optarg \<noteq> None then None
     else Some ((''--'' @ opt, []), args)
   }"

lemma do_longs_shorter: "do_longs longopts arg args = Some (x, rest) \<Longrightarrow> length rest \<le> length args"
  by (auto simp: do_longs_def Let_def bind_eq_Some_conv case_prod_beta split: if_splits option.splits list.splits)

text \<open>There are no short options, so an argument with one dash is an error.\<close>

function getopt :: "string list \<Rightarrow> string list \<Rightarrow> ((string \<times> string) list \<times> string list) option" where
  "getopt longopts args =
     (case args of
        [] \<Rightarrow> Some ([], [])
      | arg # rest \<Rightarrow>
          if \<not> starts_with arg ''-'' \<or> arg = ''-'' then Some ([], args)
          else if arg = ''--'' then Some ([], rest)
          else if starts_with arg ''--'' then
            (case do_longs longopts (drop 2 arg) rest of
               None \<Rightarrow> None
             | Some (opt, rest) \<Rightarrow> map_option (map_prod ((#) opt) id) (getopt longopts rest))
          else None)"
  by pat_completeness auto
termination
  by (relation "measure (\<lambda>(longopts, args). length args)") (auto dest: do_longs_shorter)

declare getopt.simps [simp del]

text \<open>The local variables of \<open>ParseArguments\<close>.\<close>

record arguments =
  verbosity :: int
  chosen_format :: string
  filter_text :: string
  be_quiet :: bool
  counting_style :: string
  recursive :: bool

definition initial_arguments :: "session \<Rightarrow> arguments" where
  "initial_arguments s = (let l = lint (handler_state s) in
     \<lparr>verbosity = verbose_level l, chosen_format = output_format l, filter_text = [], be_quiet = quiet l,
      counting_style = [], recursive = False\<rparr>)"

text \<open>One pass of the loop over the options.\<close>

definition parse_option :: "surroundings \<Rightarrow> string \<times> string \<Rightarrow> arguments \<times> session \<Rightarrow> stop + arguments \<times> session" where
  "parse_option sys = (\<lambda>(opt, val) (a, s).
     if opt = ''--help'' then Inl (Usage None)
     else if opt = ''--version'' then Inl Version
     else if opt = ''--output'' then
       if val \<notin> {''emacs'', ''vs7'', ''eclipse'', ''junit''}
       then Inl (Usage (Some ''The only allowed output formats are emacs, vs7, eclipse and junit.''))
       else Inr (a\<lparr>chosen_format := val\<rparr>, s)
     else if opt = ''--quiet'' then Inr (a\<lparr>be_quiet := True\<rparr>, s)
     else if opt = ''--verbose'' \<or> opt = ''--v'' then
       (case py_int val of
          None \<Rightarrow> Inl (Raises (ValueError (''invalid literal for int() with base 10: '' @ [SQ] @ val @ [SQ])))
        | Some n \<Rightarrow> Inr (a\<lparr>verbosity := n\<rparr>, s))
     else if opt = ''--filter'' then
       if val = [] then Inl Categories else Inr (a\<lparr>filter_text := val\<rparr>, s)
     else if opt = ''--counting'' then
       if val \<notin> {''total'', ''toplevel'', ''detailed''}
       then Inl (Usage (Some ''Valid counting options are total, toplevel, and detailed''))
       else Inr (a\<lparr>counting_style := val\<rparr>, s)
     else if opt = ''--root'' then Inr (a, s\<lparr>settings := (settings s)\<lparr>root_option := Some val\<rparr>\<rparr>)
     else if opt = ''--repository'' then Inr (a, s\<lparr>settings := (settings s)\<lparr>repository_option := Some val\<rparr>\<rparr>)
     else if opt = ''--linelength'' then
       (case py_int val of
          None \<Rightarrow> Inl (Usage (Some ''Line length must be digits.''))
        | Some n \<Rightarrow> Inr (a, s\<lparr>settings := (settings s)\<lparr>line_length := n\<rparr>\<rparr>))
     else if opt = ''--exclude'' then Inr (a, s\<lparr>excludes := excludes s \<union> set (glob sys val)\<rparr>)
     else if opt = ''--extensions'' then Inr (a, set_extensions sys (ProcessExtensionsOption val) s)
     else if opt = ''--headers'' then Inr (a, set_extensions sys (ProcessHppHeadersOption val) s)
     else if opt = ''--recursive'' then Inr (a\<lparr>recursive := True\<rparr>, s)
     else Inr (a, s))"

fun parse_options :: "surroundings \<Rightarrow> (string \<times> string) list \<Rightarrow> arguments \<times> session \<Rightarrow> stop + arguments \<times> session" where
  "parse_options sys [] st = Inr st"
| "parse_options sys (opt # opts) st = (case parse_option sys opt st of Inl e \<Rightarrow> Inl e | Inr st' \<Rightarrow> parse_options sys opts st')"

section \<open>Files\<close>

definition expand_file :: "surroundings \<Rightarrow> string \<Rightarrow> string list" where
  "expand_file sys filename =
     (if \<not> is_dir sys filename then [filename]
      else concat (map (\<lambda>(root, files). map (\<lambda>loopfile.
        let fullname = path_join root loopfile in
        if starts_with fullname [CHR ''.'', SL] then drop 2 fullname else fullname) files) (walk sys filename)))"

definition ExpandDirectories :: "surroundings \<Rightarrow> extension_options \<Rightarrow> string list \<Rightarrow> string list" where
  "ExpandDirectories sys opts filenames =
     filter (\<lambda>filename. drop 1 (snd (splitext filename)) \<in> GetAllExtensions opts)
       (set_order sys (set (concat (map (expand_file sys) filenames))))"

definition FilterExcludedFiles :: "path_env \<Rightarrow> string set \<Rightarrow> string list \<Rightarrow> string list" where
  "FilterExcludedFiles env excluded filenames = filter (\<lambda>f. abspath env f \<notin> abspath env ` excluded) filenames"

section \<open>The whole run\<close>

definition set_arguments :: "arguments \<Rightarrow> cpplint_state \<Rightarrow> py_error + cpplint_state" where
  "set_arguments a l =
     (case SetFilters (filter_text a)
         (snd (SetVerboseLevel (verbosity a) (snd (SetQuiet (be_quiet a) (SetOutputFormat (chosen_format a) l))))) of
        Inl e \<Rightarrow> Inl e
      | Inr l \<Rightarrow> Inr (SetCountingStyle (counting_style a) l))"

definition ParseArguments :: "surroundings \<Rightarrow> string list \<Rightarrow> session \<Rightarrow> stop + string list \<times> session" where
  "ParseArguments sys args s =
     (case getopt LONG_OPTIONS args of
        None \<Rightarrow> Inl (Usage (Some ''Invalid arguments.''))
      | Some (opts, filenames) \<Rightarrow>
          (case parse_options sys opts (initial_arguments s, s) of
             Inl e \<Rightarrow> Inl e
           | Inr (a, s) \<Rightarrow>
               if filenames = [] then Inl (Usage (Some ''No files were specified.''))
               else
                 let filenames = (if recursive a then ExpandDirectories sys (extensions (settings s)) filenames else filenames);
                     filenames = (if excludes s \<noteq> {} then FilterExcludedFiles (paths (settings s)) (excludes s) filenames
                       else filenames)
                 in case set_arguments a (lint (handler_state s)) of
                   Inl e \<Rightarrow> Inl (Raises e)
                 | Inr l \<Rightarrow> Inr (filenames, update_world (update_lint (\<lambda>_. l)) s)))"

fun process_files :: "surroundings \<Rightarrow> string list \<Rightarrow> session \<Rightarrow> stop + session" where
  "process_files sys [] s = Inr s"
| "process_files sys (filename # filenames) s =
     (case ProcessFile sys filename (verbose_level (lint (handler_state s))) [] s of
        Inl e \<Rightarrow> Inl e
      | Inr s' \<Rightarrow> process_files sys filenames s')"

text \<open>The counts and, for JUnit, the report; and the exit status.\<close>

definition report_results :: "surroundings \<Rightarrow> world \<Rightarrow> world" where
  "report_results sys w =
     (let w = (if \<not> quiet (lint w) \<or> error_count (lint w) > 0 then PrintErrorCounts w else w) in
      if output_format (lint w) = ''junit'' then write_err (FormatJUnitXML (tostring sys) (lint w)) w else w)"

definition cpplint_main :: "surroundings \<Rightarrow> string list \<Rightarrow> session \<Rightarrow> stop + bool \<times> session" where
  "cpplint_main sys argv s =
     (case ParseArguments sys (drop 1 argv) s of
        Inl e \<Rightarrow> Inl e
      | Inr (filenames, s) \<Rightarrow>
          (case process_files sys filenames (update_world (update_lint ResetErrorCounts) s) of
             Inl e \<Rightarrow> Inl e
           | Inr s \<Rightarrow> let s = update_world (report_results sys) s in
               Inr (error_count (lint (handler_state s)) > 0, s)))"


section \<open>Options that are printed are parsed back\<close>

definition option_arg :: "string \<times> string \<Rightarrow> string" where
  "option_arg o' = ''--'' @ fst o' @ ''='' @ snd o'"

lemma long_options_take_values:
  "list_all (\<lambda>name. ends_with name ''='' \<longrightarrow> butlast name \<noteq> [] \<and> CHR ''='' \<notin> set (butlast name) \<and> butlast name @ ''='' = name \<and>
     long_has_args LONG_OPTIONS (butlast name) = Some (True, butlast name)) LONG_OPTIONS"
  by code_simp

lemma valued_option:
  assumes "name @ ''='' \<in> set LONG_OPTIONS"
  shows "name \<noteq> [] \<and> CHR ''='' \<notin> set name \<and> long_has_args LONG_OPTIONS name = Some (True, name)"
proof -
  have "ends_with (name @ ''='') ''=''" by (simp add: ends_with_iff)
  with assms long_options_take_values show ?thesis unfolding list_all_iff by fastforce
qed

lemma partition_char_append: "c \<notin> set u \<Longrightarrow> partition_char c (u @ c # v) = (u, v)"
  by (induction u) (auto simp: partition_char_def)

lemma getopt_roundtrip:
  assumes "list_all (\<lambda>(name, val). name @ ''='' \<in> set LONG_OPTIONS) opts"
  shows "getopt LONG_OPTIONS (map option_arg opts @ ''--'' # files) = Some (map (\<lambda>(name, val). (''--'' @ name, val)) opts, files)"
  using assms
proof (induction opts)
  case Nil
  show ?case by (subst getopt.simps) simp
next
  case (Cons opt opts)
  obtain name val where opt: "opt = (name, val)" by fastforce
  with Cons.prems valued_option have name: "name \<noteq> []" "CHR ''='' \<notin> set name" "long_has_args LONG_OPTIONS name = Some (True, name)"
    by auto
  then have "do_longs LONG_OPTIONS (name @ ''='' @ val) rest = Some ((''--'' @ name, val), rest)" for rest
    using partition_char_append [of "CHR ''=''" name val] by (simp add: do_longs_def)
  moreover have "option_arg opt = ''--'' @ name @ ''='' @ val" by (simp add: option_arg_def opt)
  ultimately show ?case using Cons name(1) opt by (subst getopt.simps) simp
qed

text \<open>The arguments that spell out a choice of settings.\<close>

definition spell_arguments :: "arguments \<Rightarrow> string \<Rightarrow> int \<Rightarrow> string list" where
  "spell_arguments a root len = map option_arg
     [(''output'', chosen_format a), (''verbose'', show_int (verbosity a)), (''filter'', filter_text a),
      (''counting'', counting_style a), (''root'', root), (''linelength'', show_int len)]"

lemma parse_spelled:
  assumes "chosen_format a \<in> {''emacs'', ''vs7'', ''eclipse'', ''junit''}" "counting_style a \<in> {''total'', ''toplevel'', ''detailed''}"
    "filter_text a \<noteq> []"
  shows "parse_options sys [(''--output'', chosen_format a), (''--verbose'', show_int (verbosity a)), (''--filter'', filter_text a),
      (''--counting'', counting_style a), (''--root'', root), (''--linelength'', show_int len)]
      (b, s) = Inr (a\<lparr>be_quiet := be_quiet b, recursive := recursive b\<rparr>,
        s\<lparr>settings := (settings s)\<lparr>root_option := Some root, line_length := len\<rparr>\<rparr>)"
  using assms by (simp add: parse_option_def py_int_show)

text \<open>C22: settings that are spelled out on the command line are parsed back: the run starts with exactly these
  settings in the state of the handler, the root and the line length, and with the files after them.\<close>

theorem ParseArguments_roundtrip:
  assumes "chosen_format a \<in> {''emacs'', ''vs7'', ''eclipse'', ''junit''}" "counting_style a \<in> {''total'', ''toplevel'', ''detailed''}"
    "filter_text a \<noteq> []" "set_arguments (a\<lparr>be_quiet := quiet (lint (handler_state s))\<rparr>) (lint (handler_state s)) = Inr l"
    "files \<noteq> []" "excludes s = {}"
  shows "ParseArguments sys (spell_arguments a root len @ ''--'' # files) s =
    Inr (files, update_world (update_lint (\<lambda>_. l)) (s\<lparr>settings := (settings s)\<lparr>root_option := Some root, line_length := len\<rparr>\<rparr>))"
proof -
  let ?opts = "[(''output'', chosen_format a), (''verbose'', show_int (verbosity a)), (''filter'', filter_text a),
      (''counting'', counting_style a), (''root'', root), (''linelength'', show_int len)]"
  have "getopt LONG_OPTIONS (spell_arguments a root len @ ''--'' # files) = Some (map (\<lambda>(name, val). (''--'' @ name, val)) ?opts, files)"
    unfolding spell_arguments_def by (rule getopt_roundtrip) (simp add: LONG_OPTIONS_def)
  moreover have "set_arguments (a\<lparr>be_quiet := quiet (lint (handler_state s)), recursive := False\<rparr>) (lint (handler_state s)) = Inr l"
    using assms(4) by (auto simp: set_arguments_def split: sum.splits)
  ultimately show ?thesis
    using assms(5,6) parse_spelled [OF assms(1-3), of sys root len] by (simp add: ParseArguments_def initial_arguments_def Let_def)
qed

definition example_arguments :: arguments where
  "example_arguments = \<lparr>verbosity = 2, chosen_format = ''vs7'', filter_text = ''-runtime,+build'', be_quiet = False,
     counting_style = ''toplevel'', recursive = False\<rparr>"

theorem ParseArguments_roundtrip_witness:
  "\<exists>s'. ParseArguments example_system (spell_arguments example_arguments ''src'' 100 @ ''--'' # [''a.cc'']) example_session =
      Inr ([''a.cc''], s') \<and> verbose_level (lint (handler_state s')) = 2 \<and> line_length (settings s') = 100"
proof -
  have "case set_arguments (example_arguments\<lparr>be_quiet := quiet (lint (handler_state example_session))\<rparr>)
      (lint (handler_state example_session)) of Inl e \<Rightarrow> False | Inr l \<Rightarrow> verbose_level l = 2" by code_simp
  then obtain l where 1: "set_arguments (example_arguments\<lparr>be_quiet := quiet (lint (handler_state example_session))\<rparr>)
      (lint (handler_state example_session)) = Inr l" "verbose_level l = 2" by (auto split: sum.splits)
  have "excludes example_session = {}" by (simp add: example_session_def)
  from ParseArguments_roundtrip [OF _ _ _ 1(1) _ this, of "[''a.cc'']" example_system "''src''" 100] 1(2)
  show ?thesis by (simp add: example_arguments_def update_world_def update_lint_def)
qed

section \<open>Quiet runs\<close>

lemma parse_option_handler: "parse_option sys opt (a, s) = Inr (a', s') \<Longrightarrow> handler_state s' = handler_state s"
  by (cases opt) (auto simp: parse_option_def set_extensions_def Let_def split: if_splits option.splits)

lemma parse_options_handler: "parse_options sys opts (a, s) = Inr (a', s') \<Longrightarrow> handler_state s' = handler_state s"
proof (induction opts arbitrary: a s)
  case (Cons opt opts)
  then obtain a1 s1 where "parse_option sys opt (a, s) = Inr (a1, s1)" "parse_options sys opts (a1, s1) = Inr (a', s')"
    by (auto split: sum.splits)
  with Cons.IH parse_option_handler show ?case by metis
qed simp

lemma ParseArguments_stdout:
  "ParseArguments sys args s = Inr (filenames, s') \<Longrightarrow> stdout (handler_state s') = stdout (handler_state s)"
  by (auto simp: ParseArguments_def Let_def update_world_def update_lint_def split: option.splits sum.splits if_splits
    dest!: parse_options_handler)

lemma process_files_session:
  "process_files sys fs s = Inr s' \<Longrightarrow>
    filters (lint (handler_state s')) = filters (lint (handler_state s)) \<and> quiet (lint (handler_state s')) = quiet (lint (handler_state s)) \<and>
    verbose_level (lint (handler_state s')) = verbose_level (lint (handler_state s)) \<and>
    error_count (lint (handler_state s)) \<le> error_count (lint (handler_state s')) \<and>
    (quiet (lint (handler_state s)) \<and> error_count (lint (handler_state s')) = error_count (lint (handler_state s)) \<longrightarrow>
       stdout (handler_state s') = stdout (handler_state s))"
proof (induction fs arbitrary: s)
  case (Cons f fs)
  then obtain s1 where 1: "ProcessFile sys f (verbose_level (lint (handler_state s))) [] s = Inr s1" "process_files sys fs s1 = Inr s'"
    by (auto split: sum.splits)
  with Cons.IH [OF 1(2)] ProcessFile_session [OF 1(1)] show ?case by auto
qed simp

lemma lint_PrintInfo [simp]: "lint (PrintInfo m w) = lint w"
  by (simp add: PrintInfo_def)

lemma lint_PrintInfos [simp]: "lint (fold (\<lambda>x. PrintInfo (f x)) xs w) = lint w"
  by (induction xs arbitrary: w) simp_all

lemma report_results_simps [simp]:
  "lint (report_results sys w) = lint w"
  "quiet (lint w) \<Longrightarrow> error_count (lint w) = 0 \<Longrightarrow> stdout (report_results sys w) = stdout w"
  by (simp_all add: report_results_def PrintErrorCounts_def write_err_def Let_def)

text \<open>C9: a quiet run that finds no error prints nothing on standard output, whatever the files and their
  configuration are; its exit status is then that of success.\<close>

theorem quiet_run_is_silent:
  assumes "cpplint_main sys argv s = Inr (status, s')" "quiet (lint (handler_state s'))" "error_count (lint (handler_state s')) = 0"
  shows "\<not> status \<and> stdout (handler_state s') = stdout (handler_state s)"
proof -
  from assms(1) obtain fs s1 s2 where 1: "ParseArguments sys (drop 1 argv) s = Inr (fs, s1)"
      and 2: "process_files sys fs (update_world (update_lint ResetErrorCounts) s1) = Inr s2"
      and s': "s' = update_world (report_results sys) s2" "status \<longleftrightarrow> error_count (lint (handler_state s')) > 0"
    by (auto simp: cpplint_main_def Let_def split: sum.splits)
  from s'(1) have lint: "lint (handler_state s') = lint (handler_state s2)" by (simp add: update_world_def)
  have "stdout (handler_state s2) = stdout (handler_state s1)"
    using process_files_session [OF 2] assms(2,3) lint by (simp add: update_world_def update_lint_def ResetErrorCounts_def)
  then have "stdout (handler_state s') = stdout (handler_state s)"
    using s'(1) assms(2,3) lint ParseArguments_stdout [OF 1] by (simp add: update_world_def)
  with s'(2) assms(3) show ?thesis by simp
qed


text \<open>A file that cannot be read is reported on the error stream, but is not an error that counts.\<close>

theorem quiet_run_is_silent_witness:
  "\<exists>s'. cpplint_main example_system [''cpplint'', ''--quiet'', ''missing.cc''] example_session = Inr (False, s') \<and>
     stderr (handler_state s') \<noteq> [] \<and> stdout (handler_state s') = stdout (handler_state example_session)"
proof -
  have "case cpplint_main example_system [''cpplint'', ''--quiet'', ''missing.cc''] example_session of Inl e \<Rightarrow> False
    | Inr (status, s') \<Rightarrow> quiet (lint (handler_state s')) \<and> error_count (lint (handler_state s')) = 0 \<and> stderr (handler_state s') \<noteq> []"
    by code_simp
  then obtain status s' where "cpplint_main example_system [''cpplint'', ''--quiet'', ''missing.cc''] example_session = Inr (status, s')"
      "quiet (lint (handler_state s'))" "error_count (lint (handler_state s')) = 0" "stderr (handler_state s') \<noteq> []"
    by (auto split: sum.splits)
  with quiet_run_is_silent [OF this(1-3)] show ?thesis by auto
qed

section \<open>How a run can stop\<close>

text \<open>A file at which the run stops: its configuration lets it be checked, it can be read, its extension is one
  of those that are checked, and the checks of one of its lines raise.\<close>

definition file_stops :: "surroundings \<Rightarrow> string \<Rightarrow> session \<Rightarrow> bool" where
  "file_stops sys filename s =
     (case ProcessConfigOverrides sys filename (begin_file (verbose_level (lint (handler_state s))) s) of
        Inl e \<Rightarrow> False
      | Inr (go, s1) \<Rightarrow> go \<and>
          (case read_text sys filename of
             Inl e \<Rightarrow> False
           | Inr None \<Rightarrow> False
           | Inr (Some t) \<Rightarrow> (filename = ''-'' \<or> file_ext filename \<in> GetAllExtensions (extensions (settings s1))) \<and> text_stuck filename t s1))"

text \<open>What the files of a run rely on, and keep.\<close>

definition session_ok :: "session \<Rightarrow> bool" where
  "session_ok s \<longleftrightarrow> filters_ok (handler_state s) \<and> 0 \<le> verbose_level (lint (handler_state s)) \<and> names_resolve (settings s)"

lemma ProcessFile_stops:
  assumes "session_ok s"
  shows "ProcessFile sys filename (verbose_level (lint (handler_state s))) [] s = Inl CheckError \<longleftrightarrow> file_stops sys filename s"
proof -
  have "\<And>cl. extra_sound [] cl" by (simp add: extra_sound_def)
  from ProcessFile_stuck [OF _ _ _ this] assms show ?thesis
    by (auto simp: session_ok_def file_stops_def split: sum.splits option.splits prod.splits)
qed

lemma ProcessFile_session_ok:
  "session_ok s \<Longrightarrow> ProcessFile sys filename (verbose_level (lint (handler_state s))) extra s = Inr s' \<Longrightarrow> session_ok s'"
  by (drule ProcessFile_session) (simp add: session_ok_def filters_ok_def names_resolve_def)

lemma process_files_stops:
  assumes "session_ok s"
  shows "process_files sys fs s = Inl CheckError \<longleftrightarrow>
    (\<exists>pre f post s1. fs = pre @ f # post \<and> process_files sys pre s = Inr s1 \<and> file_stops sys f s1)"
  using assms
proof (induction fs arbitrary: s)
  case (Cons f fs)
  note stops = ProcessFile_stops [OF Cons.prems, of sys f]
  have split: "(\<exists>pre g post s1. f # fs = pre @ g # post \<and> process_files sys pre s = Inr s1 \<and> file_stops sys g s1) \<longleftrightarrow>
      file_stops sys f s \<or>
      (\<exists>pre g post s1. fs = pre @ g # post \<and> process_files sys (f # pre) s = Inr s1 \<and> file_stops sys g s1)"
  proof (intro iffI; elim exE conjE disjE)
    fix pre g post s1
    assume 1: "f # fs = pre @ g # post" "process_files sys pre s = Inr s1" "file_stops sys g s1"
    then show "file_stops sys f s \<or>
      (\<exists>pre g post s1. fs = pre @ g # post \<and> process_files sys (f # pre) s = Inr s1 \<and> file_stops sys g s1)"
    proof (cases pre)
      case (Cons h pre')
      with 1 show ?thesis by (intro disjI2 exI [of _ pre'] exI [of _ g] exI [of _ post] exI [of _ s1]) simp
    qed simp
  next
    assume "file_stops sys f s"
    then show "\<exists>pre g post s1. f # fs = pre @ g # post \<and> process_files sys pre s = Inr s1 \<and> file_stops sys g s1"
      by (intro exI [of _ "[]"] exI [of _ f] exI [of _ fs] exI [of _ s]) simp
  next
    fix pre g post s1
    assume "fs = pre @ g # post" "process_files sys (f # pre) s = Inr s1" "file_stops sys g s1"
    then show "\<exists>pre g post s1. f # fs = pre @ g # post \<and> process_files sys pre s = Inr s1 \<and> file_stops sys g s1"
      by (intro exI [of _ "f # pre"] exI [of _ g] exI [of _ post] exI [of _ s1]) simp
  qed
  show ?case
  proof (cases "ProcessFile sys f (verbose_level (lint (handler_state s))) [] s")
    case (Inl e)
    with stops show ?thesis unfolding split by simp
  next
    case (Inr s1)
    with stops Cons.IH [OF ProcessFile_session_ok [OF Cons.prems Inr]] show ?thesis unfolding split by simp
  qed
qed simp

lemma ParseArguments_filters_ok:
  assumes "ParseArguments sys args s = Inr (fs, s1)" "filters_ok (handler_state s)"
  shows "filters_ok (handler_state s1)"
  using assms
  by (auto simp: ParseArguments_def Let_def set_arguments_def SetFilters_def AddFilters_Inr filters_ok_def update_world_def update_lint_def
      SetCountingStyle_def SetVerboseLevel_def SetQuiet_def SetOutputFormat_def
      split: option.splits sum.splits if_splits dest!: parse_options_handler)

lemma parse_options_paths: "parse_options sys opts (a, s) = Inr (a', s') \<Longrightarrow> paths (settings s') = paths (settings s)"
proof (induction opts arbitrary: a s)
  case (Cons opt opts)
  then obtain a1 s1 where 1: "parse_option sys opt (a, s) = Inr (a1, s1)" "parse_options sys opts (a1, s1) = Inr (a', s')"
    by (auto split: sum.splits)
  then have "paths (settings s1) = paths (settings s)"
    by (cases opt) (auto simp: parse_option_def set_extensions_def Let_def split: if_splits option.splits)
  with Cons.IH [OF 1(2)] show ?case by simp
qed simp

lemma ParseArguments_paths: "ParseArguments sys args s = Inr (fs, s1) \<Longrightarrow> paths (settings s1) = paths (settings s)"
  by (auto simp: ParseArguments_def Let_def update_world_def split: option.splits sum.splits if_splits dest!: parse_options_paths)

lemma ParseArguments_stops: "ParseArguments sys args s \<noteq> Inl CheckError"
proof -
  have "parse_option sys opt st = Inl e \<Longrightarrow> e \<noteq> CheckError" for opt st e
    by (cases opt; cases st) (auto simp: parse_option_def split: if_splits option.splits)
  then have "parse_options sys opts st \<noteq> Inl CheckError" for opts st
    by (induction opts arbitrary: st) (auto split: sum.splits)
  then show ?thesis
    by (auto simp: ParseArguments_def Let_def split: option.splits sum.splits)
qed

text \<open>C6: the whole run ends with an exception of a check exactly when it reaches a file, after the files before
  it, that stops it in the session that these files have left.\<close>

theorem cpplint_main_stops:
  assumes "ParseArguments sys (drop 1 argv) s = Inr (fs, s1)" "filters_ok (handler_state s)"
    "names_resolve (settings s1)" "0 \<le> verbose_level (lint (handler_state s1))"
  shows "cpplint_main sys argv s = Inl CheckError \<longleftrightarrow>
    (\<exists>pre f post s2. fs = pre @ f # post \<and> process_files sys pre (update_world (update_lint ResetErrorCounts) s1) = Inr s2 \<and>
       file_stops sys f s2)"
proof -
  have "session_ok (update_world (update_lint ResetErrorCounts) s1)"
    using ParseArguments_filters_ok [OF assms(1,2)] assms(3,4)
    by (simp add: session_ok_def update_world_def update_lint_def ResetErrorCounts_def filters_ok_def)
  from process_files_stops [OF this, of sys fs] assms(1) show ?thesis
    by (auto simp: cpplint_main_def Let_def split: sum.splits)
qed

theorem cpplint_main_stops_witness:
  "cpplint_main example_system [''cpplint'', ''--quiet'', ''b.cc''] example_session = Inl CheckError"
proof -
  let ?reset = "\<lambda>s. update_world (update_lint ResetErrorCounts) s"
  have "case ParseArguments example_system [''--quiet'', ''b.cc''] example_session of Inl e \<Rightarrow> False
    | Inr (fs, s1) \<Rightarrow> fs = [''b.cc''] \<and> repository_option (settings s1) = repository_option (settings example_session) \<and>
        0 \<le> verbose_level (lint (handler_state s1)) \<and> file_stops example_system ''b.cc'' (?reset s1)"
    by code_simp
  then obtain s1 where 1: "ParseArguments example_system [''--quiet'', ''b.cc''] example_session = Inr ([''b.cc''], s1)"
      "repository_option (settings s1) = repository_option (settings example_session)"
      "0 \<le> verbose_level (lint (handler_state s1))" "file_stops example_system ''b.cc'' (?reset s1)"
    by (auto split: sum.splits)
  from ParseArguments_paths [OF 1(1)] 1(2) example_session_ok(2) have names: "names_resolve (settings s1)"
    by (simp add: names_resolve_def)
  have "drop 1 [''cpplint'', ''--quiet'', ''b.cc''] = [''--quiet'', ''b.cc'']" by simp
  with 1(1) have "ParseArguments example_system (drop 1 [''cpplint'', ''--quiet'', ''b.cc'']) example_session = Inr ([''b.cc''], s1)"
    by simp
  from cpplint_main_stops [OF this example_session_ok(1) names 1(3)] 1(4) show ?thesis
    by (simp add: exI [of _ "[]"])
qed

end
