(* ===== verification/ConfigOrder.thy ===== *)
theory ConfigOrder
  imports ConfigFiles
begin

text \<open>
  What configuration files mean (\<open>cpplint.py\<close>, \<open>ProcessConfigOverrides\<close>): the lines that are read for a
  file, in their order from its directory upwards, and the settings that they make.
\<close>

section \<open>The lines that are read\<close>

text \<open>The name and the value on a line.\<close>

definition line_setting :: "string \<Rightarrow> (string \<times> string) option" where
  "line_setting line =
     (let line = fst (partition_char (CHR ''#'') line) in
      if strip line = [] then None else Some (map_prod strip strip (partition_char (CHR ''='') line)))"

definition stops_walk :: "string \<Rightarrow> bool" where
  "stops_walk line = (case line_setting line of None \<Rightarrow> False | Some (name, val) \<Rightarrow> name = ''set noparent'')"

definition given_length :: "string \<Rightarrow> int option" where
  "given_length line = (case line_setting line of None \<Rightarrow> None | Some (name, val) \<Rightarrow> if name = ''linelength'' then py_int val else None)"

definition given_filter :: "string \<Rightarrow> string option" where
  "given_filter line = (case line_setting line of None \<Rightarrow> None | Some (name, val) \<Rightarrow> if name = ''filter'' then Some val else None)"

function config_read :: "surroundings \<Rightarrow> string \<Rightarrow> string list" where
  "config_read sys abs_filename =
     (case path_split abs_filename of (abs_path, base_name) \<Rightarrow>
        if base_name = [] then []
        else let cfg_file = path_join abs_path ''CPPLINT.cfg'' in
          if \<not> is_file sys cfg_file then config_read sys abs_path
          else case text_lines sys cfg_file of
            None \<Rightarrow> []
          | Some ls \<Rightarrow> ls @ (if list_ex stops_walk ls then [] else config_read sys abs_path))"
  by pat_completeness auto
termination
  by (relation "measure (\<lambda>(sys, abs_filename). length abs_filename)") (auto dest: path_split_shorter [OF sym])

declare config_read.simps [simp del]

section \<open>What they set\<close>

text \<open>The variables after the lines \<open>ls\<close>, when the loop has not returned.\<close>

definition lines_done :: "string list \<Rightarrow> looking \<Rightarrow> looking \<Rightarrow> bool" where
  "lines_done ls st st' \<longleftrightarrow>
     line_length (settings (run st')) = last (line_length (settings (run st)) # List.map_filter given_length ls) \<and>
     cfg_filters st' = cfg_filters st @ List.map_filter given_filter ls"

lemma lines_done_Nil [simp]: "lines_done [] st st' \<longleftrightarrow>
    line_length (settings (run st')) = line_length (settings (run st)) \<and> cfg_filters st' = cfg_filters st"
  by (simp add: lines_done_def List.map_filter_simps)

lemma lines_done_append: "lines_done ls st st1 \<Longrightarrow> lines_done ls' st1 st' \<Longrightarrow> lines_done (ls @ ls') st st'"
  by (auto simp: lines_done_def List.map_filter_def)

lemma set_extensions_length [simp]: "line_length (settings (set_extensions sys f s)) = line_length (settings s)"
  by (simp add: set_extensions_def Let_def)

lemma line_setting_cases:
  "config_line sys filename cfg_file base_name line st = (case line_setting line of
     None \<Rightarrow> Some (Inr st)
   | Some (name, val) \<Rightarrow>
       if name = ''exclude_files'' then exclude_files sys filename cfg_file base_name val st
       else Some (Inr (
          if name = ''set noparent'' then st\<lparr>keep_looking := False\<rparr>
          else if name = ''filter'' then st\<lparr>cfg_filters := cfg_filters st @ [val]\<rparr>
          else if name = ''linelength'' then set_line_length val st
          else if name = ''extensions'' then update_run (set_extensions sys (ProcessExtensionsOption val)) st
          else if name = ''root'' then update_settings (\<lambda>c. c\<lparr>root_option := Some (path_join (dirname cfg_file) val)\<rparr>) st
          else if name = ''headers'' then update_run (set_extensions sys (ProcessHppHeadersOption val)) st
          else update_run (update_world (PrintError (''Invalid configuration option ('' @ name @ '') in file '' @
            cfg_file @ [LF]))) st)))"
  by (simp add: config_line_def line_setting_def Let_def case_prod_beta)

lemma exclude_files_Inr: "exclude_files sys filename cfg_file base_name val st = Some (Inr st') \<Longrightarrow> st' = st"
  by (auto simp: exclude_files_def bind_eq_Some_conv split: if_splits)

lemma config_line_done:
  assumes "config_line sys filename cfg_file base_name line st = Some (Inr st')"
  shows "lines_done [line] st st' \<and> keep_looking st' = (keep_looking st \<and> \<not> stops_walk line)"
proof (cases "line_setting line")
  case None
  with assms show ?thesis
    by (simp add: line_setting_cases lines_done_def stops_walk_def given_length_def given_filter_def List.map_filter_simps)
next
  case (Some nv)
  obtain name val where nv: "nv = (name, val)" by fastforce
  note simps = line_setting_cases lines_done_def stops_walk_def given_length_def given_filter_def List.map_filter_simps
    update_run_def update_settings_def update_world_def set_line_length_def
  consider "name = ''exclude_files''" | "name = ''set noparent''" | "name = ''filter''" | "name = ''linelength''"
    | "name \<notin> {''exclude_files'', ''set noparent'', ''filter'', ''linelength''}" by blast
  then show ?thesis
  proof cases
    case 1
    with assms Some nv exclude_files_Inr show ?thesis by (fastforce simp: simps)
  next
    case 5
    with assms Some nv show ?thesis by (auto simp: simps split: if_splits)
  qed (use assms Some nv in \<open>auto simp: simps split: option.split\<close>)
qed

lemma config_lines_done:
  "config_lines sys filename cfg_file base_name ls st = Some (Inr st') \<Longrightarrow>
    lines_done ls st st' \<and> keep_looking st' = (keep_looking st \<and> \<not> list_ex stops_walk ls)"
proof (induction ls arbitrary: st)
  case (Cons line ls)
  then obtain st1 where 1: "config_line sys filename cfg_file base_name line st = Some (Inr st1)"
      "config_lines sys filename cfg_file base_name ls st1 = Some (Inr st')"
    by (auto split: option.splits sum.splits)
  from config_line_done [OF 1(1)] Cons.IH [OF 1(2)] lines_done_append [of "[line]" st st1 ls st'] show ?case by auto
qed simp

lemma config_walk_stopped [simp]: "\<not> keep_looking st \<Longrightarrow> config_walk sys filename abs_filename st = Some (Inr st)"
  by (subst config_walk.simps) simp

lemma config_walk_done:
  "config_walk sys filename abs_filename st = Some (Inr st') \<Longrightarrow> keep_looking st \<Longrightarrow> lines_done (config_read sys abs_filename) st st'"
proof (induction sys filename abs_filename st rule: config_walk.induct)
  case (1 sys filename abs_filename st)
  obtain abs_path base_name where split: "path_split abs_filename = (abs_path, base_name)" by fastforce
  let ?cfg = "path_join abs_path ''CPPLINT.cfg''"
  show ?case
  proof (cases "base_name = []")
    case True
    with "1.prems" split show ?thesis by (subst (asm) config_walk.simps, subst config_read.simps) auto
  next
    case False
    with "1.prems" split have "(case config_file sys filename ?cfg base_name st of
          Some (Inr st') \<Rightarrow> config_walk sys filename abs_path st' | r \<Rightarrow> r) = Some (Inr st')"
      by (subst (asm) config_walk.simps) simp
    then obtain st1 where st1: "config_file sys filename ?cfg base_name st = Some (Inr st1)"
        "config_walk sys filename abs_path st1 = Some (Inr st')"
      by (auto split: option.splits sum.splits)
    have IH: "keep_looking st1 \<Longrightarrow> lines_done (config_read sys abs_path) st1 st'"
      using "1.IH" [OF _ split [symmetric] _ st1(1) _ st1(2)] "1.prems"(2) False by simp
    have read: "config_read sys abs_filename =
        (if \<not> is_file sys ?cfg then config_read sys abs_path
         else case text_lines sys ?cfg of None \<Rightarrow> []
         | Some ls \<Rightarrow> ls @ (if list_ex stops_walk ls then [] else config_read sys abs_path))"
      using split False by (subst config_read.simps) simp
    consider "\<not> is_file sys ?cfg" | "is_file sys ?cfg" "text_lines sys ?cfg = None"
      | ls where "is_file sys ?cfg" "text_lines sys ?cfg = Some ls" by fastforce
    then show ?thesis
    proof cases
      case 1
      with st1(1) IH "1.prems"(2) read show ?thesis by (simp add: config_file_def)
    next
      case 2
      with st1 read show ?thesis by (auto simp: config_file_def update_run_def update_world_def)
    next
      case (3 ls)
      with st1(1) have lines: "config_lines sys filename ?cfg base_name ls st = Some (Inr st1)" by (simp add: config_file_def)
      note after = config_lines_done [OF lines]
      show ?thesis
      proof (cases "list_ex stops_walk ls")
        case True
        with after have "\<not> keep_looking st1" by simp
        with st1(2) have "st' = st1" by simp
        with after read 3 True show ?thesis by simp
      next
        case False
        with after IH "1.prems"(2) lines_done_append [of ls st st1 "config_read sys abs_path" st'] read 3 show ?thesis by simp
      qed
    qed
  qed
qed

text \<open>The filters in one value of \<open>filter\<close>.\<close>

definition filters_of :: "string \<Rightarrow> string list" where
  "filters_of fs = filter (\<lambda>f. f \<noteq> []) (map strip (split_sub '','' fs))"

lemma add_all_filters_done: "add_all_filters fs l = Inr l' \<Longrightarrow> filters l' = filters l @ concat (map filters_of fs)"
  by (induction fs arbitrary: l) (auto simp: AddFilters_Inr filters_of_def split: sum.splits)

text \<open>C10: the configuration of a file. The lines are read from the directory of the file upwards; the line length
  is the last one that is read, so that of the outermost file that sets one, whereas the filters are added in
  the opposite order, so that those of the innermost file come last and decide.\<close>

theorem config_order:
  assumes "ProcessConfigOverrides sys filename s = Inr (True, s1)"
  defines "ls \<equiv> config_read sys (abspath (paths (settings s)) filename)"
  shows "line_length (settings s1) = last (line_length (settings s) # List.map_filter given_length ls) \<and>
    filters (lint (handler_state s1)) =
      filters (lint (handler_state s)) @ concat (map filters_of (rev (List.map_filter given_filter ls)))"
proof -
  let ?st = "\<lparr>keep_looking = True, cfg_filters = [], run = s\<rparr>"
  from assms(1) obtain st l where st: "config_walk sys filename (abspath (paths (settings s)) filename) ?st = Some (Inr st)"
      "add_all_filters (rev (cfg_filters st)) (lint (handler_state (run st))) = Inr l"
      "s1 = update_world (update_lint (\<lambda>_. l)) (run st)"
    by (auto simp: ProcessConfigOverrides_def split: option.splits sum.splits)
  from config_walk_done [OF st(1)] have "lines_done ls ?st st" by (simp add: ls_def)
  moreover have "configured s (run st)" using config_walk_configured [OF st(1)] by simp
  ultimately show ?thesis
    using add_all_filters_done [OF st(2)] st(3) by (simp add: lines_done_def configured_def update_world_def update_lint_def)
qed

definition nested_configs :: "string \<Rightarrow> string list option" where
  "nested_configs f =
     (if f = ''/w/in/CPPLINT.cfg'' then Some [''linelength=100'' @ [LF], ''filter=+legal'' @ [LF]]
      else if f = ''/w/CPPLINT.cfg'' then Some [''# the project'' @ [LF], ''linelength=120'' @ [LF], ''filter=-legal,-build'' @ [LF]] else None)"

definition nested_system :: surroundings where
  "nested_system = example_system\<lparr>is_file := (\<lambda>f. nested_configs f \<noteq> None), text_lines := nested_configs\<rparr>"

theorem config_order_witness:
  "\<exists>s1. ProcessConfigOverrides nested_system ''/w/in/a.cc'' example_session = Inr (True, s1) \<and> line_length (settings s1) = 120 \<and>
     filters (lint (handler_state s1)) = filters (lint (handler_state example_session)) @ [''-legal'', ''-build'', ''+legal'']"
proof -
  have "case ProcessConfigOverrides nested_system ''/w/in/a.cc'' example_session of Inl e \<Rightarrow> False | Inr (go, s1) \<Rightarrow> go" by code_simp
  then obtain s1 where s1: "ProcessConfigOverrides nested_system ''/w/in/a.cc'' example_session = Inr (True, s1)"
    by (auto split: sum.splits)
  have "List.map_filter given_length (config_read nested_system (abspath (paths (settings example_session)) ''/w/in/a.cc'')) = [100, 120]"
    "concat (map filters_of (rev (List.map_filter given_filter
       (config_read nested_system (abspath (paths (settings example_session)) ''/w/in/a.cc''))))) = [''-legal'', ''-build'', ''+legal'']"
    by code_simp+
  with config_order [OF s1] s1 show ?thesis by simp
qed

end
