(* ===== verification/FileIndependence.thy ===== *)
theory FileIndependence
  imports ProcessData
begin

text \<open>
  The files of a run do not influence each other through the error handler: what \<open>ProcessFileData\<close> counts
  and prints for a file depends on the settings of the handler, and not on the errors that have been
  counted and the NOLINT comments that have been read before.
\<close>

section \<open>Two runs side by side\<close>

text \<open>What the handler has added since an earlier state: a count, output, and failures of the JUnit report.\<close>

definition adds :: "nat \<times> string list \<times> junit_failure list \<Rightarrow> world \<Rightarrow> world \<Rightarrow> bool" where
  "adds = (\<lambda>(n, out, fs) w w'. error_count (lint w') = error_count (lint w) + n \<and> stdout w' = stdout w \<and>
     stderr w' = stderr w @ out \<and> junit_failures (lint w') = junit_failures (lint w) @ fs)"

text \<open>The settings on which the decisions and the format of the handler rest.\<close>

definition same_settings :: "world \<Rightarrow> world \<Rightarrow> bool" where
  "same_settings w v \<longleftrightarrow> filters (lint v) = filters (lint w) \<and> verbose_level (lint v) = verbose_level (lint w) \<and>
     output_format (lint v) = output_format (lint w)"

text \<open>Two states that have come from \<open>w0\<close> and \<open>v0\<close> by the same reports.\<close>

definition twins :: "world \<Rightarrow> world \<Rightarrow> world \<Rightarrow> world \<Rightarrow> bool" where
  "twins w0 v0 w v \<longleftrightarrow> same_settings w v \<and> nolint v = nolint w \<and> (\<exists>r. adds r w0 w \<and> adds r v0 v)"

lemma adds_trans: "adds (n, out, fs) w w1 \<Longrightarrow> adds (n', out', fs') w1 w2 \<Longrightarrow> adds (n + n', out @ out', fs @ fs') w w2"
  by (simp add: adds_def)

lemma emit_writes:
  assumes "fmt \<noteq> ''junit''" shows "\<exists>m. \<forall>w. output_format (lint w) = fmt \<longrightarrow> emit d w = write_err m w"
proof -
  consider "fmt = ''vs7''" | "fmt = ''eclipse''" | "fmt \<notin> {''vs7'', ''eclipse'', ''junit''}" using assms by blast
  then show ?thesis
  proof cases
    case 1
    then show ?thesis by (simp add: emit_def Let_def PrintError_def cong: imp_cong) blast
  next
    case 2
    then show ?thesis by (simp add: emit_def Let_def cong: imp_cong) blast
  next
    case 3
    then show ?thesis by (simp add: emit_def Let_def cong: imp_cong) blast
  qed
qed

lemma emit_adds:
  "\<exists>r. \<forall>w. output_format (lint w) = fmt \<longrightarrow> adds (1, r) w (emit d (update_lint (IncrementErrorCount c) w))"
proof (cases "fmt = ''junit''")
  case True
  have "adds (1, [], [\<lparr>jf_filename = d_filename d, jf_linenum = d_linenum d, jf_message = d_message d, jf_category = d_category d,
      jf_confidence = d_confidence d\<rparr>]) w (emit d (update_lint (IncrementErrorCount c) w))" if "output_format (lint w) = fmt" for w
    using that True by (simp add: adds_def emit_def update_lint_def AddJUnitFailure_def IncrementErrorCount_def Let_def)
  then show ?thesis by blast
next
  case False
  then obtain m where m: "\<And>w. output_format (lint w) = fmt \<Longrightarrow> emit d w = write_err m w" using emit_writes by metis
  have "adds (1, [m], []) w (emit d (update_lint (IncrementErrorCount c) w))" if "output_format (lint w) = fmt" for w
    using that m [of "update_lint (IncrementErrorCount c) w"]
    by (simp add: adds_def update_lint_def IncrementErrorCount_def write_err_def Let_def)
  then show ?thesis by blast
qed

lemma twins_decide: "twins w0 v0 w v \<Longrightarrow> ShouldPrintError v d = ShouldPrintError w d"
  by (simp add: twins_def same_settings_def ShouldPrintError_def)

lemma twins_emit:
  assumes "twins w0 v0 w v"
  shows "twins w0 v0 (emit d (update_lint (IncrementErrorCount c) w)) (emit d (update_lint (IncrementErrorCount c) v))"
proof -
  from assms obtain r where r: "adds r w0 w" "adds r v0 v" and same: "same_settings w v" "nolint v = nolint w"
    unfolding twins_def by blast
  obtain n out fs where rs: "r = (n, out, fs)" by (cases r) auto
  obtain out' fs' where e: "\<And>u. output_format (lint u) = output_format (lint w) \<Longrightarrow>
      adds (1, out', fs') u (emit d (update_lint (IncrementErrorCount c) u))"
    using emit_adds [of "output_format (lint w)" d c] by auto
  have "output_format (lint v) = output_format (lint w)" using same(1) by (simp add: same_settings_def)
  with r rs e have "adds (n + 1, out @ out', fs @ fs') w0 (emit d (update_lint (IncrementErrorCount c) w))"
    "adds (n + 1, out @ out', fs @ fs') v0 (emit d (update_lint (IncrementErrorCount c) v))" by (blast intro: adds_trans)+
  moreover have "same_settings (emit d (update_lint (IncrementErrorCount c) w)) (emit d (update_lint (IncrementErrorCount c) v))"
    using same(1) by (simp add: same_settings_def update_lint_def)
  ultimately show ?thesis using same(2) unfolding twins_def by (auto simp: update_lint_def)
qed

lemma twins_nolint: "twins w0 v0 w v \<Longrightarrow> twins w0 v0 (w\<lparr>nolint := n\<rparr>) (v\<lparr>nolint := n\<rparr>)"
  by (auto simp: twins_def same_settings_def adds_def)

lemma twins_perform: "twins w0 v0 w v \<Longrightarrow> rel_option (twins w0 v0) (perform e w) (perform e v)"
proof (cases e)
  case (Suppress key line)
  assume t: "twins w0 v0 w v"
  then have "nolint v = nolint w" by (simp add: twins_def)
  with Suppress twins_nolint [OF t] show ?thesis by (simp add: perform_def)
next
  case (Report d)
  assume t: "twins w0 v0 w v"
  with Report twins_decide [OF t, of d] twins_emit [OF t] show ?thesis
    by (cases "ShouldPrintError w d") (auto simp: perform_def Error_def)
qed

lemma twins_perform_all: "twins w0 v0 w v \<Longrightarrow> rel_option (twins w0 v0) (perform_all es w) (perform_all es v)"
proof (induction es arbitrary: w v)
  case (Cons e es)
  from twins_perform [OF Cons.prems, of e] Cons.IH show ?case
    unfolding perform_all_def by (auto elim!: option.rel_cases)
qed (simp add: perform_all_def)

lemma rel_bind:
  "rel_option R x y \<Longrightarrow> (\<And>a b. R a b \<Longrightarrow> rel_option S (f a) (g b)) \<Longrightarrow> rel_option S (x \<bind> f) (y \<bind> g)"
  by (auto elim!: option.rel_cases)

lemma rel_bind_same: "(\<And>a. x = Some a \<Longrightarrow> rel_option S (f a) (g a)) \<Longrightarrow> rel_option S (x \<bind> f) (x \<bind> g)"
  by (cases x) auto

section \<open>A file\<close>

definition twin_lines :: "world \<Rightarrow> world \<Rightarrow> check_state \<times> world \<Rightarrow> check_state \<times> world \<Rightarrow> bool" where
  "twin_lines w0 v0 = rel_prod (=) (twins w0 v0)"

lemma twins_process_lines:
  "twins w0 v0 w v \<Longrightarrow> rel_option (twin_lines w0 v0)
    (process_lines cfg extra filename file_extension cl ls (st, w)) (process_lines cfg extra filename file_extension cl ls (st, v))"
proof (induction ls arbitrary: st w v)
  case (Cons line ls)
  then have "verbose_level (lint v) = verbose_level (lint w)" by (simp add: twins_def same_settings_def)
  then show ?case
    by (auto intro!: rel_bind_same rel_bind [OF twins_perform_all] Cons)
qed (simp add: twin_lines_def)

lemma twins_finish_file:
  "twins w0 v0 w v \<Longrightarrow> rel_option (twins w0 v0)
    (finish_file cfg read_header filename file_extension cl ls (st, w)) (finish_file cfg read_header filename file_extension cl ls (st, v))"
  unfolding finish_file_def
  by (auto intro!: rel_bind_same rel_bind [OF twins_perform_all] twins_perform_all)

definition twin_head :: "world \<Rightarrow> world \<Rightarrow> cleansed_lines \<times> string list \<times> world \<Rightarrow> cleansed_lines \<times> string list \<times> world \<Rightarrow> bool" where
  "twin_head w0 v0 = rel_prod (=) (rel_prod (=) (twins w0 v0))"

lemma twins_reset:
  "same_settings w v \<Longrightarrow> twins w v (w\<lparr>nolint := ResetNolintSuppressions (nolint w)\<rparr>) (v\<lparr>nolint := ResetNolintSuppressions (nolint v)\<rparr>)"
  by (auto simp: twins_def same_settings_def adds_def ResetNolintSuppressions_def intro!: exI [of _ "(0, [], [])"])

lemma twins_nolint_map: "twins w0 v0 w v \<Longrightarrow> twins w0 v0 (w\<lparr>nolint := f (nolint w)\<rparr>) (v\<lparr>nolint := f (nolint v)\<rparr>)"
  using twins_nolint [of w0 v0 w v "f (nolint w)"] by (simp add: twins_def)

lemma twins_head:
  assumes "same_settings w v"
  shows "rel_option (twin_head w v) (process_file_head opts env root repository filename ext ls w)
    (process_file_head opts env root repository filename ext ls v)"
  unfolding process_file_head_def Let_def case_prod_beta
  by (intro rel_bind [OF twins_perform_all [OF twins_reset [OF assms]]] rel_bind [OF twins_perform_all [OF twins_nolint_map]]
      rel_bind_same, assumption)
    (auto simp: twin_head_def intro!: rel_bind_same rel_bind [where R = "twins w v"] twins_perform_all)

lemma twins_file:
  assumes "same_settings w v"
  shows "rel_option (twins w v) (ProcessFileData cfg read_header extra filename file_extension ls w)
    (ProcessFileData cfg read_header extra filename file_extension ls v)"
  unfolding ProcessFileData_def
proof (rule rel_bind [OF twins_head [OF assms]])
  fix a b assume "twin_head w v a b"
  then obtain cl ls' w1 v1 where ab: "a = (cl, ls', w1)" "b = (cl, ls', v1)" and t: "twins w v w1 v1"
    by (cases a; cases b) (auto simp: twin_head_def)
  show "rel_option (twins w v)
      (case a of (cl, ls, u) \<Rightarrow> process_lines cfg extra filename file_extension cl [0 ..< NumLines cl] (check_state_init, u) \<bind>
        finish_file cfg read_header filename file_extension cl ls)
      (case b of (cl, ls, u) \<Rightarrow> process_lines cfg extra filename file_extension cl [0 ..< NumLines cl] (check_state_init, u) \<bind>
        finish_file cfg read_header filename file_extension cl ls)"
    unfolding ab prod.case
    by (rule rel_bind [OF twins_process_lines [OF t]]) (auto simp: twin_lines_def intro: twins_finish_file)
qed

text \<open>C5: what the checks of a file count and print does not depend on the files that have been checked before:
  from any two states of the handler with the same filters, verbosity and output format, whatever their
  counts, suppressed lines and output are, \<open>ProcessFileData\<close> adds the same to the count of errors, to standard
  error and to the JUnit report, and nothing to standard output.\<close>

theorem file_independent:
  assumes "ProcessFileData cfg read_header extra filename file_extension ls w = Some w'"
    "filters (lint v) = filters (lint w)" "verbose_level (lint v) = verbose_level (lint w)"
    "output_format (lint v) = output_format (lint w)"
  shows "\<exists>v' r. ProcessFileData cfg read_header extra filename file_extension ls v = Some v' \<and> adds r w w' \<and> adds r v v'"
proof -
  have "same_settings w v" using assms(2-4) by (simp add: same_settings_def)
  from twins_file [OF this, of cfg read_header extra filename file_extension ls] assms(1)
  show ?thesis by (auto simp: twins_def elim!: option.rel_cases)
qed

text \<open>A state in which another file has left an error and a global suppression.\<close>

definition used_world :: world where
  "used_world = example_world\<lparr>lint := (lint example_world)\<lparr>error_count := 7\<rparr>,
     nolint := ProcessGlobalSuppresions [''// LINT_C_FILE''] (nolint example_world), stderr := [''b.cc:1: ...'']\<rparr>"

theorem file_independent_witness:
  "\<exists>w' v' r. ProcessFileData example_config (\<lambda>_. None) [] ''a.cc'' ''cc'' [''int x;''] example_world = Some w' \<and>
     ProcessFileData example_config (\<lambda>_. None) [] ''a.cc'' ''cc'' [''int x;''] used_world = Some v' \<and>
     adds r example_world w' \<and> adds r used_world v'"
proof -
  let ?head = "process_file_head (extensions example_config) (paths example_config) (root_option example_config)
      (repository_option example_config) ''a.cc'' ''cc'' [''int x;''] example_world"
  have "case ?head of None \<Rightarrow> False | Some (cl, ls', w1) \<Rightarrow> NumLines cl = 3 \<and>
      list_all (\<lambda>n. \<not> line_stuck cl (nesting_after ''a.cc'' cl (Suc n)) n) [0, 1, 2]"
    by code_simp
  then obtain cl ls' w1 where head: "?head = Some (cl, ls', w1)" "NumLines cl = 3"
      "list_all (\<lambda>n. \<not> line_stuck cl (nesting_after ''a.cc'' cl (Suc n)) n) [0, 1, 2]"
    by (auto split: option.splits prod.splits)
  have "n < 3 \<Longrightarrow> n \<in> set [0, 1, 2]" for n :: nat by auto
  with head(2,3) have "\<not> file_stuck ''a.cc'' cl 0" unfolding list_all_iff file_stuck_def by metis
  moreover have "0 \<le> verbose_level (lint example_world)" "\<And>cl. extra_sound [] cl"
    by (simp_all add: example_world_def CppLintState_init_def extra_sound_def)
  ultimately obtain w' where w': "ProcessFileData example_config (\<lambda>_. None) [] ''a.cc'' ''cc'' [''int x;''] example_world = Some w'"
    using ProcessFileData_result [OF example_world_ok _ example_names _ head(1), of "[]" "\<lambda>_. None"] by auto
  from file_independent [OF w', of used_world] w' show ?thesis by (auto simp: used_world_def)
qed

end
