(* ===== verification/Handler.thy ===== *)
theory Handler
  imports LintState
begin

text \<open>
  The error handler against its specification. Whatever the checks report, one list decides: the errors that
  are accepted, those that no comment suppresses when they are reported, that reach the verbosity and that
  the filters keep. The counts, the output and the JUnit report are functions of this list.
\<close>

section \<open>The specification\<close>

definition kept :: "int \<Rightarrow> string list \<Rightarrow> diag \<Rightarrow> bool" where
  "kept level fs d \<longleftrightarrow> level \<le> d_confidence d \<and> \<not> filtered_out (d_category d) fs"

fun accepted :: "(diag \<Rightarrow> bool) \<Rightarrow> effect list \<Rightarrow> nolint_state \<Rightarrow> diag list" where
  "accepted keep [] suppressed = []"
| "accepted keep (Suppress key line # es) suppressed = accepted keep es (suppress_line key line suppressed)"
| "accepted keep (Report d # es) suppressed =
     (if IsErrorSuppressedByNolint suppressed (d_category d) (d_linenum d) \<or> \<not> keep d then [] else [d]) @
     accepted keep es suppressed"

definition error_line :: "string \<Rightarrow> diag \<Rightarrow> string" where
  "error_line fmt d =
     (let place = d_filename d; number = show_linenum (d_linenum d); confidence = ''['' @ show_int (d_confidence d) @ '']'' @ [LF] in
      if fmt = ''vs7'' then place @ ''('' @ number @ ''): error cpplint: ['' @ d_category d @ ''] '' @ d_message d @ '' '' @ confidence
      else place @ '':'' @ number @ (if fmt = ''eclipse'' then '': warning: '' else '':  '') @ d_message d @
        ''  ['' @ d_category d @ ''] '' @ confidence)"

definition failure_of :: "diag \<Rightarrow> junit_failure" where
  "failure_of d = \<lparr>jf_filename = d_filename d, jf_linenum = d_linenum d, jf_message = d_message d,
     jf_category = d_category d, jf_confidence = d_confidence d\<rparr>"

definition count_in :: "string \<Rightarrow> (string \<times> nat) list \<Rightarrow> nat" where
  "count_in k counts = (case map_of counts k of None \<Rightarrow> 0 | Some n \<Rightarrow> n)"

definition in_category :: "string \<Rightarrow> string \<Rightarrow> diag list \<Rightarrow> nat" where
  "in_category style k ds =
     (if style = ''toplevel'' \<or> style = ''detailed'' then length (filter (\<lambda>d. counted_category style (d_category d) = k) ds) else 0)"

text \<open>What the handler has done since an earlier state, given the errors that it has accepted.\<close>

definition reported :: "diag list \<Rightarrow> world \<Rightarrow> world \<Rightarrow> bool" where
  "reported ds w w' \<longleftrightarrow>
     error_count (lint w') = error_count (lint w) + length ds \<and>
     (\<forall>k. count_in k (errors_by_category (lint w')) =
        count_in k (errors_by_category (lint w)) + in_category (counting (lint w)) k ds) \<and>
     stdout w' = stdout w \<and>
     stderr w' = stderr w @ (if output_format (lint w) = ''junit'' then [] else map (error_line (output_format (lint w))) ds) \<and>
     junit_failures (lint w') = junit_failures (lint w) @ (if output_format (lint w) = ''junit'' then map failure_of ds else [])"

section \<open>The refinement\<close>

definition same_setup :: "world \<Rightarrow> world \<Rightarrow> bool" where
  "same_setup w w' \<longleftrightarrow> filters (lint w') = filters (lint w) \<and> filters_backup (lint w') = filters_backup (lint w) \<and>
     verbose_level (lint w') = verbose_level (lint w) \<and> output_format (lint w') = output_format (lint w) \<and>
     counting (lint w') = counting (lint w)"

lemma count_bump: "count_in k (bump c counts) = count_in k counts + (if c = k then 1 else 0)"
  by (induction c counts rule: bump.induct) (auto simp: count_in_def)

lemma reported_refl: "reported [] w w"
  by (simp add: reported_def in_category_def)

lemma reported_trans:
  assumes "reported ds w w1" "reported ds' w1 w2" "same_setup w w1" shows "reported (ds @ ds') w w2"
  using assms by (simp add: reported_def same_setup_def in_category_def)

lemma emit_reported:
  "reported [d] w (emit d (update_lint (IncrementErrorCount (d_category d)) w))"
proof -
  let ?w = "update_lint (IncrementErrorCount (d_category d)) w"
  have "stderr (emit d ?w) = stderr w @ (if output_format (lint w) = ''junit'' then [] else [error_line (output_format (lint w)) d])"
    "stdout (emit d ?w) = stdout w"
    "junit_failures (lint (emit d ?w)) = junit_failures (lint w) @ (if output_format (lint w) = ''junit'' then [failure_of d] else [])"
    by (simp_all add: emit_def Let_def error_line_def failure_of_def PrintError_def write_err_def update_lint_def AddJUnitFailure_def
        IncrementErrorCount_def)
  moreover have "count_in k (errors_by_category (lint (emit d ?w))) =
      count_in k (errors_by_category (lint w)) + in_category (counting (lint w)) k [d]" for k
    by (auto simp: update_lint_def IncrementErrorCount_def Let_def count_bump in_category_def)
  ultimately show ?thesis by (simp add: reported_def update_lint_def)
qed

lemma emit_setup: "same_setup w (emit d (update_lint (IncrementErrorCount c) w))"
  by (simp add: same_setup_def update_lint_def)

lemma perform_reported:
  assumes "filters_ok w"
  shows "\<exists>w'. perform e w = Some w' \<and> same_setup w w' \<and>
    reported (accepted (kept (verbose_level (lint w)) (filters (lint w))) [e] (nolint w)) w w' \<and>
    nolint w' = (case e of Suppress key line \<Rightarrow> suppress_line key line (nolint w) | Report d \<Rightarrow> nolint w)"
proof (cases e)
  case (Suppress key line)
  then show ?thesis by (auto simp: perform_def same_setup_def reported_def in_category_def)
next
  case (Report d)
  let ?acc = "accepted (kept (verbose_level (lint w)) (filters (lint w))) [e] (nolint w)"
  have should: "ShouldPrintError w d = Some (?acc = [d])" "?acc = [d] \<or> ?acc = []"
    using assms Report by (auto simp: ShouldPrintError_def run_filters_filtered_out filters_ok_def kept_def)
  show ?thesis
  proof (cases "?acc = [d]")
    case True
    then have "perform e w = Some (emit d (update_lint (IncrementErrorCount (d_category d)) w))"
      using Report should(1) by (simp add: perform_def Error_def)
    moreover have "reported ?acc w (emit d (update_lint (IncrementErrorCount (d_category d)) w))"
      unfolding True by (rule emit_reported)
    ultimately show ?thesis using emit_setup [of w d "d_category d"] Report by (simp add: update_lint_def)
  next
    case False
    then have "perform e w = Some w" using Report should(1) by (simp add: perform_def Error_def)
    moreover have "?acc = []" using False should(2) by blast
    ultimately show ?thesis using Report reported_refl [of w] by (simp add: same_setup_def)
  qed
qed

lemma perform_all_reported:
  "filters_ok w \<Longrightarrow> \<exists>w'. perform_all es w = Some w' \<and> same_setup w w' \<and>
    reported (accepted (kept (verbose_level (lint w)) (filters (lint w))) es (nolint w)) w w'"
proof (induction es arbitrary: w)
  case Nil
  then show ?case by (simp add: perform_all_def reported_refl same_setup_def)
next
  case (Cons e es)
  let ?keep = "kept (verbose_level (lint w)) (filters (lint w))"
  from perform_reported [OF Cons.prems, of e] obtain w1 where w1: "perform e w = Some w1" "same_setup w w1"
    "reported (accepted ?keep [e] (nolint w)) w w1"
    "nolint w1 = (case e of Suppress key line \<Rightarrow> suppress_line key line (nolint w) | Report d \<Rightarrow> nolint w)" by blast
  have "filters_ok w1" using Cons.prems w1(2) by (simp add: filters_ok_def same_setup_def)
  from Cons.IH [OF this] w1(2) obtain w2 where w2: "perform_all es w1 = Some w2" "same_setup w1 w2"
    "reported (accepted ?keep es (nolint w1)) w1 w2" by (auto simp: same_setup_def)
  have "accepted ?keep (e # es) (nolint w) = accepted ?keep [e] (nolint w) @ accepted ?keep es (nolint w1)"
    using w1(4) by (cases e) simp_all
  with reported_trans [OF w1(3) w2(3) w1(2)] w1(1,2) w2(1,2) show ?case
    by (simp add: perform_all_def same_setup_def)
qed

text \<open>C16: the handler refines its specification: from any state with well-formed filters, the effects of the checks
  lead to a state in which the total, the counts of the categories, standard error and the JUnit report have
  grown by exactly the accepted errors, once each and in their order.\<close>

theorem handler_refines:
  assumes "filters_ok w"
  shows "\<exists>w'. perform_all es w = Some w' \<and>
    reported (accepted (kept (verbose_level (lint w)) (filters (lint w))) es (nolint w)) w w'"
  using perform_all_reported [OF assms] by blast

text \<open>The second error is on a line that is suppressed before it is reported, and the third is filtered out.\<close>

definition example_effects :: "effect list" where
  "example_effects = [Report (mk_error ''a.cc'' 3 ''build/include'' 4 ''m''), Suppress None 4,
     Report (mk_error ''a.cc'' 4 ''whitespace/tab'' 1 ''n''), Report (mk_error ''a.cc'' 5 ''build/include_alpha'' 4 ''o'')]"

theorem handler_refines_witness:
  "\<exists>w'. perform_all example_effects example_world = Some w' \<and> error_count (lint w') = 1 \<and>
     stderr w' = [''a.cc:3:  m  [build/include] [4]'' @ [LF]]"
proof -
  let ?acc = "accepted (kept (verbose_level (lint example_world)) (filters (lint example_world))) example_effects (nolint example_world)"
  have "?acc = [mk_error ''a.cc'' 3 ''build/include'' 4 ''m'']" by code_simp
  with handler_refines [OF example_world_ok, of example_effects] obtain w' where
    w': "perform_all example_effects example_world = Some w'" "reported [mk_error ''a.cc'' 3 ''build/include'' 4 ''m''] example_world w'"
    by auto
  have "error_count (lint example_world) = 0" "stderr example_world = []" "output_format (lint example_world) = ''emacs''"
    "error_line ''emacs'' (mk_error ''a.cc'' 3 ''build/include'' 4 ''m'') = ''a.cc:3:  m  [build/include] [4]'' @ [LF]"
    by code_simp+
  with w' show ?thesis by (auto simp: reported_def)
qed

end
