(* ===== verification/Literals.thy ===== *)
theory Literals
  imports Cleanse
begin

text \<open>
  What \<open>CollapseStrings\<close> does to a line: every string literal, whatever its text and its escape sequences,
  becomes a pair of quotes, and digit separators are dropped. The specification is an inductive reading
  of a line as a sequence of code, literals and numbers with separators.
\<close>

section \<open>Escape sequences\<close>

definition hex_digit :: "char \<Rightarrow> bool" where
  "hex_digit c \<longleftrightarrow> py_digit c \<or> c \<in> set ''abcdefABCDEF''"

definition simple_escape :: "char \<Rightarrow> bool" where
  "simple_escape c \<longleftrightarrow> c \<in> set (''abfnrtv?'' @ [DQ, BSL, SQ])"

text \<open>What follows an escape sequence, given what follows its backslash.\<close>

definition escape_rest :: "string \<Rightarrow> string option" where
  "escape_rest s = (case s of
     [] \<Rightarrow> None
   | c # t \<Rightarrow>
       if simple_escape c then Some t
       else if py_digit c then Some (dropWhile py_digit t)
       else if c = CHR ''x'' \<and> t \<noteq> [] \<and> hex_digit (hd t) then Some (dropWhile hex_digit (tl t))
       else None)"

lemma escape_rest_shorter: "escape_rest s = Some t \<Longrightarrow> length t < length s"
  using length_dropWhile_le [of py_digit "tl s"] length_dropWhile_le [of hex_digit "tl (tl s)"]
  by (auto simp: escape_rest_def split: list.splits if_splits)

function strip_escapes :: "string \<Rightarrow> string" where
  "strip_escapes s = (case s of
     [] \<Rightarrow> []
   | c # t \<Rightarrow>
       if c = BSL then (case escape_rest t of Some rest \<Rightarrow> strip_escapes rest | None \<Rightarrow> c # strip_escapes t)
       else c # strip_escapes t)"
  by pat_completeness auto
termination by (relation "measure length") (auto dest: escape_rest_shorter)

declare strip_escapes.simps [simp del]

lemma strip_escapes_simps [simp]:
  "strip_escapes [] = []"
  "c \<noteq> BSL \<Longrightarrow> strip_escapes (c # t) = c # strip_escapes t"
  "strip_escapes (BSL # t) = (case escape_rest t of Some rest \<Rightarrow> strip_escapes rest | None \<Rightarrow> BSL # strip_escapes t)"
  by (subst strip_escapes.simps, simp)+

text \<open>A greedy repetition of a class takes as much as it can first.\<close>

lemma star_cls_first: "\<exists>ts. rmatch (Star (Cls f)) p q c = (rev (takeWhile f q) @ p, dropWhile f q, c) # ts"
proof (induction q arbitrary: p)
  case Nil
  show ?case by (simp add: rmatch.simps(5))
next
  case (Cons x q)
  show ?case
  proof (cases "f x")
    case True
    from Cons.IH [of "x # p"] obtain ts where "rmatch (Star (Cls f)) (x # p) q c =
        (rev (takeWhile f q) @ x # p, dropWhile f q, c) # ts" by blast
    with True show ?thesis by (subst rmatch.simps(5)) simp
  qed (subst rmatch.simps(5), simp)
qed

lemma rmatch_rplus: "rmatch (rplus (Cls f)) p (x # q) c = (if f x then rmatch (Star (Cls f)) (x # p) q c else [])"
  by (simp add: rplus_def)

lemma escape_alternatives:
  "rmatch re_cleanse_line_escapes p (BSL # c # u) [] = map (\<lambda>(p', q', c'). (p', q', (1, BSL # p, p') # c'))
     ((if simple_escape c then [(c # BSL # p, u, [])] else []) @
      (if py_digit c then rmatch (Star (Cls py_digit)) (c # BSL # p) u [] else []) @
      (if c = CHR ''x'' \<and> u \<noteq> [] \<and> hex_digit (hd u)
       then rmatch (Star (Cls hex_digit)) (hd u # c # BSL # p) (tl u) [] else []))"
proof -
  have hex: "(\<lambda>c. py_digit c \<or> c \<in> set ''abcdefABCDEF'') = hex_digit" by (simp add: hex_digit_def fun_eq_iff)
  have "rmatch (Seq (rchr (CHR ''x'')) (rplus (Cls hex_digit))) (BSL # p) (c # u) [] =
      (if c = CHR ''x'' \<and> u \<noteq> [] \<and> hex_digit (hd u)
       then rmatch (Star (Cls hex_digit)) (hd u # c # BSL # p) (tl u) [] else [])"
    by (cases u) (simp_all add: rchr_def rmatch_rplus, simp add: rplus_def)
  moreover have "rmatch (one_of (''abfnrtv?'' @ [DQ, BSL, SQ])) (BSL # p) (c # u) [] = (if simple_escape c then [(c # BSL # p, u, [])] else [])"
    unfolding one_of_def simple_escape_def by (simp only: rmatch.simps list.case)
  moreover have "rmatch (rplus rdigit) (BSL # p) (c # u) [] = (if py_digit c then rmatch (Star (Cls py_digit)) (c # BSL # p) u [] else [])"
    unfolding rdigit_def by (rule rmatch_rplus)
  moreover have "rmatch re_cleanse_line_escapes p (BSL # c # u) [] = map (\<lambda>(p', q', c'). (p', q', (1, BSL # p, p') # c'))
      (rmatch (one_of (''abfnrtv?'' @ [DQ, BSL, SQ])) (BSL # p) (c # u) [] @ rmatch (rplus rdigit) (BSL # p) (c # u) [] @
       rmatch (Seq (rchr (CHR ''x'')) (rplus (Cls hex_digit))) (BSL # p) (c # u) [])"
    unfolding re_cleanse_line_escapes_def hex rseq.simps ralt.simps rchr_def by simp
  ultimately show ?thesis by simp
qed

lemma escape_match:
  "case escape_rest t of
     None \<Rightarrow> rmatch re_cleanse_line_escapes p (BSL # t) [] = []
   | Some rest \<Rightarrow> \<exists>p' c ts. rmatch re_cleanse_line_escapes p (BSL # t) [] = (p', rest, c) # ts"
proof (cases t)
  case Nil
  then show ?thesis by (simp add: escape_rest_def re_cleanse_line_escapes_def rchr_def one_of_def rplus_def rdigit_def)
next
  case (Cons c u)
  have "\<not> py_digit (CHR ''x'')" "\<not> simple_escape (CHR ''x'')" by code_simp+
  moreover obtain ds where "rmatch (Star (Cls py_digit)) (c # BSL # p) u [] =
      (rev (takeWhile py_digit u) @ c # BSL # p, dropWhile py_digit u, []) # ds"
    using star_cls_first [of py_digit "c # BSL # p" u "[]"] by blast
  moreover obtain hs where "rmatch (Star (Cls hex_digit)) (hd u # c # BSL # p) (tl u) [] =
      (rev (takeWhile hex_digit (tl u)) @ hd u # c # BSL # p, dropWhile hex_digit (tl u), []) # hs"
    using star_cls_first [of hex_digit "hd u # c # BSL # p" "tl u" "[]"] by blast
  ultimately show ?thesis
    unfolding Cons escape_alternatives by (auto simp: escape_rest_def)
qed

lemma sub_escapes: "sub_from True re_cleanse_line_escapes (\<lambda>_. []) p s = strip_escapes s"
proof (induction "length s" arbitrary: p s rule: less_induct)
  case less
  show ?case
  proof (cases s)
    case Nil
    then have "rmatch re_cleanse_line_escapes p s [] = []"
      by (simp add: re_cleanse_line_escapes_def rchr_def)
    with Nil show ?thesis by (subst sub_from.simps) (simp add: sub_match_def)
  next
    case (Cons c t)
    show ?thesis
    proof (cases "c = BSL")
      case False
      with Cons have "rmatch re_cleanse_line_escapes p s [] = []" by (simp add: re_cleanse_line_escapes_def rchr_def)
      with Cons False less show ?thesis by (subst sub_from.simps) (simp add: sub_match_def)
    next
      case True
      show ?thesis
      proof (cases "escape_rest t")
        case None
        with escape_match [where t = t and p = p] Cons True less show ?thesis by (subst sub_from.simps) (simp add: sub_match_def)
      next
        case (Some rest)
        with escape_match [where t = t and p = p] Cons True obtain p' c' ts where
          m: "rmatch re_cleanse_line_escapes p s [] = (p', rest, c') # ts" by auto
        have shorter: "length rest < length s" using escape_rest_shorter [OF Some] Cons by simp
        have "sub_from True re_cleanse_line_escapes (\<lambda>_. []) p s = sub_from True re_cleanse_line_escapes (\<lambda>_. []) p' rest"
          using m shorter by (subst sub_from.simps) (simp add: sub_match_def)
        with less [OF shorter] Some Cons True show ?thesis by simp
      qed
    qed
  qed
qed

lemma escapes_removed: "re_sub re_cleanse_line_escapes (\<lambda>_. []) s = strip_escapes s"
  by (simp add: re_sub_def sub_escapes)

section \<open>The lines of literals\<close>

text \<open>Code without quotes; the text of a literal with the quote \<open>q\<close>; and a text that ends in a number.\<close>

definition plain :: "string \<Rightarrow> bool" where
  "plain w \<longleftrightarrow> set w \<inter> {SQ, DQ, BSL, LF} = {}"

inductive literal_body :: "char \<Rightarrow> string \<Rightarrow> bool" for q where
  Empty: "literal_body q []"
| Char: "c \<notin> {q, BSL, LF} \<Longrightarrow> literal_body q b \<Longrightarrow> literal_body q (c # b)"
| Escape: "simple_escape c \<or> py_digit c \<Longrightarrow> literal_body q b \<Longrightarrow> literal_body q (BSL # c # b)"
| Hex: "hex_digit c \<Longrightarrow> literal_body q b \<Longrightarrow> literal_body q (BSL # CHR ''x'' # c # b)"

definition number :: "string \<Rightarrow> bool" where
  "number n \<longleftrightarrow> (\<exists>b ds. n = b @ ds \<and> list_all hex_digit ds \<and>
     (b = ''0'' \<or> (\<exists>x \<in> set ''bBxX''. b = [CHR ''0'', x]) \<or> (\<exists>d \<in> set ''123456789''. b = [d])))"

definition ends_in_number :: "string \<Rightarrow> bool" where
  "ends_in_number w \<longleftrightarrow> (\<exists>u n. w = u @ n \<and> number n \<and> (u = [] \<or> \<not> py_word (last u)))"

text \<open>Groups of digits and letters, each after at most one separator.\<close>

fun separated :: "string \<Rightarrow> bool" where
  "separated [] = True"
| "separated (c # s) =
     (if c = SQ then (case s of [] \<Rightarrow> False | a # t \<Rightarrow> (ascii_alnum a \<or> a = CHR ''_'') \<and> separated t)
      else (ascii_alnum c \<or> c = CHR ''_'') \<and> separated s)"

inductive collapsed :: "string \<Rightarrow> string \<Rightarrow> bool" where
  Code: "plain w \<Longrightarrow> collapsed w w"
| Literal: "plain w \<Longrightarrow> q = DQ \<or> q = SQ \<and> \<not> ends_in_number w \<Longrightarrow> literal_body q b \<Longrightarrow> collapsed s t \<Longrightarrow>
    collapsed (w @ q # b @ q # s) (w @ [q, q] @ t)"
| Separators: "plain w \<Longrightarrow> ends_in_number w \<Longrightarrow> separated (SQ # d) \<Longrightarrow>
    s = [] \<or> \<not> (ascii_alnum (hd s) \<or> hd s \<in> {CHR ''_'', SQ}) \<Longrightarrow> collapsed s t \<Longrightarrow>
    collapsed (w @ SQ # d @ s) (w @ filter (\<lambda>c. c \<noteq> SQ) d @ t)"
| Unclosed: "plain w \<Longrightarrow> q = DQ \<or> q = SQ \<and> \<not> ends_in_number w \<Longrightarrow> set b \<inter> {q, BSL, LF} = {} \<Longrightarrow>
    collapsed (w @ q # b) (w @ q # b)"

text \<open>The patterns of the code against this reading.\<close>

lemma number_word: "number n \<Longrightarrow> \<exists>c m. n = c # m \<and> py_word c"
proof -
  have "py_word (CHR ''0'')" "\<forall>d \<in> set ''123456789''. py_word d" by code_simp+
  then show "number n \<Longrightarrow> \<exists>c m. n = c # m \<and> py_word c" by (fastforce simp: number_def)
qed

lemma number_start_rel:
  "((p, q), (p', q')) \<in> re_rel (ralt [rseq [rchr z, ropt (one_of xs)], one_of ds]) \<longleftrightarrow>
    (\<exists>b. q = b @ q' \<and> p' = rev b @ p \<and> (b = [z] \<or> (\<exists>x \<in> set xs. b = [z, x]) \<or> (\<exists>d \<in> set ds. b = [d])))"
  (is "?l \<longleftrightarrow> ?r")
proof
  assume ?l then show ?r by (auto simp: relcomp_unfold)
next
  assume ?r then show ?l by (auto simp: relcomp_unfold)
qed

lemma number_pattern_rel:
  "((p, q), (p', q')) \<in> re_rel (rseq [WordB, r, Star (Cls f), Eol]) \<longleftrightarrow> at_word_boundary p q \<and>
    (\<exists>p1 q1. ((p, q), (p1, q1)) \<in> re_rel r \<and> (\<exists>w. q1 = w @ q' \<and> p' = rev w @ p1 \<and> list_all f w)) \<and> (q' = [] \<or> q' = [LF])"
  (is "?l \<longleftrightarrow> ?r")
proof
  assume ?l then show ?r by (auto simp: relcomp_unfold)
next
  assume ?r then show ?l by (auto simp: relcomp_unfold)
qed

lemma two_parts:
  "(\<exists>p1 q1. (\<exists>b. q = b @ q1 \<and> p1 = rev b @ p \<and> S b) \<and> (\<exists>w. q1 = w @ q' \<and> p' = rev w @ p1 \<and> H w)) \<longleftrightarrow>
    (\<exists>n. q = n @ q' \<and> p' = rev n @ p \<and> (\<exists>b w. n = b @ w \<and> H w \<and> S b))"
  (is "?l \<longleftrightarrow> ?r")
proof
  assume ?l
  then obtain b w where "q = b @ w @ q'" "p' = rev w @ rev b @ p" "S b" "H w" by auto
  then show ?r by (intro exI [of _ "b @ w"]) auto
next
  assume ?r
  then obtain b w where "q = b @ w @ q'" "p' = rev w @ rev b @ p" "S b" "H w" by auto
  then show ?l by auto
qed

lemma re_number_rel:
  "((p, q), (p', q')) \<in> re_rel re_number_before \<longleftrightarrow>
    at_word_boundary p q \<and> (\<exists>n. q = n @ q' \<and> p' = rev n @ p \<and> number n) \<and> (q' = [] \<or> q' = [LF])"
proof -
  have "(\<lambda>c. py_digit c \<or> c \<in> set ''abcdefABCDEF'') = hex_digit" by (simp add: hex_digit_def fun_eq_iff)
  then show ?thesis
    unfolding re_number_before_def number_pattern_rel number_start_rel two_parts number_def by (simp only:)
qed

lemma number_found:
  assumes "plain w" shows "found re_number_before w \<longleftrightarrow> ends_in_number w"
proof -
  from assms have lf: "LF \<notin> set w" by (simp add: plain_def)
  have "found re_number_before w \<longleftrightarrow> (\<exists>u v p' q'. w = u @ v \<and> ((rev u, v), (p', q')) \<in> re_rel re_number_before)"
    by (simp add: found_rel split_paired_Ex)
  also have "\<dots> \<longleftrightarrow> (\<exists>u n. w = u @ n \<and> at_word_boundary (rev u) n \<and> number n)"
  proof
    assume "\<exists>u v p' q'. w = u @ v \<and> ((rev u, v), (p', q')) \<in> re_rel re_number_before"
    then obtain u v n q' where "w = u @ v" "at_word_boundary (rev u) v" "v = n @ q'" "number n" "q' = [] \<or> q' = [LF]"
      unfolding re_number_rel by blast
    moreover from this lf have "q' = []" by auto
    ultimately show "\<exists>u n. w = u @ n \<and> at_word_boundary (rev u) n \<and> number n" by (intro exI [of _ u] exI [of _ n]) simp
  next
    assume "\<exists>u n. w = u @ n \<and> at_word_boundary (rev u) n \<and> number n"
    then obtain u n where "w = u @ n" "at_word_boundary (rev u) n" "number n" by blast
    then have "w = u @ n \<and> ((rev u, n), (rev n @ rev u, [])) \<in> re_rel re_number_before" unfolding re_number_rel by simp
    then show "\<exists>u v p' q'. w = u @ v \<and> ((rev u, v), (p', q')) \<in> re_rel re_number_before" by blast
  qed
  also have "\<dots> \<longleftrightarrow> ends_in_number w"
  proof -
    have "at_word_boundary (rev u) n \<and> number n \<longleftrightarrow> number n \<and> (u = [] \<or> \<not> py_word (last u))" for u n
      using number_word [of n] by (cases u rule: rev_cases) (auto simp: at_word_boundary_def)
    then show ?thesis by (simp only: ends_in_number_def)
  qed
  finally show ?thesis .
qed

lemma strip_plain: "BSL \<notin> set w \<Longrightarrow> strip_escapes (w @ s) = w @ strip_escapes s"
  by (induction w) auto

lemma escape_rest_subset: "escape_rest t = Some rest \<Longrightarrow> set rest \<subseteq> set t"
  by (auto simp: escape_rest_def split: list.splits if_splits dest!: set_dropWhileD dest: list.set_sel(2))

lemma strip_subset: "set (strip_escapes s) \<subseteq> set s"
proof (induction "length s" arbitrary: s rule: less_induct)
  case less
  show ?case
  proof (cases s)
    case (Cons c t)
    have t: "set (strip_escapes t) \<subseteq> set t" using less Cons by simp
    show ?thesis
    proof (cases "c = BSL")
      case True
      show ?thesis
      proof (cases "escape_rest t")
        case (Some rest)
        then have "set (strip_escapes rest) \<subseteq> set rest" using less escape_rest_shorter [OF Some] Cons by simp
        with escape_rest_subset [OF Some] Cons Some True show ?thesis by auto
      qed (use t Cons True in auto)
    qed (use t Cons in auto)
  qed simp
qed

lemma body_drop: "literal_body q b \<Longrightarrow> \<not> f BSL \<Longrightarrow> literal_body q (dropWhile f b)"
  by (induction rule: literal_body.induct) (auto intro: literal_body.intros)

lemma strip_body:
  assumes "literal_body q b" "q = DQ \<or> q = SQ"
  shows "\<exists>b'. set b' \<inter> {q, LF} = {} \<and> (\<forall>s. strip_escapes (b @ q # s) = b' @ q # strip_escapes s)"
  using assms
proof (induction "length b" arbitrary: b rule: less_induct)
  case less
  have q: "\<not> py_digit q" "\<not> hex_digit q" "q \<noteq> BSL" using less.prems(2) by (auto simp: hex_digit_def) code_simp+
  have bsl: "\<not> py_digit BSL" "\<not> hex_digit BSL" by code_simp+
  have drop: "dropWhile f (b @ q # s) = dropWhile f b @ q # s" if "\<not> f q" for f b s
    using that by (simp add: dropWhile_append)
  from less.prems(1) show ?case
  proof cases
    case Empty
    with q show ?thesis by (intro exI [of _ "[]"]) simp
  next
    case (Char c b1)
    with less obtain b' where "set b' \<inter> {q, LF} = {}" "\<And>s. strip_escapes (b1 @ q # s) = b' @ q # strip_escapes s" by auto
    with Char show ?thesis by (intro exI [of _ "c # b'"]) auto
  next
    case (Escape c b1)
    let ?b = "if simple_escape c then b1 else dropWhile py_digit b1"
    have "literal_body q ?b" "length ?b < length b"
      using Escape body_drop [OF Escape(3), of py_digit] bsl length_dropWhile_le [of py_digit b1] by auto
    with less obtain b' where b': "set b' \<inter> {q, LF} = {}" "\<And>s. strip_escapes (?b @ q # s) = b' @ q # strip_escapes s" by meson
    have "strip_escapes (b @ q # s) = strip_escapes (?b @ q # s)" for s
      using Escape drop [of py_digit, OF q(1)] by (auto simp: escape_rest_def)
    with b' show ?thesis by auto
  next
    case (Hex c b1)
    let ?b = "dropWhile hex_digit b1"
    have x: "\<not> simple_escape (CHR ''x'')" "\<not> py_digit (CHR ''x'')" by code_simp+
    have "literal_body q ?b" "length ?b < length b"
      using Hex body_drop [OF Hex(3), of hex_digit] bsl length_dropWhile_le [of hex_digit b1] by auto
    with less obtain b' where b': "set b' \<inter> {q, LF} = {}" "\<And>s. strip_escapes (?b @ q # s) = b' @ q # strip_escapes s" by meson
    have "strip_escapes (b @ q # s) = strip_escapes (?b @ q # s)" for s
      using Hex x drop [of hex_digit, OF q(2)] by (simp add: escape_rest_def)
    with b' show ?thesis by auto
  qed
qed

section \<open>The loop over the quotes\<close>

lemma re_first_quote_match:
  assumes "SQ \<notin> set w" "DQ \<notin> set w" "c = SQ \<or> c = DQ" "LF \<notin> set t"
  shows "\<exists>m. re_match re_first_quote (w @ c # t) = Some m \<and> group_text m 1 = w \<and>
    group_text m 2 = [c] \<and> group_text m 3 = t"
proof -
  have "(([], w @ c # t), (rev (w @ c # t), [])) \<in> re_rel re_first_quote"
    unfolding re_first_quote_def rel_rseq_Cons
    by (intro relcompI [where b = "([], w @ c # t)"] relcompI [where b = "(rev w, c # t)"]
        relcompI [where b = "(c # rev w, t)"] relcompI [where b = "(rev t @ c # rev w, [])"])
       (use assms in auto)
  then obtain m where m: "re_match re_first_quote (w @ c # t) = Some m"
    by (auto simp: re_match_def) (metis first_match_None not_None_eq)
  then obtain w' c' t' rest where parts: "w @ c # t = w' @ c' # t' @ rest" "group_text m 1 = w'" "group_text m 2 = [c']"
    "group_text m 3 = t'" "c' = SQ \<or> c' = DQ" "SQ \<notin> set w'" "DQ \<notin> set w'" "rest = [] \<or> rest = [LF]"
    by (elim re_first_quote_groups) blast
  have "w = takeWhile (\<lambda>x. x \<noteq> SQ \<and> x \<noteq> DQ) (w @ c # t)" using assms by (auto simp: takeWhile_append)
  also have "\<dots> = w'" unfolding parts(1) using parts by (auto simp: takeWhile_append)
  finally have "w = w'" .
  with parts(1) have "c = c'" "t = t' @ rest" by auto
  with assms(4) parts(8) have "t' = t" by auto
  with m parts \<open>w = w'\<close> \<open>c = c'\<close> show ?thesis by blast
qed

lemma no_quote: "SQ \<notin> set w \<Longrightarrow> DQ \<notin> set w \<Longrightarrow> re_match re_first_quote w = None"
  by (rule ccontr) (auto elim!: re_first_quote_groups)

lemma quotes_differ [simp]: "SQ \<noteq> DQ" "DQ \<noteq> SQ"
  by code_simp+

lemma find_quote: "find_sub (b @ q # s) [q] = Some (length b)" if "q \<notin> set b"
  using that by (simp add: find_sub_char_Some)

lemma collapse_literal:
  assumes "plain w" "q = DQ \<or> q = SQ \<and> \<not> ends_in_number w" "q \<notin> set b" "LF \<notin> set (b @ q # s)"
  shows "collapse_quotes acc (w @ q # b @ q # s) = collapse_quotes (acc @ w @ [q, q]) s"
proof -
  have "SQ \<notin> set w" "DQ \<notin> set w" "q = SQ \<or> q = DQ" using assms(1,2) by (auto simp: plain_def)
  from re_first_quote_match [OF this assms(4)]
  obtain m where m: "re_match re_first_quote (w @ q # b @ q # s) = Some m" "group_text m 1 = w"
    "group_text m 2 = [q]" "group_text m 3 = b @ q # s" by auto
  have "q = SQ \<Longrightarrow> \<not> found re_number_before w" using assms(1,2) number_found by auto
  with m assms(2) find_quote [OF assms(3), of s] show ?thesis
    by (subst (1) collapse_quotes.simps) (auto simp: Let_def)
qed

lemma collapse_unclosed:
  assumes "plain w" "q = DQ \<or> q = SQ \<and> \<not> ends_in_number w" "q \<notin> set b" "LF \<notin> set b"
  shows "collapse_quotes acc (w @ q # b) = Some (acc @ w @ q # b)"
proof -
  have "SQ \<notin> set w" "DQ \<notin> set w" "q = SQ \<or> q = DQ" using assms(1,2) by (auto simp: plain_def)
  from re_first_quote_match [OF this assms(4)]
  obtain m where m: "re_match re_first_quote (w @ q # b) = Some m" "group_text m 1 = w" "group_text m 2 = [q]" "group_text m 3 = b"
    by auto
  have "q = SQ \<Longrightarrow> \<not> found re_number_before w" using assms(1,2) number_found by auto
  moreover have "find_sub b [q] = None" using assms(3) by (simp add: find_sub_None contains_iff in_set_conv_decomp)
  ultimately have "(case find_sub (group_text m 3) [q] of None \<Rightarrow> Some (acc @ w @ q # b) | Some k \<Rightarrow> f k) = Some (acc @ w @ q # b)" for f
    unfolding m(4) by (simp only: option.case)
  with m \<open>q = SQ \<Longrightarrow> \<not> found re_number_before w\<close> assms(2) show ?thesis by (subst (1) collapse_quotes.simps) (auto simp: Let_def)
qed

text \<open>The tail of a number: its groups are matched as far as they go.\<close>

lemma literal_part_first:
  "rmatch re_literal_part p q c = (case q of
     [] \<Rightarrow> []
   | x # s \<Rightarrow>
       if x = SQ then (case s of [] \<Rightarrow> [] | a # t \<Rightarrow> if ascii_alnum a \<or> a = CHR ''_'' then [(a # x # p, t, c)] else [])
       else if ascii_alnum x \<or> x = CHR ''_'' then [(x # p, s, c)] else [])"
proof -
  have "\<not> ascii_alnum SQ" "SQ \<noteq> CHR ''_''" by code_simp+
  then show ?thesis by (auto simp: re_literal_part_def ropt_def rchr_def split: list.split)
qed

lemma star_parts_first:
  "separated d \<Longrightarrow> s = [] \<or> \<not> (ascii_alnum (hd s) \<or> hd s \<in> {CHR ''_'', SQ}) \<Longrightarrow>
    \<exists>ts. rmatch (Star re_literal_part) p (d @ s) c = (rev d @ p, s, c) # ts"
proof (induction d arbitrary: p rule: separated.induct)
  case 1
  then have "rmatch re_literal_part p s c = []" by (auto simp: literal_part_first split: list.split)
  then show ?case by (simp add: rmatch.simps(5))
next
  case (2 x d)
  show ?case
  proof (cases "x = SQ")
    case True
    with 2 obtain a t where d: "d = a # t" "ascii_alnum a \<or> a = CHR ''_''" "separated t" by (auto split: list.splits)
    from "2.IH"(1) [OF True d(1,3) "2.prems"(2), of "a # x # p"] d True show ?thesis
      by (subst rmatch.simps(5)) (auto simp: literal_part_first)
  next
    case False
    with 2 have "ascii_alnum x \<or> x = CHR ''_''" "separated d" by auto
    with "2.IH"(2) [OF False this(2) "2.prems"(2), of "x # p"] False show ?thesis
      by (subst rmatch.simps(5)) (auto simp: literal_part_first)
  qed
qed

lemma literal_tail_groups:
  assumes "separated d" "s = [] \<or> \<not> (ascii_alnum (hd s) \<or> hd s \<in> {CHR ''_'', SQ})" "LF \<notin> set s"
  shows "\<exists>m. re_match re_literal_tail (d @ s) = Some m \<and> group_text m 1 = d \<and> group_text m 2 = s"
proof -
  obtain ts where 1: "rmatch (Star re_literal_part) [] (d @ s) [] = (rev d, s, []) # ts"
    using star_parts_first [OF assms(1,2), of "[]" "[]"] by auto
  obtain us where 2: "rmatch (Star rdot) (rev d) s [(1, [], rev d)] = (rev s @ rev d, [], [(1, [], rev d)]) # us"
  proof -
    have "takeWhile (\<lambda>c. c \<noteq> LF) s = s" "dropWhile (\<lambda>c. c \<noteq> LF) s = []" using assms(3) by (induction s) auto
    with star_cls_first [of "\<lambda>c. c \<noteq> LF" "rev d" s "[(1, [], rev d)]"] that show ?thesis by (auto simp: rdot_def)
  qed
  obtain vs where "rmatch re_literal_tail [] (d @ s) [] =
      (rev s @ rev d, [], [(2, rev d, rev s @ rev d), (1, [], rev d)]) # vs"
    unfolding re_literal_tail_def by (simp add: 1 2 [simplified])
  then show ?thesis
    by (simp add: re_match_def first_match_def group_text_def m_group_def text_between_def)
qed

lemma drop_quotes: "replace_sub [SQ] [] d = filter (\<lambda>c. c \<noteq> SQ) d"
proof (induction d)
  case (Cons x d)
  then show ?case by (subst replace_sub.simps) auto
qed (subst replace_sub.simps, simp)

lemma collapse_separators:
  assumes "plain w" "ends_in_number w" "separated (SQ # d)" "s = [] \<or> \<not> (ascii_alnum (hd s) \<or> hd s \<in> {CHR ''_'', SQ})"
    "LF \<notin> set (d @ s)"
  shows "collapse_quotes acc (w @ SQ # d @ s) = collapse_quotes (acc @ w @ filter (\<lambda>c. c \<noteq> SQ) d) s"
proof -
  have "SQ \<notin> set w" "DQ \<notin> set w" using assms(1) by (auto simp: plain_def)
  from re_first_quote_match [OF this _ assms(5), of SQ]
  obtain m where m: "re_match re_first_quote (w @ SQ # d @ s) = Some m" "group_text m 1 = w" "group_text m 2 = [SQ]"
    "group_text m 3 = d @ s" by auto
  from literal_tail_groups [OF assms(3,4)] assms(5)
  obtain ml where ml: "re_match re_literal_tail (SQ # d @ s) = Some ml" "group_text ml 1 = SQ # d" "group_text ml 2 = s" by auto
  have "found re_number_before w" using assms(1,2) number_found by blast
  with m ml show ?thesis by (subst (1) collapse_quotes.simps) (simp add: Let_def drop_quotes)
qed

section \<open>Lines\<close>

lemma body_text: "literal_body q b \<Longrightarrow> LF \<notin> set b"
proof (induction rule: literal_body.induct)
  case (Escape c b)
  have "\<not> simple_escape LF" "\<not> py_digit LF" "LF \<noteq> BSL" by code_simp+
  with Escape show ?case by auto
next
  case (Hex c b)
  have "\<not> hex_digit LF" "LF \<noteq> BSL" "LF \<noteq> CHR ''x''" by code_simp+
  with Hex show ?case by auto
qed auto

lemma separated_text: "separated d \<Longrightarrow> LF \<notin> set d \<and> BSL \<notin> set d"
proof (induction d rule: separated.induct)
  case (2 c d)
  have "\<not> ascii_alnum LF" "\<not> ascii_alnum BSL" "LF \<notin> {CHR ''_'', SQ}" "BSL \<notin> {CHR ''_'', SQ}" by code_simp+
  with 2 show ?case by (auto split: if_splits list.splits)
qed simp

lemma collapsed_text: "collapsed s t \<Longrightarrow> LF \<notin> set s"
proof (induction rule: collapsed.induct)
  case (Literal w q b s t)
  have "LF \<noteq> DQ" "LF \<noteq> SQ" by code_simp+
  with Literal body_text [OF Literal(3)] show ?case by (auto simp: plain_def)
next
  case (Separators w d s t)
  with separated_text [OF Separators(3)] show ?case by (auto simp: plain_def)
next
  case (Unclosed w q b)
  have "LF \<noteq> DQ" "LF \<noteq> SQ" by code_simp+
  with Unclosed show ?case by (auto simp: plain_def)
qed (auto simp: plain_def)

lemma collapsed_start: "collapsed s t \<Longrightarrow> s = [] \<or> hd s \<noteq> BSL"
proof (induction rule: collapsed.induct)
  case (Literal w q b s t)
  have "BSL \<noteq> DQ" "BSL \<noteq> SQ" by code_simp+
  with Literal show ?case by (cases w) (auto simp: plain_def)
next
  case (Separators w d s t)
  have "BSL \<noteq> SQ" by code_simp
  with Separators show ?case by (cases w) (auto simp: plain_def)
next
  case (Unclosed w q b)
  have "BSL \<noteq> DQ" "BSL \<noteq> SQ" by code_simp+
  with Unclosed show ?case by (cases w) (auto simp: plain_def)
next
  case (Code w)
  then show ?case by (cases w) (auto simp: plain_def)
qed

lemma collapsed_quotes: "collapsed s t \<Longrightarrow> collapse_quotes acc (strip_escapes s) = Some (acc @ t)"
proof (induction arbitrary: acc rule: collapsed.induct)
  case (Code w)
  then have "strip_escapes w = w" "re_match re_first_quote w = None"
    using strip_plain [of w "[]"] no_quote by (auto simp: plain_def)
  then show ?case by (subst collapse_quotes.simps) simp
next
  case (Literal w q b s t)
  have q: "q = DQ \<or> q = SQ" "q \<noteq> BSL" using Literal(2) by auto
  obtain b' where b': "set b' \<inter> {q, LF} = {}" "\<And>s. strip_escapes (b @ q # s) = b' @ q # strip_escapes s"
    using strip_body [OF Literal(3) q(1)] by blast
  have "LF \<notin> set (strip_escapes s)" using strip_subset [of s] collapsed_text [OF Literal(4)] by blast
  moreover have "q \<noteq> LF" using q(1) by auto
  ultimately have "collapse_quotes acc (w @ q # b' @ q # strip_escapes s) = collapse_quotes (acc @ w @ [q, q]) (strip_escapes s)"
    using b'(1) by (intro collapse_literal [OF Literal(1,2)]) auto
  moreover have "strip_escapes (w @ q # b @ q # s) = w @ q # b' @ q # strip_escapes s"
    using Literal(1) q(2) by (simp add: strip_plain plain_def b'(2))
  ultimately show ?case by (simp add: Literal.IH)
next
  case (Separators w d s t)
  have sep: "LF \<notin> set d" "BSL \<notin> set d" "BSL \<notin> set w" "SQ \<noteq> BSL"
    using separated_text [OF Separators(3)] Separators(1) by (auto simp: plain_def)
  have lf: "LF \<notin> set (d @ strip_escapes s)" using sep(1) strip_subset [of s] collapsed_text [OF Separators(5)] by auto
  have "strip_escapes s = [] \<or> hd (strip_escapes s) = hd s \<and> s \<noteq> []"
    using collapsed_start [OF Separators(5)] by (cases s) auto
  with Separators(4) have "strip_escapes s = [] \<or> \<not> (ascii_alnum (hd (strip_escapes s)) \<or> hd (strip_escapes s) \<in> {CHR ''_'', SQ})"
    by auto
  from collapse_separators [OF Separators(1-3) this lf]
  have "collapse_quotes acc (w @ SQ # d @ strip_escapes s) = Some (acc @ w @ filter (\<lambda>c. c \<noteq> SQ) d @ t)"
    by (simp add: Separators.IH)
  moreover have "strip_escapes (w @ SQ # d @ s) = w @ SQ # d @ strip_escapes s" using sep by (simp add: strip_plain)
  ultimately show ?case by simp
next
  case (Unclosed w q b)
  have "q \<noteq> BSL" using Unclosed(2) by auto
  moreover have "BSL \<notin> set w" "BSL \<notin> set b" using Unclosed(1,3) by (auto simp: plain_def)
  ultimately have "strip_escapes (w @ q # b) = w @ q # b" using strip_plain [of b "[]"] by (simp add: strip_plain)
  with collapse_unclosed [OF Unclosed(1,2)] Unclosed(3) show ?case by auto
qed

text \<open>C26: a line that is not an include directive is collapsed as it reads: the text of every string and
  character literal, with its escape sequences, is dropped and its quotes stay, separators in numbers are
  dropped, and the code and a literal that the line does not close stay. An include directive is kept.\<close>

theorem CollapseStrings_collapses:
  assumes "collapsed line t"
  shows "CollapseStrings line = Some (if matches RE_PATTERN_INCLUDE line then line else t)"
  using collapsed_quotes [OF assms, of "[]"] by (simp add: CollapseStrings_def escapes_removed)

text \<open>A line with an escaped quote, a character literal, separators, and a string that goes on in the next line.\<close>

definition example_line :: string where
  "example_line = ''f('' @ DQ # ''a '' @ [BSL, DQ] @ '' // b'' @ DQ # '', '' @ SQ # [BSL] @ ''x41'' @ SQ # '', 1'' @ SQ # ''000'' @ SQ # ''000, '' @
     DQ # ''c''"

theorem CollapseStrings_collapses_witness:
  "CollapseStrings example_line = Some (''f('' @ [DQ, DQ] @ '', '' @ [SQ, SQ] @ '', 1000000, '' @ DQ # ''c'')"
proof -
  have plain: "plain '', ''" "plain '', 1''" "plain ''f(''" by (code_simp)+
  have "\<not> found re_number_before '', ''" "found re_number_before '', 1''" by code_simp+
  with plain have numbers: "\<not> ends_in_number '', ''" "ends_in_number '', 1''" using number_found by blast+
  have chars: "\<not> ascii_alnum (CHR '','')" "separated (SQ # ''000'' @ SQ # ''000'')" by code_simp+
  have escaped: "literal_body DQ (''a '' @ [BSL, DQ] @ '' // b'')"
    by (auto intro!: literal_body.intros simp: simple_escape_def)
  have hex: "literal_body SQ (BSL # ''x41'')"
    by (auto intro!: literal_body.intros) code_simp
  have 1: "collapsed ('', '' @ DQ # ''c'') ('', '' @ DQ # ''c'')" by (rule Unclosed [OF plain(1)]) simp_all
  have 2: "collapsed ('', 1'' @ SQ # (''000'' @ SQ # ''000'') @ '', '' @ DQ # ''c'')
      ('', 1'' @ filter (\<lambda>c. c \<noteq> SQ) (''000'' @ SQ # ''000'') @ '', '' @ DQ # ''c'')"
    by (rule Separators [OF plain(2) numbers(2) chars(2) _ 1]) (simp add: chars(1))
  from Literal [OF plain(1) _ hex this, of] numbers(1)
  have 3: "collapsed ('', '' @ SQ # (BSL # ''x41'') @ SQ # '', 1'' @ SQ # (''000'' @ SQ # ''000'') @ '', '' @ DQ # ''c'')
      ('', '' @ [SQ, SQ] @ '', 1'' @ filter (\<lambda>c. c \<noteq> SQ) (''000'' @ SQ # ''000'') @ '', '' @ DQ # ''c'')" by blast
  from Literal [OF plain(3) _ escaped this]
  have "collapsed example_line (''f('' @ [DQ, DQ] @ '', '' @ [SQ, SQ] @ '', 1'' @ filter (\<lambda>c. c \<noteq> SQ) (''000'' @ SQ # ''000'') @ '', '' @ DQ # ''c'')"
    by (simp add: example_line_def)
  from CollapseStrings_collapses [OF this] have "CollapseStrings example_line = Some (if matches RE_PATTERN_INCLUDE example_line then example_line else
      ''f('' @ [DQ, DQ] @ '', '' @ [SQ, SQ] @ '', 1'' @ filter (\<lambda>c. c \<noteq> SQ) (''000'' @ SQ # ''000'') @ '', '' @ DQ # ''c'')" .
  moreover have "\<not> matches RE_PATTERN_INCLUDE example_line" by code_simp
  ultimately show ?thesis by simp
qed

end
