(* ===== verification/ClangFormat.thy ===== *)
theory ClangFormat
  imports Paths
begin

text \<open>
  The formatting check \<open>build_support/run_clang_format.py\<close>. What it relies on is a record of
  parameters: the directory walk, the decoded contents of a file (\<open>None\<close> when opening or decoding it
  raises), and the external program
  \<open>clang-format\<close> (its output for a file, and whether it succeeds on a list of files in place);
  a failing program raises CalledProcessError, and output that is not UTF-8 a UnicodeDecodeError, which is
  \<open>None\<close>.

  \<open>difflib.unified_diff\<close> of two texts split with their line ends yields nothing exactly when the
  texts are equal, so the model compares the texts.
\<close>

section \<open>Globs\<close>

text \<open>
  \<open>fnmatch.fnmatch\<close>: \<open>*\<close>, \<open>?\<close>, \<open>[seq]\<close> and \<open>[!seq]\<close>; a bracket that is not closed is an ordinary
  character, and a closing bracket that comes first belongs to the sequence.
\<close>

fun in_sequence :: "string \<Rightarrow> char \<Rightarrow> bool" where
  "in_sequence (x # m # y # cs) c =
     (if m = CHR ''-'' then code_point x \<le> code_point c \<and> code_point c \<le> code_point y \<or> in_sequence cs c
      else c = x \<or> in_sequence (m # y # cs) c)"
| "in_sequence (x # cs) c = (c = x \<or> in_sequence cs c)"
| "in_sequence [] c = False"

text \<open>The sequence after an opening bracket: whether it is negated, its text, and the pattern after it.\<close>

definition bracket_sequence :: "string \<Rightarrow> (bool \<times> string \<times> string) option" where
  "bracket_sequence pat =
     (let neg = starts_with pat ''!''; pat = (if neg then tl pat else pat);
          first = takeWhile (\<lambda>c. c = CHR '']'') (take 1 pat);
          body = takeWhile (\<lambda>c. c \<noteq> CHR '']'') (drop (length first) pat)
      in case drop (length first + length body) pat of
           [] \<Rightarrow> None
         | _ # rest \<Rightarrow> Some (neg, first @ body, rest))"

lemma bracket_sequence_shorter: "bracket_sequence pat = Some (neg, cs, rest) \<Longrightarrow> length rest < length pat"
proof -
  assume b: "bracket_sequence pat = Some (neg, cs, rest)"
  have short: "length rest < length q" if "drop k q = x # rest" for q k x
  proof -
    have "length (drop k q) \<le> length q" by simp
    with that show ?thesis by simp
  qed
  obtain q k x where "length q \<le> length pat" "drop k q = x # rest"
  proof (cases "starts_with pat ''!''")
    case True
    with b that [of "tl pat"] show ?thesis by (auto simp: bracket_sequence_def Let_def split: list.splits)
  next
    case False
    with b that [of pat] show ?thesis by (auto simp: bracket_sequence_def Let_def split: list.splits)
  qed
  then show ?thesis using short by (metis less_le_trans)
qed

function fnmatch :: "string \<Rightarrow> string \<Rightarrow> bool" where
  "fnmatch pat name =
     (case pat of
        [] \<Rightarrow> name = []
      | p # ps \<Rightarrow>
          if p = CHR ''*'' then
            fnmatch ps name \<or> (case name of [] \<Rightarrow> False | c # name' \<Rightarrow> fnmatch pat name')
          else
            (case name of
               [] \<Rightarrow> False
             | c # name' \<Rightarrow>
                 if p = CHR ''?'' then fnmatch ps name'
                 else if p = CHR ''['' then
                   (case bracket_sequence ps of
                      None \<Rightarrow> c = p \<and> fnmatch ps name'
                    | Some (neg, cs, rest) \<Rightarrow> in_sequence cs c \<noteq> neg \<and> fnmatch rest name')
                 else c = p \<and> fnmatch ps name'))"
  by pat_completeness auto
termination
  by (relation "measures [\<lambda>(pat, name). length pat, \<lambda>(pat, name). length name]")
    (auto dest: bracket_sequence_shorter)

declare fnmatch.simps [simp del]

section \<open>The check of a directory\<close>

record format_env =
  walk :: "string \<Rightarrow> (string \<times> string list \<times> string list) list"
  read_file :: "string \<Rightarrow> string option"
  clang_format :: "string \<Rightarrow> string option"
  clang_format_in_place :: "string list \<Rightarrow> bool"

record format_args =
  fix_files :: bool
  quiet_format :: bool
  source_dirs :: string

datatype format_event = Print string | Diff string string string

definition formatted_filenames :: "format_env \<Rightarrow> string list \<Rightarrow> string \<Rightarrow> string list" where
  "formatted_filenames env exclude_globs source_dir = concat (map (\<lambda>(directory, subdirs, filenames).
     let fullpaths = map (path_join directory) filenames;
         source_files = filter (\<lambda>x. ends_with x ''.h'' \<or> ends_with x ''.cpp'') fullpaths
     in filter (\<lambda>filename. \<not> list_ex (\<lambda>glob. fnmatch glob filename) exclude_globs) source_files)
     (walk env source_dir))"

fun check_formatted :: "format_env \<Rightarrow> format_args \<Rightarrow> string list \<Rightarrow> (format_event list \<times> bool) option" where
  "check_formatted env args [] = Some ([], False)"
| "check_formatted env args (filename # filenames) = do {
     formatted \<leftarrow> clang_format env filename;
     original \<leftarrow> read_file env filename;
     (out, error) \<leftarrow> check_formatted env args filenames;
     Some ((if quiet_format args then [] else [Print (''Checking '' @ filename)]) @
       (if original \<noteq> formatted then
          [Print (filename @ '' had clang-format style issues''), Diff filename original formatted] else []) @ out,
       original \<noteq> formatted \<or> error)
   }"

definition check_dir ::
  "format_env \<Rightarrow> string list \<Rightarrow> format_args \<Rightarrow> string \<Rightarrow> (format_event list \<times> bool) option" where
  "check_dir env exclude_globs args source_dir =
     (let filenames = formatted_filenames env exclude_globs source_dir in
      if fix_files args then
        if clang_format_in_place env filenames then
          Some (if quiet_format args then [] else
            [Print (join [LF] (map (\<lambda>x. ''Formatting '' @ x) filenames))], False)
        else None
      else check_formatted env args filenames)"

text \<open>The main loop: \<open>had_err\<close> is the result of the last directory that was checked.\<close>

fun check_dirs ::
  "format_env \<Rightarrow> string list \<Rightarrow> format_args \<Rightarrow> string list \<Rightarrow> bool \<Rightarrow> (format_event list \<times> bool) option" where
  "check_dirs env exclude_globs args [] had_err = Some ([], had_err)"
| "check_dirs env exclude_globs args (source_dir # dirs) had_err =
     (if length source_dir > 0 then do {
        (out, had_err) \<leftarrow> check_dir env exclude_globs args source_dir;
        (out', had_err) \<leftarrow> check_dirs env exclude_globs args dirs had_err;
        Some (out @ out', had_err)
      }
      else check_dirs env exclude_globs args dirs had_err)"

definition clang_format_main :: "format_env \<Rightarrow> string list \<Rightarrow> format_args \<Rightarrow> (format_event list \<times> int) option" where
  "clang_format_main env exclude_lines args = do {
     (out, had_err) \<leftarrow> check_dirs env (map strip exclude_lines) args (split_sub '','' (source_dirs args)) False;
     Some (out, if had_err then 1 else 0)
   }"

section \<open>Correctness\<close>

definition style_issue :: "format_env \<Rightarrow> string \<Rightarrow> bool" where
  "style_issue env filename = (clang_format env filename \<noteq> read_file env filename)"

definition diffs_of :: "format_event list \<Rightarrow> string list" where
  "diffs_of out = concat (map (\<lambda>e. case e of Print _ \<Rightarrow> [] | Diff f _ _ \<Rightarrow> [f]) out)"

lemma diffs_of_simps [simp]:
  "diffs_of [] = []" "diffs_of (Print s # out) = diffs_of out" "diffs_of (Diff f a b # out) = f # diffs_of out"
  "diffs_of (out1 @ out2) = diffs_of out1 @ diffs_of out2"
  by (simp_all add: diffs_of_def)

lemma check_formatted_spec:
  "check_formatted env args filenames = Some (out, error) \<Longrightarrow>
    diffs_of out = filter (style_issue env) filenames \<and> error = list_ex (style_issue env) filenames"
proof (induction filenames arbitrary: out error)
  case (Cons f fs)
  then obtain formatted original out1 error1 where f: "clang_format env f = Some formatted" "read_file env f = Some original"
    "check_formatted env args fs = Some (out1, error1)"
    "out = (if quiet_format args then [] else [Print (''Checking '' @ f)]) @
       (if original \<noteq> formatted then
          [Print (f @ '' had clang-format style issues''), Diff f original formatted] else []) @ out1"
    "error = (original \<noteq> formatted \<or> error1)"
    by (auto simp: bind_eq_Some_conv)
  from Cons.IH [OF f(3)] f(1,2) show ?case
    unfolding f(4,5) by (auto simp: style_issue_def)
qed simp

text \<open>C38: without \<open>--fix\<close>, the check of a directory prints a diff for exactly the C++ files below it
  that no exclusion glob matches and that clang-format would change, in the order of the walk, and
  returns whether there is one.\<close>

theorem check_dir_reports:
  assumes "check_dir env globs args dir = Some (out, error)" "\<not> fix_files args"
  shows "diffs_of out = filter (style_issue env) (formatted_filenames env globs dir) \<and>
    error = list_ex (style_issue env) (formatted_filenames env globs dir)"
  using assms check_formatted_spec by (simp add: check_dir_def)

definition example_format_env :: format_env where
  "example_format_env = \<lparr>walk = (\<lambda>d. [(d, [], [''a.h'', ''b.cpp'', ''c.txt''])]),
     read_file = (\<lambda>f. Some ''int x;''), clang_format = (\<lambda>f. if starts_with f ''src'' then Some ''int  x;'' else Some ''int x;''),
     clang_format_in_place = (\<lambda>_. True)\<rparr>"

definition example_format_args :: format_args where
  "example_format_args = \<lparr>fix_files = False, quiet_format = True, source_dirs = ''src,test''\<rparr>"

theorem check_dir_reports_witness:
  "filter (style_issue example_format_env) (formatted_filenames example_format_env [''*b.cpp''] ''src'') = [''src/a.h'']"
proof -
  have "case check_dir example_format_env [''*b.cpp''] example_format_args ''src'' of None \<Rightarrow> False
      | Some (out, error) \<Rightarrow> diffs_of out = [''src/a.h'']" by code_simp
  then obtain out error where
    c: "check_dir example_format_env [''*b.cpp''] example_format_args ''src'' = Some (out, error)" "diffs_of out = [''src/a.h'']"
    by (auto split: option.splits)
  from check_dir_reports [OF c(1)] c(2) show ?thesis by (simp add: example_format_args_def)
qed

lemma check_dirs_last:
  assumes "check_dirs env globs args dirs had_err = Some (out, err)"
  shows "err = (case filter (\<lambda>d. d \<noteq> []) dirs of [] \<Rightarrow> had_err
    | d # ds \<Rightarrow> map_option snd (check_dir env globs args (last (d # ds))) = Some True)"
  using assms
proof (induction dirs arbitrary: had_err out)
  case (Cons d dirs)
  show ?case
  proof (cases "d = []")
    case False
    with Cons.prems obtain out1 err1 out2 where
      c: "check_dir env globs args d = Some (out1, err1)" "check_dirs env globs args dirs err1 = Some (out2, err)"
      by (auto simp: bind_eq_Some_conv)
    from Cons.IH [OF c(2)] c(1) False show ?thesis by (cases "filter (\<lambda>d. d \<noteq> []) dirs") auto
  qed (use Cons in simp)
qed simp

text \<open>C39: the exit status is that of the last directory alone: with at least one directory, the script
  exits with 1 iff the check of the last one that is not empty found an error, whatever the earlier
  ones found.\<close>

theorem exit_status_of_last_dir:
  assumes "clang_format_main env excludes args = Some (out, status)"
    and "filter (\<lambda>d. d \<noteq> []) (split_sub '','' (source_dirs args)) = dirs @ [d]"
  shows "status = (if map_option snd (check_dir env (map strip excludes) args d) = Some True then 1 else 0)"
proof -
  from assms(1) obtain err where c: "check_dirs env (map strip excludes) args (split_sub '','' (source_dirs args)) False =
      Some (out, err)" "status = (if err then 1 else 0)"
    by (auto simp: clang_format_main_def bind_eq_Some_conv)
  from check_dirs_last [OF c(1)] assms(2) c(2) show ?thesis by (cases dirs) auto
qed

theorem exit_status_of_last_dir_witness:
  "map_option snd (clang_format_main example_format_env [] example_format_args) = Some 0 \<and>
   map_option snd (check_dir example_format_env [] example_format_args ''src'') = Some True"
proof -
  have "case clang_format_main example_format_env [] example_format_args of None \<Rightarrow> False | Some _ \<Rightarrow> True" by code_simp
  then obtain out status where m: "clang_format_main example_format_env [] example_format_args = Some (out, status)"
    by (auto split: option.splits)
  have d: "filter (\<lambda>d. d \<noteq> []) (split_sub '','' (source_dirs example_format_args)) = [''src''] @ [''test'']" by code_simp
  have t: "map_option snd (check_dir example_format_env (map strip []) example_format_args ''test'') = Some False"
    "map_option snd (check_dir example_format_env [] example_format_args ''src'') = Some True" by code_simp+
  have "status = 0" using exit_status_of_last_dir [OF m d] unfolding t(1) by simp
  with m t(2) show ?thesis by (metis option.map(2) snd_conv)
qed

end
