(* ===== verification/ClangTidy.thy ===== *)
theory ClangTidy
  imports Paths "HOL-Library.Multiset"
begin

text \<open>
  The parallel runner of clang-tidy, \<open>build_support/run_clang_tidy.py\<close> with the filter of
  \<open>run_clang_tidy_extra.py\<close>. The main thread puts the files into a bounded queue and waits until
  every task is done; the worker threads take files out and run the external program. One atomic
  action of a thread is one step of the relation \<open>tidy_step\<close>, and the steps of the threads
  interleave freely.

  Parameters: what the pattern of the command line selects, what becomes of the process of clang-tidy
  on a file, the names of temporary files, and the file system. Progress output is not modelled. The
  rest of the program, before and after the threads, is in \<open>TidyMain\<close>.
\<close>

section \<open>Paths and command lines\<close>

text \<open>
  \<open>find_compilation_database\<close>: \<open>None\<close> is a walk that never ends, \<open>Some None\<close> is the exit with status
  1 at the root directory.
\<close>

record tidy_fs =
  isfile :: "string \<Rightarrow> bool"
  realpath :: "string \<Rightarrow> string"

partial_function (option) find_database :: "tidy_fs \<Rightarrow> string \<Rightarrow> string \<Rightarrow> string option option" where
  [code]: "find_database fs path result =
     (if isfile fs (path_join result path) then Some (Some (realpath fs result))
      else if realpath fs result = ''/'' then Some None
      else find_database fs path (result @ ''../''))"

definition find_compilation_database :: "tidy_fs \<Rightarrow> string \<Rightarrow> string option option" where
  "find_compilation_database fs path = find_database fs path ''./''"

definition make_absolute :: "string \<Rightarrow> string \<Rightarrow> string" where
  "make_absolute f directory = (if starts_with f [SL] then f else normpath (path_join directory f))"

record tidy_args =
  clang_tidy_binary :: string
  apply_replacements_binary :: string
  checks :: "string option"
  config :: "string option"
  header_filter :: "string option"
  export_fixes :: "string option"
  jobs :: int
  file_patterns :: "string list"
  fix_code :: bool
  format_code :: bool
  style_option :: string
  build_option :: "string option"
  extra_arg :: "string list"
  extra_arg_before :: "string list"
  quiet_tidy :: bool

text \<open>The values of the arguments that are not given.\<close>

definition default_tidy_args :: tidy_args where
  "default_tidy_args =
     \<lparr>clang_tidy_binary = ''clang-tidy'', apply_replacements_binary = ''clang-apply-replacements'', checks = None, config = None,
      header_filter = None, export_fixes = None, jobs = 0, file_patterns = [''.*''], fix_code = False, format_code = False,
      style_option = ''file'', build_option = None, extra_arg = [], extra_arg_before = [], quiet_tidy = False\<rparr>"

text \<open>The temporary file is the argument \<open>fixes\<close>: it is given when fixes are exported.\<close>

definition get_tidy_invocation :: "tidy_args \<Rightarrow> string option \<Rightarrow> string \<Rightarrow> string \<Rightarrow> string list" where
  "get_tidy_invocation args fixes build_path f =
     [clang_tidy_binary args] @
     (case header_filter args of None \<Rightarrow> [] | Some h \<Rightarrow> [''-header-filter='' @ h]) @
     (if given (checks args) then [''-checks='' @ the (checks args)] else []) @
     (case fixes of None \<Rightarrow> [] | Some name \<Rightarrow> [''-export-fixes'', name]) @
     map (\<lambda>arg. ''-extra-arg='' @ arg) (extra_arg args) @
     map (\<lambda>arg. ''-extra-arg-before='' @ arg) (extra_arg_before args) @
     [''-p='' @ build_path] @
     (if quiet_tidy args then [''-quiet''] else []) @
     (if given (config args) then [''-config='' @ the (config args)] else []) @
     [f]"

definition ignore_pats :: "re list" where
  "ignore_pats = [rseq [Star rdot, rlit ''/third_party/'', Star rdot]]"

definition should_skip :: "string \<Rightarrow> bool" where
  "should_skip path = list_ex (\<lambda>pat. matches pat path) ignore_pats"

section \<open>The threads\<close>

text \<open>
  A thread dies with an exception when clang-tidy cannot be started, or when its output cannot be
  decoded as UTF-8 or written: it has then not called \<open>task_done\<close> for its file.
\<close>

datatype process = Not_Started | Ended int bool

datatype worker = Waiting | Checking string | Task_Done | Dead

record tidy_state =
  pending :: "string list"
  task_queue :: "string list"
  workers :: "worker list"
  failed_files :: "string list"
  unfinished :: nat
  temps :: "string list"
  launched :: "string list list"

record tidy_params =
  options :: tidy_args
  build_path :: string
  tmpdir :: "string option"
  max_task :: int
  selected :: "string \<Rightarrow> bool"
  check_process :: "string \<Rightarrow> process"
  mkstemp :: "string \<Rightarrow> string \<Rightarrow> nat \<Rightarrow> string"

definition tidy_start :: "tidy_params \<Rightarrow> string list \<Rightarrow> tidy_state" where
  "tidy_start P files = \<lparr>pending = files, task_queue = [], workers = replicate (nat (max_task P)) Waiting,
     failed_files = [], unfinished = 0, temps = [], launched = []\<rparr>"

text \<open>\<open>queue.Queue(max_task)\<close>: a size that is not positive means no limit.\<close>

definition queue_full :: "tidy_params \<Rightarrow> tidy_state \<Rightarrow> bool" where
  "queue_full P s = (0 < max_task P \<and> max_task P \<le> int (length (task_queue s)))"

text \<open>The thread \<open>i\<close> checks the file \<open>f\<close>. The temporary file for the fixes is made first, also for a file
  that is then skipped; \<open>mkstemp P suffix dir n\<close> is the name that \<open>tempfile.mkstemp(suffix, dir)\<close> returns
  after \<open>n\<close> other files have been made.\<close>

definition run_file :: "tidy_params \<Rightarrow> nat \<Rightarrow> string \<Rightarrow> tidy_state \<Rightarrow> tidy_state" where
  "run_file P i f s =
     (let fixes = map_option (\<lambda>dir. mkstemp P ''.yaml'' dir (length (temps s))) (tmpdir P);
          invocation = get_tidy_invocation (options P) fixes (build_path P) f;
          s = s\<lparr>temps := temps s @ (case fixes of None \<Rightarrow> [] | Some name \<Rightarrow> [name])\<rparr> in
      if should_skip f then s\<lparr>workers := (workers s)[i := Task_Done]\<rparr>
      else
        let s = s\<lparr>launched := launched s @ [invocation]\<rparr> in
        case check_process P f of
          Not_Started \<Rightarrow> s\<lparr>workers := (workers s)[i := Dead]\<rparr>
        | Ended returncode writable \<Rightarrow>
            s\<lparr>failed_files := (if returncode \<noteq> 0 then failed_files s @ [f] else failed_files s),
              workers := (workers s)[i := if writable then Task_Done else Dead]\<rparr>)"

text \<open>
  The main thread puts the next file if the pattern selects it and the queue has room. It spins on
  a file that the pattern does not select, and waits when the queue is full; neither changes the state.
\<close>

inductive tidy_step :: "tidy_params \<Rightarrow> tidy_state \<Rightarrow> tidy_state \<Rightarrow> bool" for P where
  Put: "pending s = f # fs \<Longrightarrow> selected P f \<Longrightarrow> \<not> queue_full P s \<Longrightarrow>
    tidy_step P s (s\<lparr>pending := fs, task_queue := task_queue s @ [f], unfinished := unfinished s + 1\<rparr>)"
| Spin: "pending s = f # fs \<Longrightarrow> \<not> selected P f \<or> queue_full P s \<Longrightarrow> tidy_step P s s"
| Get: "task_queue s = f # fs \<Longrightarrow> i < length (workers s) \<Longrightarrow> workers s ! i = Waiting \<Longrightarrow>
    tidy_step P s (s\<lparr>task_queue := fs, workers := (workers s)[i := Checking f]\<rparr>)"
| Run: "i < length (workers s) \<Longrightarrow> workers s ! i = Checking f \<Longrightarrow> tidy_step P s (run_file P i f s)"
| Done: "i < length (workers s) \<Longrightarrow> workers s ! i = Task_Done \<Longrightarrow>
    tidy_step P s (s\<lparr>workers := (workers s)[i := Waiting], unfinished := unfinished s - 1\<rparr>)"

definition tidy_reachable :: "tidy_params \<Rightarrow> string list \<Rightarrow> tidy_state \<Rightarrow> bool" where
  "tidy_reachable P files s = (tidy_step P)\<^sup>*\<^sup>* (tidy_start P files) s"

text \<open>The queue's \<open>join\<close> has returned, and the exit status that follows.\<close>

definition joined :: "tidy_state \<Rightarrow> bool" where
  "joined s = (pending s = [] \<and> unfinished s = 0)"

definition return_code :: "tidy_state \<Rightarrow> int" where
  "return_code s = (if failed_files s \<noteq> [] then 1 else 0)"

text \<open>The files on which clang-tidy fails, and those on which the thread dies.\<close>

definition fails :: "tidy_params \<Rightarrow> string \<Rightarrow> bool" where
  "fails P f = (\<not> should_skip f \<and> (case check_process P f of Not_Started \<Rightarrow> False | Ended code w \<Rightarrow> code \<noteq> 0))"

definition dies :: "tidy_params \<Rightarrow> string \<Rightarrow> bool" where
  "dies P f = (\<not> should_skip f \<and> (case check_process P f of Not_Started \<Rightarrow> True | Ended code w \<Rightarrow> \<not> w))"

lemma run_file_simps [simp]:
  "pending (run_file P i f s) = pending s"
  "task_queue (run_file P i f s) = task_queue s"
  "unfinished (run_file P i f s) = unfinished s"
  "workers (run_file P i f s) = (workers s)[i := if dies P f then Dead else Task_Done]"
  "failed_files (run_file P i f s) = failed_files s @ (if fails P f then [f] else [])"
  "map last (launched (run_file P i f s)) = map last (launched s) @ (if should_skip f then [] else [f])"
  "length (temps (run_file P i f s)) = length (temps s) + (if tmpdir P = None then 0 else 1)"
  by (simp_all add: run_file_def dies_def fails_def get_tidy_invocation_def Let_def split: process.split option.split)

section \<open>The invariant\<close>

definition busy :: "worker \<Rightarrow> bool" where
  "busy w = (w \<noteq> Waiting)"

fun file_of :: "worker \<Rightarrow> string list" where
  "file_of (Checking f) = [f]"
| "file_of _ = []"

definition files_in_work :: "tidy_state \<Rightarrow> string multiset" where
  "files_in_work s = mset (task_queue s) + mset (concat (map file_of (workers s)))"

text \<open>
  Every file that has been put was selected; it is in the queue, with a worker, or it has been
  checked. The failures, the commands, the temporary files and the dead threads are those of the
  files that have been checked.
\<close>

definition tidy_record :: "tidy_params \<Rightarrow> string multiset \<Rightarrow> tidy_state \<Rightarrow> bool" where
  "tidy_record P checked s \<longleftrightarrow>
     mset (failed_files s) = filter_mset (fails P) checked \<and>
     mset (map last (launched s)) = filter_mset (\<lambda>f. \<not> should_skip f) checked \<and>
     length (temps s) = (if tmpdir P = None then 0 else size checked) \<and>
     length (filter ((=) Dead) (workers s)) = size (filter_mset (dies P) checked)"

definition tidy_inv :: "tidy_params \<Rightarrow> string list \<Rightarrow> tidy_state \<Rightarrow> bool" where
  "tidy_inv P files s \<longleftrightarrow>
     (\<exists>put checked. files = put @ pending s \<and> list_all (selected P) put \<and>
        mset put = files_in_work s + checked \<and> tidy_record P checked s) \<and>
     unfinished s = length (task_queue s) + length (filter busy (workers s))"

lemma filter_update:
  assumes "i < length ws"
  shows "length (filter Q (ws[i := w])) + of_bool (Q (ws ! i)) = length (filter Q ws) + of_bool (Q w)"
  using assms
proof (induction ws arbitrary: i)
  case (Cons v ws)
  then show ?case by (cases i) auto
qed simp

lemma file_of_update:
  assumes "i < length ws"
  shows "mset (concat (map file_of (ws[i := w]))) + mset (file_of (ws ! i)) =
    mset (concat (map file_of ws)) + mset (file_of w)"
  using assms
proof (induction ws arbitrary: i)
  case (Cons v ws)
  then show ?case
  proof (cases i)
    case (Suc j)
    with Cons.IH [of j] Cons.prems show ?thesis by (simp add: ac_simps)
  qed (simp add: ac_simps)
qed simp

lemma inv_start: "tidy_inv P files (tidy_start P files)"
proof -
  have "concat (map file_of (replicate n Waiting)) = []" for n by (induction n) auto
  then show ?thesis
    by (auto simp: tidy_inv_def tidy_record_def tidy_start_def files_in_work_def busy_def intro!: exI [of _ "[]"] exI [of _ "{#}"])
qed

lemma inv_step:
  assumes "tidy_step P s s'" "tidy_inv P files s" shows "tidy_inv P files s'"
proof -
  from assms(2) obtain put checked where inv: "files = put @ pending s" "list_all (selected P) put"
      "mset put = files_in_work s + checked" "tidy_record P checked s"
      "unfinished s = length (task_queue s) + length (filter busy (workers s))"
    unfolding tidy_inv_def by blast
  show ?thesis using assms(1)
  proof cases
    case (Put f fs)
    with inv show ?thesis
      by (auto simp: tidy_inv_def tidy_record_def files_in_work_def intro!: exI [of _ "put @ [f]"] exI [of _ checked])
  next
    case (Spin f fs)
    with assms(2) show ?thesis by simp
  next
    case (Get f fs i)
    have "mset put = files_in_work s' + checked"
      using inv(3) Get file_of_update [OF Get(3), of "Checking f"] by (simp add: files_in_work_def)
    moreover have "unfinished s' = length (task_queue s') + length (filter busy (workers s'))"
      using inv(5) Get filter_update [OF Get(3), of busy "Checking f"] by (simp add: busy_def)
    moreover have "tidy_record P checked s'"
      using inv(4) Get filter_update [OF Get(3), of "(=) Dead" "Checking f"] by (simp add: tidy_record_def)
    ultimately show ?thesis
      unfolding tidy_inv_def using inv(1,2) Get(1) by (intro conjI exI [of _ put] exI [of _ checked]) simp_all
  next
    case (Run i f)
    let ?w = "if dies P f then Dead else Task_Done"
    have "mset put = files_in_work s' + add_mset f checked"
      using inv(3) Run file_of_update [OF Run(2), of ?w] by (simp add: files_in_work_def split: if_splits)
    moreover have "unfinished s' = length (task_queue s') + length (filter busy (workers s'))"
      using inv(5) Run filter_update [OF Run(2), of busy ?w] by (simp add: busy_def split: if_splits)
    moreover have "tidy_record P (add_mset f checked) s'"
      using inv(4) Run filter_update [OF Run(2), of "(=) Dead" ?w] by (simp add: tidy_record_def split: if_splits)
    ultimately show ?thesis
      unfolding tidy_inv_def using inv(1,2) Run(1) by (intro conjI exI [of _ put] exI [of _ "add_mset f checked"]) simp_all
  next
    case (Done i)
    have "mset put = files_in_work s' + checked"
      using inv(3) Done file_of_update [OF Done(2), of "Waiting"] by (simp add: files_in_work_def)
    moreover have "unfinished s' = length (task_queue s') + length (filter busy (workers s'))"
      using inv(5) Done filter_update [OF Done(2), of busy "Waiting"] by (simp add: busy_def)
    moreover have "tidy_record P checked s'"
      using inv(4) Done filter_update [OF Done(2), of "(=) Dead" "Waiting"] by (simp add: tidy_record_def)
    ultimately show ?thesis
      unfolding tidy_inv_def using inv(1,2) Done(1) by (intro conjI exI [of _ put] exI [of _ checked]) simp_all
  qed
qed

lemma inv_reachable: "tidy_reachable P files s \<Longrightarrow> tidy_inv P files s"
  unfolding tidy_reachable_def by (induction rule: rtranclp_induct) (auto intro: inv_start inv_step)

text \<open>The files for the fixes are made in the directory for them, with the suffix of the merge's pattern.\<close>

lemma temps_run_file:
  "temps (run_file P i f s) =
    temps s @ (case tmpdir P of None \<Rightarrow> [] | Some dir \<Rightarrow> [mkstemp P ''.yaml'' dir (length (temps s))])"
  by (simp add: run_file_def Let_def split: process.split option.split)

lemma temps_reachable:
  assumes "tidy_reachable P files s" "tmpdir P = Some dir"
  shows "\<forall>name \<in> set (temps s). \<exists>n. name = mkstemp P ''.yaml'' dir n"
  using assms(1) unfolding tidy_reachable_def
proof (induction rule: rtranclp_induct)
  case base
  then show ?case by (simp add: tidy_start_def)
next
  case (step s s')
  from step.hyps(2) step.IH show ?case
    by cases (auto simp: temps_run_file assms(2))
qed

section \<open>The result of a run\<close>

lemma joined_idle:
  assumes "tidy_inv P files s" "joined s"
  shows "list_all (selected P) files \<and> tidy_record P (mset files) s \<and> filter_mset (dies P) (mset files) = {#}"
proof -
  from assms(1) obtain put checked where inv: "files = put @ pending s" "list_all (selected P) put"
      "mset put = files_in_work s + checked" "tidy_record P checked s"
      "unfinished s = length (task_queue s) + length (filter busy (workers s))"
    unfolding tidy_inv_def by blast
  from inv(5) assms(2) have idle: "task_queue s = []" "filter busy (workers s) = []" by (simp_all add: joined_def)
  from idle(2) have "\<forall>w \<in> set (workers s). file_of w = []" "filter ((=) Dead) (workers s) = []"
    by (auto simp: filter_empty_conv busy_def)
  then have "concat (map file_of (workers s)) = []" "size (filter_mset (dies P) checked) = 0"
    using inv(4) by (simp_all add: tidy_record_def)
  with idle(1) inv(3) have "mset put = checked" "filter_mset (dies P) checked = {#}" by (simp_all add: files_in_work_def)
  with inv assms(2) show ?thesis by (simp add: joined_def)
qed

lemma return_code_joined:
  assumes "tidy_reachable P files s" "joined s"
  shows "return_code s = (if list_ex (fails P) files then 1 else 0)"
proof -
  from joined_idle [OF inv_reachable [OF assms(1)] assms(2)]
  have "mset (failed_files s) = mset (filter (fails P) files)" by (simp add: tidy_record_def)
  then have "failed_files s = [] \<longleftrightarrow> filter (fails P) files = []" by (metis mset_zero_iff)
  then show ?thesis by (simp add: return_code_def filter_empty_conv list_ex_iff)
qed

text \<open>C2: whatever the interleaving of the threads is, when the wait for the queue returns, clang-tidy has
  been run once for each file of the database that is not skipped, the failed files are exactly those on
  which it fails, each as often as it is listed, and the exit status is 1 iff there is one.\<close>

theorem tidy_result:
  assumes "tidy_reachable P files s" "joined s"
  shows "mset (map last (launched s)) = filter_mset (\<lambda>f. \<not> should_skip f) (mset files) \<and>
    mset (failed_files s) = filter_mset (fails P) (mset files) \<and>
    return_code s = (if list_ex (fails P) files then 1 else 0)"
  using joined_idle [OF inv_reachable [OF assms(1)] assms(2)] return_code_joined [OF assms]
  by (simp add: tidy_record_def)

text \<open>C34: a file that the command line's pattern does not select, and one on which a thread dies, blocks the
  run: the wait for the queue never returns, in no interleaving.\<close>

theorem blocked_run:
  assumes "tidy_reachable P files s" "\<not> list_all (\<lambda>f. selected P f \<and> \<not> dies P f) files"
  shows "\<not> joined s"
  using joined_idle [OF inv_reachable [OF assms(1)]] assms(2) by (auto simp: list_all_iff)

definition example_params :: tidy_params where
  "example_params = \<lparr>options = default_tidy_args, build_path = ''/build'', tmpdir = None, max_task = 1,
     selected = (\<lambda>f. ends_with f ''.cpp''),
     check_process = (\<lambda>f. if f = ''d.cpp'' then Not_Started else Ended (if f = ''b.cpp'' then 1 else 0) True),
     mkstemp = (\<lambda>suffix dir n. path_join dir (''tmp'' @ show_nat n @ suffix))\<rparr>"

definition example_command :: "string list" where
  "example_command = [''clang-tidy'', ''-p=/build'', ''b.cpp'']"

definition example_end :: tidy_state where
  "example_end = \<lparr>pending = [], task_queue = [], workers = [Waiting], failed_files = [''b.cpp''], unfinished = 0,
     temps = [], launched = [example_command]\<rparr>"

lemma b_not_skipped: "\<not> should_skip ''b.cpp''"
  by code_simp

lemma tidy_example_run: "tidy_reachable example_params [''b.cpp''] example_end"
proof -
  let ?P = example_params
  let ?s0 = "tidy_start ?P [''b.cpp'']"
  let ?s1 = "\<lparr>pending = [], task_queue = [''b.cpp''], workers = [Waiting], failed_files = [], unfinished = 1, temps = [], launched = []\<rparr>"
  let ?s2 = "\<lparr>pending = [], task_queue = [], workers = [Checking ''b.cpp''], failed_files = [], unfinished = 1, temps = [], launched = []\<rparr>"
  let ?s3 = "\<lparr>pending = [], task_queue = [], workers = [Task_Done], failed_files = [''b.cpp''], unfinished = 1,
    temps = [], launched = [example_command]\<rparr>"
  have "ends_with ''b.cpp'' ''.cpp''" by code_simp
  then have "selected ?P ''b.cpp''" by (simp add: example_params_def)
  then have 1: "tidy_step ?P ?s0 ?s1"
    using tidy_step.Put [of ?s0 "''b.cpp''" "[]" ?P] by (simp add: tidy_start_def example_params_def queue_full_def)
  have 2: "tidy_step ?P ?s1 ?s2" using tidy_step.Get [of ?s1 "''b.cpp''" "[]" 0 ?P] by simp
  have "run_file ?P 0 ''b.cpp'' ?s2 = ?s3"
    using b_not_skipped by (simp add: run_file_def example_params_def get_tidy_invocation_def default_tidy_args_def given_def
        example_command_def)
  then have 3: "tidy_step ?P ?s2 ?s3" using tidy_step.Run [of 0 ?s2 "''b.cpp''" ?P] by simp
  have 4: "tidy_step ?P ?s3 example_end" using tidy_step.Done [of 0 ?s3 ?P] by (simp add: example_end_def)
  show ?thesis
    unfolding tidy_reachable_def
    by (rule converse_rtranclp_into_rtranclp, rule 1, rule converse_rtranclp_into_rtranclp, rule 2,
      rule converse_rtranclp_into_rtranclp, rule 3, rule converse_rtranclp_into_rtranclp, rule 4,
      rule rtranclp.rtrancl_refl)
qed

theorem tidy_result_witness: "mset [''b.cpp''] = filter_mset (fails example_params) (mset [''b.cpp''])"
proof -
  have "joined example_end" by (simp add: joined_def example_end_def)
  from tidy_result [OF tidy_example_run this]
  have "mset (failed_files example_end) = filter_mset (fails example_params) (mset [''b.cpp''])" by blast
  moreover have "failed_files example_end = [''b.cpp'']" by (simp add: example_end_def)
  ultimately show ?thesis by (simp only:)
qed

theorem blocked_run_witness:
  "\<not> joined (tidy_start example_params [''b.h''])"
proof (rule blocked_run)
  show "tidy_reachable example_params [''b.h''] (tidy_start example_params [''b.h''])"
    by (simp add: tidy_reachable_def)
  have "\<not> ends_with ''b.h'' ''.cpp''" by code_simp
  then show "\<not> list_all (\<lambda>f. selected example_params f \<and> \<not> dies example_params f) [''b.h'']" by (simp add: example_params_def)
qed

section \<open>Progress\<close>

fun worker_work :: "worker \<Rightarrow> nat" where
  "worker_work Waiting = 0"
| "worker_work (Checking f) = 2"
| "worker_work Task_Done = 1"
| "worker_work Dead = 0"

definition work_left :: "tidy_state \<Rightarrow> nat" where
  "work_left s = 4 * length (pending s) + 3 * length (task_queue s) + sum_list (map worker_work (workers s))"

lemma work_update:
  assumes "i < length ws"
  shows "sum_list (map worker_work (ws[i := w])) + worker_work (ws ! i) = sum_list (map worker_work ws) + worker_work w"
  using assms
proof (induction ws arbitrary: i)
  case (Cons v ws)
  then show ?case by (cases i) auto
qed simp

lemma workers_reachable: "tidy_reachable P files s \<Longrightarrow> length (workers s) = nat (max_task P)"
  unfolding tidy_reachable_def by (induction rule: rtranclp_induct) (auto simp: tidy_start_def elim!: tidy_step.cases)

lemma work_Put: "pending s = f # fs \<Longrightarrow>
    work_left (s\<lparr>pending := fs, task_queue := task_queue s @ [f], unfinished := unfinished s + 1\<rparr>) < work_left s"
  by (simp add: work_left_def)

lemma busy_step:
  assumes "i < length (workers s)" "busy (workers s ! i)" "workers s ! i \<noteq> Dead"
  shows "\<exists>s'. tidy_step P s s' \<and> work_left s' < work_left s"
proof (cases "workers s ! i")
  case Waiting
  with assms(2) show ?thesis by (simp add: busy_def)
next
  case (Checking f)
  note step = tidy_step.Run [OF assms(1) this, where P = P]
  show ?thesis
    by (intro exI conjI, rule step)
      (use work_update [OF assms(1), of "if dies P f then Dead else Task_Done"] Checking in \<open>simp add: work_left_def split: if_splits\<close>)
next
  case Task_Done
  note step = tidy_step.Done [OF assms(1) this, where P = P]
  show ?thesis
    by (intro exI conjI, rule step) (use work_update [OF assms(1), of Waiting] Task_Done in \<open>simp add: work_left_def\<close>)
next
  case Dead
  with assms(3) show ?thesis by simp
qed

lemma no_dead_workers:
  assumes "tidy_inv P files s" "list_all (\<lambda>f. \<not> dies P f) files" "i < length (workers s)"
  shows "workers s ! i \<noteq> Dead"
proof -
  from assms(1) obtain put checked where inv: "files = put @ pending s" "mset put = files_in_work s + checked" "tidy_record P checked s"
    unfolding tidy_inv_def by blast
  have "f \<in># checked \<Longrightarrow> f \<in> set put" for f using inv(2) by (metis set_mset_mset union_iff)
  then have "size (filter_mset (dies P) checked) = 0" using assms(2) inv(1) by (auto simp: list_all_iff)
  then have "length (filter ((=) Dead) (workers s)) = 0" using inv(3) unfolding tidy_record_def by metis
  with assms(3) show ?thesis by (auto simp: filter_empty_conv dest: bspec [OF _ nth_mem])
qed

text \<open>No deadlock and no lost wake-up.\<close>

lemma progress_step:
  assumes "tidy_reachable P files s" "list_all (\<lambda>f. selected P f \<and> \<not> dies P f) files" "0 < max_task P" "\<not> joined s"
  shows "\<exists>s'. tidy_step P s s' \<and> work_left s' < work_left s"
proof -
  from inv_reachable [OF assms(1)] obtain put where inv: "files = put @ pending s"
      "unfinished s = length (task_queue s) + length (filter busy (workers s))"
    unfolding tidy_inv_def by blast
  have alive: "i < length (workers s) \<Longrightarrow> workers s ! i \<noteq> Dead" for i
    using no_dead_workers [OF inv_reachable [OF assms(1)]] assms(2) by (simp add: list_all_iff)
  show ?thesis
  proof (cases "\<exists>i < length (workers s). busy (workers s ! i)")
    case True
    then show ?thesis using busy_step alive by blast
  next
    case idle: False
    then have "filter busy (workers s) = []" by (auto simp: filter_empty_conv in_set_conv_nth)
    show ?thesis
    proof (cases "task_queue s")
      case Nil
      with inv \<open>filter busy (workers s) = []\<close> assms(4) obtain f fs where p: "pending s = f # fs"
        by (cases "pending s") (auto simp: joined_def)
      with inv(1) assms(2) have "selected P f" by simp
      with tidy_step.Put [OF p this] Nil assms(3) work_Put [OF p] show ?thesis by (auto simp: queue_full_def)
    next
      case (Cons f fs)
      have 0: "0 < length (workers s)" using workers_reachable [OF assms(1)] assms(3) by simp
      with idle have w: "workers s ! 0 = Waiting" by (auto simp: busy_def)
      note step = tidy_step.Get [OF Cons 0 w, where P = P]
      show ?thesis
        by (intro exI conjI, rule step) (use work_update [OF 0, of "Checking f"] Cons w in \<open>simp add: work_left_def\<close>)
    qed
  qed
qed

lemma run_completes_from:
  assumes "list_all (\<lambda>f. selected P f \<and> \<not> dies P f) files" "0 < max_task P"
  shows "tidy_reachable P files s \<Longrightarrow> \<exists>s'. (tidy_step P)\<^sup>*\<^sup>* s s' \<and> joined s'"
proof (induction "work_left s" arbitrary: s rule: less_induct)
  case less
  show ?case
  proof (cases "joined s")
    case False
    from progress_step [OF less.prems assms False] obtain s1 where s1: "tidy_step P s s1" "work_left s1 < work_left s" by blast
    have "tidy_reachable P files s1" using less.prems s1(1) by (auto simp: tidy_reachable_def)
    from less.hyps [OF s1(2) this] s1(1) show ?thesis by (meson converse_rtranclp_into_rtranclp)
  qed blast
qed

text \<open>C33: with at least one thread, a pattern that selects every file, and no file on which a thread dies, no
  state is stuck: from every reachable state the run can be completed.\<close>

theorem tidy_completes:
  assumes "tidy_reachable P files s" "list_all (\<lambda>f. selected P f \<and> \<not> dies P f) files" "0 < max_task P"
  shows "\<exists>s'. (tidy_step P)\<^sup>*\<^sup>* s s' \<and> joined s' \<and> (\<not> joined s \<longrightarrow> (\<exists>s1. tidy_step P s s1 \<and> work_left s1 < work_left s))"
  using run_completes_from [OF assms(2,3,1)] progress_step [OF assms] by blast

theorem tidy_completes_witness:
  "\<exists>s'. (tidy_step example_params)\<^sup>*\<^sup>* (tidy_start example_params [''b.cpp'']) s' \<and> joined s'"
proof -
  have "tidy_reachable example_params [''b.cpp''] (tidy_start example_params [''b.cpp''])"
    by (simp add: tidy_reachable_def)
  moreover have "ends_with ''b.cpp'' ''.cpp''" by code_simp
  then have "list_all (\<lambda>f. selected example_params f \<and> \<not> dies example_params f) [''b.cpp'']"
    by (simp add: example_params_def dies_def)
  moreover have "0 < max_task example_params" by (simp add: example_params_def)
  ultimately show ?thesis using tidy_completes by blast
qed

section \<open>The compilation database\<close>

definition up :: "nat \<Rightarrow> string" where
  "up k = ''./'' @ concat (replicate k ''../'')"

lemma up_Suc: "up (Suc k) = up k @ ''../''"
proof -
  have "concat (replicate (Suc k) ''../'') = concat (replicate k ''../'') @ ''../''"
    by (simp add: replicate_append_same [symmetric] del: replicate_append_same)
  then show ?thesis by (simp add: up_def del: replicate_Suc)
qed

lemma find_database_total:
  "isfile fs (path_join (up (j + k)) path) \<or> realpath fs (up (j + k)) = ''/'' \<Longrightarrow> find_database fs path (up j) \<noteq> None"
proof (induction k arbitrary: j)
  case 0
  then show ?case by (subst find_database.simps) auto
next
  case (Suc k)
  have "find_database fs path (up (Suc j)) \<noteq> None" by (rule Suc.IH) (use Suc.prems in simp)
  then show ?case by (subst find_database.simps) (simp add: up_Suc)
qed

lemma find_database_result:
  assumes "find_database fs path r = Some d" "r = up j"
  shows "\<exists>k. (isfile fs (path_join (up (j + k)) path) \<and> d = Some (realpath fs (up (j + k))) \<or>
    realpath fs (up (j + k)) = ''/'' \<and> d = None)"
proof -
  have "\<forall>j. r = up j \<longrightarrow> (\<exists>k. (isfile fs (path_join (up (j + k)) path) \<and> d = Some (realpath fs (up (j + k))) \<or>
      realpath fs (up (j + k)) = ''/'' \<and> d = None))"
  proof (rule find_database.raw_induct [OF _ assms(1)])
    fix rec :: "tidy_fs \<Rightarrow> string \<Rightarrow> string \<Rightarrow> string option option" and fs path r d
    assume IH: "\<And>fs path r d. rec fs path r = Some d \<Longrightarrow>
        \<forall>j. r = up j \<longrightarrow> (\<exists>k. (isfile fs (path_join (up (j + k)) path) \<and> d = Some (realpath fs (up (j + k))) \<or>
          realpath fs (up (j + k)) = ''/'' \<and> d = None))"
      and step: "(if isfile fs (path_join r path) then Some (Some (realpath fs r))
        else if realpath fs r = ''/'' then Some None else rec fs path (r @ ''../'')) = Some d"
    show "\<forall>j. r = up j \<longrightarrow> (\<exists>k. (isfile fs (path_join (up (j + k)) path) \<and> d = Some (realpath fs (up (j + k))) \<or>
          realpath fs (up (j + k)) = ''/'' \<and> d = None))"
    proof (intro allI impI)
      fix j assume r: "r = up j"
      consider "isfile fs (path_join r path) \<or> realpath fs r = ''/''" | "rec fs path (up (Suc j)) = Some d"
        using step r by (auto simp: up_Suc split: if_splits)
      then show "\<exists>k. (isfile fs (path_join (up (j + k)) path) \<and> d = Some (realpath fs (up (j + k))) \<or>
          realpath fs (up (j + k)) = ''/'' \<and> d = None)"
      proof cases
        case 1
        with step r show ?thesis by (intro exI [of _ 0]) (auto split: if_splits)
      next
        case 2
        from IH [OF this] obtain k where "isfile fs (path_join (up (Suc j + k)) path) \<and> d = Some (realpath fs (up (Suc j + k))) \<or>
          realpath fs (up (Suc j + k)) = ''/'' \<and> d = None" by blast
        then show ?thesis by (intro exI [of _ "Suc k"]) simp
      qed
    qed
  qed
  with assms(2) show ?thesis by blast
qed

text \<open>The search for the compilation database returns iff some directory above the current one has
  the database or is the root directory.\<close>

theorem find_compilation_database_returns:
  "find_compilation_database fs path \<noteq> None \<longleftrightarrow>
     (\<exists>k. isfile fs (path_join (up k) path) \<or> realpath fs (up k) = ''/'')"
proof -
  have "up 0 = ''./''" by (simp add: up_def)
  with find_database_total [of fs 0 _ path] find_database_result [of fs path "up 0" _ 0]
  show ?thesis by (auto simp: find_compilation_database_def)
qed

end
