(* ===== verification/TidyMain.thy ===== *)
theory TidyMain
  imports ClangTidy ClangFormat
begin

text \<open>
  The rest of \<open>build_support/run_clang_tidy.py\<close>: \<open>main\<close> before the threads start and after the wait for
  the queue has returned, and the export and the application of fixes. The result of the threads is
  the relation of \<open>ClangTidy\<close>, so that \<open>main\<close> is a relation between the arguments and the way the program ends.

  The surroundings are the record \<open>tidy_env\<close>: the programs that can be run, the file system, the names
  that \<open>tempfile\<close> chooses, the JSON database, and \<open>re.compile\<close>. \<open>glob.iglob\<close> is defined on top of the
  listing of a directory, with the \<open>fnmatch\<close> of \<open>ClangFormat\<close>. An interrupt (Ctrl-C) is modelled while the files are put into the queue
  and while the program waits for it.
\<close>

section \<open>The surroundings\<close>

record tidy_env =
  tidy_files :: tidy_fs
  call_succeeds :: "string list \<Rightarrow> bool"
  call_starts :: "string list \<Rightarrow> bool"
  load_database :: "string \<Rightarrow> (string \<times> string) list option"
  cpu_count :: int
  mkdtemp :: string
  mkstemp_name :: "string \<Rightarrow> string \<Rightarrow> nat \<Rightarrow> string"
  compile_pattern :: "string \<Rightarrow> (string \<Rightarrow> bool) option"
  tidy_process :: "string \<Rightarrow> process"
  listdir :: "string list \<Rightarrow> string \<Rightarrow> string list"
  glob_in_dirs :: "string list \<Rightarrow> string \<Rightarrow> string list"
  writable :: "string \<Rightarrow> bool"
  removable :: "string \<Rightarrow> bool"
  pformat :: "string list \<Rightarrow> string"

text \<open>The end of the program: an exit status, an exception that is not caught, or the signal 9.\<close>

datatype tidy_exit = Exit int | Uncaught | Killed

section \<open>Fixes\<close>

text \<open>
  \<open>glob.iglob\<close> on a pattern whose last part has a wildcard: the names in the directory that match this
  part, without the hidden ones unless it starts with a dot, each joined with the directory. The
  directory is taken literally when it has no wildcard; the other case, where the directories that
  match are searched for first, is the parameter \<open>glob_in_dirs\<close>. \<open>listdir env made dir\<close> are the names in
  the directory after the temporary files \<open>made\<close> have been made.
\<close>

definition has_magic :: "string \<Rightarrow> bool" where
  "has_magic s = (\<exists>c \<in> set s. c \<in> {CHR ''*'', CHR ''?'', CHR ''[''})"

definition is_hidden :: "string \<Rightarrow> bool" where
  "is_hidden name = starts_with name ''.''"

definition iglob :: "tidy_env \<Rightarrow> string list \<Rightarrow> string \<Rightarrow> string list" where
  "iglob env made pattern =
     (case path_split pattern of (dir, basename) \<Rightarrow>
        if has_magic dir then glob_in_dirs env made pattern
        else map (path_join dir)
          (filter (\<lambda>name. (is_hidden basename \<or> \<not> is_hidden name) \<and> fnmatch basename name) (listdir env made dir)))"

text \<open>
  \<open>merge_replacement_files\<close>: the module \<open>yaml\<close> is not imported, so the first file that is found raises
  a NameError, before it is opened. Without files the list \<open>merged\<close> is empty and the file of the result is
  emptied. The files are those that match the pattern, given the temporary files that have been made.
\<close>

datatype merge_error = NameError string | OSError

definition merge_replacement_files :: "tidy_env \<Rightarrow> string list \<Rightarrow> string \<Rightarrow> string \<Rightarrow> merge_error option" where
  "merge_replacement_files env made dir mergefile =
     (case iglob env made (path_join dir ''*.yaml'') of
        replacefile # _ \<Rightarrow> Some (NameError ''yaml'')
      | [] \<Rightarrow> if writable env mergefile then None else Some OSError)"

definition check_clang_apply_replacements_binary :: "tidy_env \<Rightarrow> tidy_args \<Rightarrow> bool" where
  "check_clang_apply_replacements_binary env args = call_succeeds env [apply_replacements_binary args, ''--version'']"

text \<open>\<open>apply_fixes\<close> raises if the program cannot be started; its exit status is ignored.\<close>

definition apply_invocation :: "tidy_args \<Rightarrow> string \<Rightarrow> string list" where
  "apply_invocation args dir =
     [apply_replacements_binary args] @ (if format_code args then [''-format''] else []) @
     (if style_option args \<noteq> [] then [''-style='' @ style_option args] else []) @ [dir]"

definition apply_fixes :: "tidy_env \<Rightarrow> tidy_args \<Rightarrow> string \<Rightarrow> bool" where
  "apply_fixes env args dir = call_starts env (apply_invocation args dir)"

section \<open>Before the threads\<close>

definition DATABASE :: string where
  "DATABASE = ''compile_commands.json''"

definition list_checks_invocation :: "tidy_args \<Rightarrow> string \<Rightarrow> string list" where
  "list_checks_invocation args path =
     [clang_tidy_binary args, ''-list-checks''] @ [''-p='' @ path] @
     (if given (checks args) then [''-checks='' @ the (checks args)] else []) @ [''-'']"

text \<open>The files of the database, and the parameters of the threads. \<open>Inl\<close> is an end of the program.\<close>

definition wants_fixes :: "tidy_args \<Rightarrow> bool" where
  "wants_fixes args = (fix_code args \<or> given (export_fixes args))"

definition tidy_setup :: "tidy_env \<Rightarrow> tidy_args \<Rightarrow> string \<Rightarrow> tidy_exit + tidy_params \<times> string list" where
  "tidy_setup env args path =
     (if \<not> call_succeeds env (list_checks_invocation args path) then Inl (Exit 1)
      else case load_database env (path_join path DATABASE) of
        None \<Rightarrow> Inl Uncaught
      | Some database \<Rightarrow>
          let files = map (\<lambda>(file, directory). make_absolute file directory) database;
              tasks = (if jobs args = 0 then cpu_count env else jobs args) in
          if wants_fixes args \<and> \<not> check_clang_apply_replacements_binary env args then Inl (Exit 1)
          else case compile_pattern env (join ''|'' (file_patterns args)) of
            None \<Rightarrow> Inl Uncaught
          | Some search \<Rightarrow>
              Inr (\<lparr>options = args, build_path = path, tmpdir = (if wants_fixes args then Some (mkdtemp env) else None),
                max_task = tasks, selected = search, check_process = tidy_process env, mkstemp = mkstemp_name env\<rparr>, files))"

text \<open>\<open>None\<close>: the search for the database does not end.\<close>

definition tidy_begin :: "tidy_env \<Rightarrow> tidy_args \<Rightarrow> (tidy_exit + tidy_params \<times> string list) option" where
  "tidy_begin env args =
     (case build_option args of
        Some path \<Rightarrow> Some (tidy_setup env args path)
      | None \<Rightarrow>
          (case find_compilation_database (tidy_files env) DATABASE of
             None \<Rightarrow> None
           | Some None \<Rightarrow> Some (Inl (Exit 1))
           | Some (Some path) \<Rightarrow> Some (tidy_setup env args path)))"

section \<open>After the threads\<close>

text \<open>The messages of the end, on both streams, and the exit status so far.\<close>

definition report_failed :: "tidy_env \<Rightarrow> tidy_state \<Rightarrow> string list \<times> int" where
  "report_failed env s =
     (if failed_files s \<noteq> []
      then ([''The files that failed were:'', pformat env (failed_files s),
             ''Note that a failing .h file will fail all the .cpp files that include it.'' @ [CHR 0x0A]], return_code s)
      else ([], return_code s))"

definition export_step :: "tidy_env \<Rightarrow> tidy_args \<Rightarrow> string list \<Rightarrow> string \<Rightarrow> string list \<times> int \<Rightarrow> string list \<times> int" where
  "export_step env args made dir = (\<lambda>(said, code).
     if \<not> given (export_fixes args) then (said, code)
     else
       let mergefile = the (export_fixes args);
           said = said @ [''Writing fixes to '' @ mergefile @ '' ...''] in
       case merge_replacement_files env made dir mergefile of
         None \<Rightarrow> (said, code)
       | Some error \<Rightarrow> (said @ [''Error exporting fixes.'' @ [CHR 0x0A]], 1))"

definition apply_step :: "tidy_env \<Rightarrow> tidy_args \<Rightarrow> string \<Rightarrow> string list \<times> int \<Rightarrow> string list \<times> int" where
  "apply_step env args dir = (\<lambda>(said, code).
     if \<not> fix_code args then (said, code)
     else
       let said = said @ [''Applying fixes ...''] in
       if apply_fixes env args dir then (said, code) else (said @ [''Error applying fixes.'' @ [CHR 0x0A]], 1))"

definition tidy_finish :: "tidy_env \<Rightarrow> tidy_params \<Rightarrow> tidy_state \<Rightarrow> string list \<times> tidy_exit" where
  "tidy_finish env P s =
     (case tmpdir P of
        None \<Rightarrow> let (said, code) = report_failed env s in (said @ [''''], Exit code)
      | Some dir \<Rightarrow>
          let (said, code) = apply_step env (options P) dir (export_step env (options P) (temps s) dir (report_failed env s)) in
          if removable env dir then (said @ [''''], Exit code) else (said, Uncaught))"

text \<open>Ctrl-C while the program waits: the directory is removed and every process of the group is killed.\<close>

definition tidy_interrupted :: "tidy_env \<Rightarrow> tidy_params \<Rightarrow> tidy_exit" where
  "tidy_interrupted env P =
     (case tmpdir P of None \<Rightarrow> Killed | Some dir \<Rightarrow> if removable env dir then Killed else Uncaught)"

inductive tidy_main :: "tidy_env \<Rightarrow> tidy_args \<Rightarrow> tidy_exit \<Rightarrow> bool" for env args where
  Ends: "tidy_begin env args = Some (Inl e) \<Longrightarrow> tidy_main env args e"
| Finishes: "tidy_begin env args = Some (Inr (P, files)) \<Longrightarrow> tidy_reachable P files s \<Longrightarrow> joined s \<Longrightarrow>
    snd (tidy_finish env P s) = e \<Longrightarrow> tidy_main env args e"
| Interrupted: "tidy_begin env args = Some (Inr (P, files)) \<Longrightarrow> tidy_reachable P files s \<Longrightarrow> tidy_main env args (tidy_interrupted env P)"

inductive_cases tidy_main_cases: "tidy_main env args e"

section \<open>The exit status\<close>

lemma tidy_setup_params:
  "tidy_setup env args path = Inr (P, files) \<Longrightarrow>
    options P = args \<and> tmpdir P = (if wants_fixes args then Some (mkdtemp env) else None)"
  by (auto simp: tidy_setup_def Let_def split: if_splits option.splits)

lemma tidy_begin_params:
  "tidy_begin env args = Some (Inr (P, files)) \<Longrightarrow>
    options P = args \<and> tmpdir P = (if wants_fixes args then Some (mkdtemp env) else None)"
  by (auto simp: tidy_begin_def dest: tidy_setup_params split: option.splits)

lemma tidy_begin_mkstemp: "tidy_begin env args = Some (Inr (P, files)) \<Longrightarrow> mkstemp P = mkstemp_name env"
  by (auto simp: tidy_begin_def tidy_setup_def Let_def split: if_splits option.splits)

lemma tidy_interrupted_no_exit: "tidy_interrupted env P \<noteq> Exit c"
  by (simp add: tidy_interrupted_def split: option.split)

lemma tidy_exit_cases:
  assumes "tidy_main env args (Exit c)" "tidy_begin env args = Some (Inr (P, files))"
  obtains s where "tidy_reachable P files s" "joined s" "snd (tidy_finish env P s) = Exit c"
  using assms by (auto elim!: tidy_main_cases simp: tidy_interrupted_no_exit dest: sym)

lemma report_failed_code [simp]: "snd (report_failed env s) = return_code s"
  by (simp add: report_failed_def)

lemma export_step_code:
  "snd (export_step env args made dir r) =
    (if given (export_fixes args) \<and> merge_replacement_files env made dir (the (export_fixes args)) \<noteq> None then 1 else snd r)"
  by (cases r) (simp add: export_step_def Let_def split: option.split)

lemma apply_step_code:
  "snd (apply_step env args dir r) = (if fix_code args \<and> \<not> apply_fixes env args dir then 1 else snd r)"
  by (cases r) (simp add: apply_step_def Let_def)

lemma tidy_finish_code:
  "snd (tidy_finish env P s) = Exit c \<Longrightarrow>
    c = (case tmpdir P of None \<Rightarrow> return_code s
      | Some dir \<Rightarrow> snd (apply_step env (options P) dir (export_step env (options P) (temps s) dir (report_failed env s))))"
  by (auto simp: tidy_finish_def Let_def case_prod_beta split: option.splits if_splits)

lemma joined_temps:
  assumes "tidy_reachable P files s" "joined s" "tmpdir P \<noteq> None"
  shows "length (temps s) = length files"
  using joined_idle [OF inv_reachable [OF assms(1)] assms(2)] assms(3) by (simp add: tidy_record_def)

text \<open>The pattern of the merge finds the temporary files that the runs of clang-tidy write.\<close>

lemma rfind1_join:
  assumes "SL \<notin> set b"
  shows "rfind1 SL (h @ SL # b) = Suc (length h)"
proof -
  have "dropWhile (\<lambda>x. x \<noteq> SL) (rev b @ SL # rev h) = SL # rev h"
    using assms by (subst dropWhile_append2) auto
  then show ?thesis by (simp add: rfind1_def)
qed

lemma path_split_join:
  assumes "dir \<noteq> []" "last dir \<noteq> SL" "SL \<notin> set b"
  shows "path_join dir b = dir @ SL # b" "path_split (path_join dir b) = (dir, b)"
proof -
  from assms(1) obtain u c where dir: "dir = u @ [c]" by (metis rev_exhaust)
  with assms(2) have c: "c \<noteq> SL" by simp
  have "\<not> starts_with b [SL]" using assms(3) by (cases b) auto
  with dir c show join: "path_join dir b = dir @ SL # b"
    by (simp add: path_join_def ends_with_def)
  have "strip_slashes (dir @ [SL]) = dir"
    using dir c by (auto simp: strip_slashes_def rstrip_char_def)
  then show "path_split (path_join dir b) = (dir, b)"
    unfolding join path_split_def Let_def rfind1_join [OF assms(3)] by simp
qed

lemma fnmatch_literal:
  "\<forall>c \<in> set s. c \<notin> {CHR ''*'', CHR ''?'', CHR ''[''} \<Longrightarrow> fnmatch s s"
  by (induction s) (subst fnmatch.simps, simp)+

lemma fnmatch_suffix: "fnmatch suffix suffix \<Longrightarrow> fnmatch (CHR ''*'' # suffix) (u @ suffix)"
proof (induction u)
  case Nil
  then show ?case by (subst fnmatch.simps) simp
next
  case (Cons c u)
  then show ?case by (subst fnmatch.simps) simp
qed

lemma iglob_finds:
  assumes "dir \<noteq> []" "last dir \<noteq> SL" "\<not> has_magic dir" "x @ ''.yaml'' \<in> set (listdir env made dir)" "\<not> is_hidden (x @ ''.yaml'')"
  shows "iglob env made (path_join dir ''*.yaml'') \<noteq> []"
proof -
  have "path_split (path_join dir ''*.yaml'') = (dir, ''*.yaml'')"
    by (rule path_split_join(2) [OF assms(1,2)]) simp
  moreover have "fnmatch ''*.yaml'' (x @ ''.yaml'')"
    by (rule fnmatch_suffix, rule fnmatch_literal) simp
  ultimately show ?thesis using assms(3-5) by (auto simp: iglob_def filter_empty_conv)
qed

text \<open>C8: a run that exports fixes never ends with the status of success when the database has a file. The file that
  was made for the fixes of a file of the database is in the directory for the fixes and matches the pattern of
  the merge, which therefore fails on it. The hypotheses about \<open>tempfile\<close> and the listing are those of the
  documentation: \<open>mkdtemp\<close> returns a path without a slash at its end (here also without a wildcard), the name of
  \<open>mkstemp\<close> is ``tmp'', random characters and the suffix, in the given directory, and a file that was made in a
  directory is listed there, for nothing removes it before the merge.\<close>

theorem export_never_succeeds:
  assumes "given (export_fixes args)" "tidy_begin env args = Some (Inr (P, files))" "files \<noteq> []"
    "mkdtemp env \<noteq> [] \<and> last (mkdtemp env) \<noteq> SL \<and> \<not> has_magic (mkdtemp env)"
    "\<forall>suffix dir n. \<exists>x. SL \<notin> set x \<and> mkstemp_name env suffix dir n = path_join dir (''tmp'' @ x @ suffix)"
    "\<forall>made dir name. SL \<notin> set name \<and> path_join dir name \<in> set made \<longrightarrow> name \<in> set (listdir env made dir)"
  shows "\<not> tidy_main env args (Exit 0)"
proof
  assume "tidy_main env args (Exit 0)"
  then obtain s where s: "tidy_reachable P files s" "joined s" "snd (tidy_finish env P s) = Exit 0"
    by (rule tidy_exit_cases [OF _ assms(2)])
  have P: "options P = args" "tmpdir P = Some (mkdtemp env)"
    using tidy_begin_params [OF assms(2)] assms(1) by (simp_all add: wants_fixes_def)
  have "temps s \<noteq> []" using joined_temps [OF s(1,2)] P(2) assms(3) by auto
  then obtain name where name: "name \<in> set (temps s)" by fastforce
  with temps_reachable [OF s(1) P(2)] tidy_begin_mkstemp [OF assms(2)]
  obtain n where "name = mkstemp_name env ''.yaml'' (mkdtemp env) n" by auto
  moreover obtain x where "SL \<notin> set x" "mkstemp_name env ''.yaml'' (mkdtemp env) n = path_join (mkdtemp env) (''tmp'' @ x @ ''.yaml'')"
    using assms(5) by blast
  ultimately have x: "SL \<notin> set x" "name = path_join (mkdtemp env) ((''tmp'' @ x) @ ''.yaml'')" by simp_all
  have "(''tmp'' @ x) @ ''.yaml'' \<in> set (listdir env (temps s) (mkdtemp env))"
    using assms(6) x name by simp
  from iglob_finds [OF _ _ _ this] assms(4)
  have "iglob env (temps s) (path_join (mkdtemp env) ''*.yaml'') \<noteq> []" by (simp add: is_hidden_def)
  then have "merge_replacement_files env (temps s) (mkdtemp env) f \<noteq> None" for f
    by (simp add: merge_replacement_files_def split: list.split)
  with tidy_finish_code [OF s(3)] P assms(1) show False by (simp add: apply_step_code export_step_code split: if_splits)
qed

text \<open>C32: without an export of fixes, the exit status of a run that gets to its end is 1 exactly when clang-tidy
  fails on some file that is not skipped, or fixes are to be applied and the program for it cannot be started.\<close>

theorem tidy_main_status:
  assumes "\<not> given (export_fixes args)" "tidy_begin env args = Some (Inr (P, files))" "tidy_main env args (Exit c)"
  shows "c = (if list_ex (fails P) files \<or> fix_code args \<and> \<not> apply_fixes env args (mkdtemp env) then 1 else 0)"
proof -
  obtain s where s: "tidy_reachable P files s" "joined s" "snd (tidy_finish env P s) = Exit c"
    by (rule tidy_exit_cases [OF assms(3,2)])
  have P: "options P = args" "tmpdir P = (if fix_code args then Some (mkdtemp env) else None)"
    using tidy_begin_params [OF assms(2)] assms(1) by (simp_all add: wants_fixes_def)
  have "return_code s = (if list_ex (fails P) files then 1 else 0)"
    by (rule return_code_joined [OF s(1,2)])
  with tidy_finish_code [OF s(3)] P assms(1) show ?thesis by (simp add: apply_step_code export_step_code)
qed

section \<open>An example\<close>

definition example_env :: tidy_env where
  "example_env = \<lparr>tidy_files = \<lparr>isfile = (\<lambda>_. True), realpath = (\<lambda>p. p)\<rparr>, call_succeeds = (\<lambda>_. True), call_starts = (\<lambda>_. True),
     load_database = (\<lambda>_. Some [(''b.cpp'', ''/src'')]), cpu_count = 1, mkdtemp = ''/tmp/fixes'',
     mkstemp_name = (\<lambda>suffix dir n. path_join dir (''tmp'' @ show_nat n @ suffix)),
     compile_pattern = (\<lambda>_. Some (\<lambda>_. True)), tidy_process = (\<lambda>f. Ended (if f = ''/src/b.cpp'' then 1 else 0) True),
     listdir = (\<lambda>made dir. map (\<lambda>p. drop (rfind1 SL p) p) (filter (\<lambda>p. p = path_join dir (drop (rfind1 SL p) p)) made)),
     glob_in_dirs = (\<lambda>_ _. []), writable = (\<lambda>_. True), removable = (\<lambda>_. True), pformat = concat\<rparr>"

definition export_args :: tidy_args where
  "export_args = default_tidy_args\<lparr>build_option := Some ''/build'', export_fixes := Some ''fixes.yaml''\<rparr>"

definition plain_args :: tidy_args where
  "plain_args = default_tidy_args\<lparr>build_option := Some ''/build''\<rparr>"

lemma example_begin:
  "tidy_begin example_env export_args =
    Some (Inr (\<lparr>options = export_args, build_path = ''/build'', tmpdir = Some ''/tmp/fixes'', max_task = 1, selected = (\<lambda>_. True),
      check_process = tidy_process example_env, mkstemp = mkstemp_name example_env\<rparr>, [''/src/b.cpp'']))"
  "tidy_begin example_env plain_args =
    Some (Inr (\<lparr>options = plain_args, build_path = ''/build'', tmpdir = None, max_task = 1, selected = (\<lambda>_. True),
      check_process = tidy_process example_env, mkstemp = mkstemp_name example_env\<rparr>, [''/src/b.cpp'']))"
proof -
  have "make_absolute ''b.cpp'' ''/src'' = ''/src/b.cpp''" by code_simp
  then show "tidy_begin example_env export_args =
      Some (Inr (\<lparr>options = export_args, build_path = ''/build'', tmpdir = Some ''/tmp/fixes'', max_task = 1, selected = (\<lambda>_. True),
        check_process = tidy_process example_env, mkstemp = mkstemp_name example_env\<rparr>, [''/src/b.cpp'']))"
    "tidy_begin example_env plain_args =
      Some (Inr (\<lparr>options = plain_args, build_path = ''/build'', tmpdir = None, max_task = 1, selected = (\<lambda>_. True),
        check_process = tidy_process example_env, mkstemp = mkstemp_name example_env\<rparr>, [''/src/b.cpp'']))"
    by (simp_all add: tidy_begin_def tidy_setup_def example_env_def export_args_def plain_args_def default_tidy_args_def
        wants_fixes_def given_def check_clang_apply_replacements_binary_def)
qed

text \<open>In the example the listing of a directory is that of the files that were made in it.\<close>

lemma slash_free_nat: "SL \<notin> set (show_nat n)"
proof (induction n rule: show_nat.induct)
  case (1 n)
  have digit: "char_of (48 + k) \<noteq> SL" if "k < 10" for k :: nat
  proof
    assume "char_of (48 + k) = SL"
    then have "of_char (char_of (48 + k) :: char) = (of_char SL :: nat)" by (rule arg_cong)
    with that show False by simp
  qed
  show ?case
  proof (cases "n < 10")
    case True
    then show ?thesis using digit [of n] by (subst show_nat.simps) auto
  next
    case False
    then show ?thesis using 1 digit [of "n mod 10"] by (subst show_nat.simps) auto
  qed
qed

lemma path_join_tail:
  assumes "SL \<notin> set name"
  shows "drop (rfind1 SL (path_join dir name)) (path_join dir name) = name"
proof -
  have name: "\<not> starts_with name [SL]" using assms by (cases name) auto
  consider "dir = []" | u where "dir = u @ [SL]" | u c where "dir = u @ [c]" "c \<noteq> SL"
    by (metis rev_exhaust)
  then show ?thesis
  proof cases
    case 1
    have "rfind1 SL name = 0" using assms by (auto simp: rfind1_def)
    with 1 show ?thesis by (simp add: path_join_def)
  next
    case 2
    then have "path_join dir name = u @ SL # name" using name by (simp add: path_join_def ends_with_def)
    then show ?thesis by (simp add: rfind1_join [OF assms])
  next
    case 3
    then have "path_join dir name = (u @ [c]) @ SL # name" using name by (simp add: path_join_def ends_with_def)
    then show ?thesis by (simp add: rfind1_join [OF assms] del: append_assoc)
  qed
qed

lemma example_listdir:
  assumes "SL \<notin> set name" "path_join dir name \<in> set made"
  shows "name \<in> set (listdir example_env made dir)"
proof -
  let ?tail = "\<lambda>p. drop (rfind1 SL p) p"
  have "?tail (path_join dir name) = name" by (rule path_join_tail [OF assms(1)])
  then have "name \<in> ?tail ` {p \<in> set made. p = path_join dir (?tail p)}"
    using assms(2) by (intro image_eqI [of _ _ "path_join dir name"]) simp_all
  then show ?thesis by (simp add: example_env_def)
qed

theorem export_never_succeeds_witness: "\<not> tidy_main example_env export_args (Exit 0)"
proof (rule export_never_succeeds [OF _ example_begin(1)])
  show "\<forall>suffix dir n. \<exists>x. SL \<notin> set x \<and> mkstemp_name example_env suffix dir n = path_join dir (''tmp'' @ x @ suffix)"
    using slash_free_nat by (fastforce simp: example_env_def)
  show "\<forall>made dir name. SL \<notin> set name \<and> path_join dir name \<in> set made \<longrightarrow> name \<in> set (listdir example_env made dir)"
    using example_listdir by blast
qed (simp_all add: export_args_def given_def example_env_def has_magic_def)

lemma example_main: "tidy_main example_env plain_args (Exit 1)"
proof -
  let ?P = "\<lparr>options = plain_args, build_path = ''/build'', tmpdir = None, max_task = 1, selected = (\<lambda>_. True),
      check_process = tidy_process example_env, mkstemp = mkstemp_name example_env\<rparr>"
  have skip: "\<not> should_skip ''/src/b.cpp''" by code_simp
  have start: "tidy_reachable ?P [''/src/b.cpp''] (tidy_start ?P [''/src/b.cpp''])" by (simp add: tidy_reachable_def)
  with run_completes_from [of ?P "[''/src/b.cpp'']"] obtain s where
    "(tidy_step ?P)\<^sup>*\<^sup>* (tidy_start ?P [''/src/b.cpp'']) s" and s: "joined s"
    by (auto simp: dies_def example_env_def)
  then have reach: "tidy_reachable ?P [''/src/b.cpp''] s" by (simp add: tidy_reachable_def)
  have "return_code s = 1"
    using return_code_joined [OF reach s] skip by (simp add: fails_def example_env_def)
  then have "snd (tidy_finish example_env ?P s) = Exit 1"
    by (simp add: tidy_finish_def case_prod_beta)
  from Finishes [OF example_begin(2) reach s this] show ?thesis .
qed

theorem tidy_main_status_witness:
  "\<exists>P. tidy_begin example_env plain_args = Some (Inr (P, [''/src/b.cpp''])) \<and> list_ex (fails P) [''/src/b.cpp'']"
proof -
  have "\<not> given (export_fixes plain_args)" "\<not> fix_code plain_args"
    by (simp_all add: plain_args_def default_tidy_args_def given_def)
  with tidy_main_status [OF _ example_begin(2) example_main] show ?thesis
    by (auto simp: example_begin(2) split: if_splits)
qed

end
