(* ===== verification/Spec2Isabelle.thy ===== *)
theory Spec2Isabelle
  imports CommandLine ConfigOrder FileIndependence Handler Literals ClangFormat TidyMain
begin

text \<open>
  This development models the lint tools under \<open>build_support\<close> of the repository: \<open>cpplint.py\<close>, the
  style checker of the C++ sources, and the two runners \<open>run_clang_format.py\<close> and
  \<open>run_clang_tidy.py\<close> with its helper \<open>run_clang_tidy_extra.py\<close>.

  How the parts of \<open>cpplint.py\<close> interact. \<open>main\<close> parses the command line into settings and files and calls
  \<open>ProcessFile\<close> for each. \<open>ProcessFile\<close> reads the configuration files of the directories above, which change
  the settings, and the text, and hands its lines to \<open>ProcessFileData\<close>. This resets the tables of suppressed
  errors, blanks the multi-line comments, and builds four copies of the lines (\<open>CleansedLines\<close>): the raw
  ones, those without raw strings, those without comments, and the elided ones whose string literals are
  collapsed. It runs the checks of the whole file and, line by line, \<open>ProcessLine\<close>, which updates the nesting
  state and runs the checks of a line. Every check reports through the error handler \<open>Error\<close>, which consults
  the suppressions, the verbosity and the filters, counts, and prints in one of four output formats.

  The theories, in the order of the code:

  \<^item> \<open>Prelude\<close>: the Python string operations the code uses, on \<open>string\<close> (lists of 8-bit characters,
    so Latin-1 text), with the lemmas that the components share.
  \<^item> \<open>PyRe\<close>: a backtracking matcher for the regular expressions of Python's \<open>re\<close> module: ordered
    alternatives, greedy and lazy repetition, groups, lookahead, anchors, \<open>match\<close>, \<open>search\<close> and \<open>sub\<close>;
    a repetition does not iterate on the empty string. The relation \<open>re_rel\<close> is its specification for
    patterns without groups, and the matcher is proved sound and complete for it.
  \<^item> \<open>LintTables\<close>: the constants of the module.
  \<^item> \<open>Suppress\<close>: the options for file extensions and the NOLINT tables. The two global dictionaries are
    a record of two maps; an error report is the record \<open>diag\<close>, and a check returns the list of the
    effects it has on the handler: \<open>Report\<close> for an error, and the changes of the NOLINT tables.
  \<^item> \<open>LintState\<close>: \<open>_CppLintState\<close> and the handler. A failed assertion is \<open>None\<close>, ValueError is a value
    of \<open>py_error\<close>. The record \<open>world\<close> holds the state of the module and the two output streams.
    \<open>Handler\<close> specifies the handler by the list of the errors that it accepts, and proves the refinement.
  \<^item> \<open>Cleanse\<close>: raw strings, comments, collapsed strings, \<open>CleansedLines\<close>. The comments that span lines are
    specified by the relation \<open>uncommented\<close>. \<open>Literals\<close> specifies the collapsing of strings by a reading
    of the line, the relation \<open>collapsed\<close>.
  \<^item> \<open>IncludeState\<close>: the state machine for the order of includes; \<open>FunctionState\<close>: function lengths.
  \<^item> \<open>Brackets\<close>: \<open>CloseExpression\<close> and \<open>ReverseCloseExpression\<close>.
  \<^item> \<open>Paths\<close>: \<open>FileInfo\<close> and the name of the header guard. The file system and the working directory
    are the parameter \<open>path_env\<close>; the functions of \<open>posixpath\<close> are defined. A loop that may run for ever
    is a partial function and \<open>None\<close> is its divergence.
  \<^item> \<open>FileChecks\<close>: copyright, header guard, included header, newline at the end of the file.
  \<^item> \<open>Blocks\<close> and \<open>Nesting\<close>: the kinds of blocks, and \<open>NestingState\<close>. The stack has its top at the
    head of the list. The code tells blocks apart by identity (\<open>is\<close> and \<open>==\<close> on objects), so a block
    carries an identifier that is fresh on every push and on every \<open>copy.deepcopy\<close>. \<open>NestingLines\<close> has the
    invariant that blocks begin on earlier lines from the top of the stack down.
  \<^item> \<open>CheckKit\<close>: what the checks share: slices, groups of a match, and the locale of a check.
  \<^item> \<open>LineChecks\<close>: the checks of a single line that keep no state.
  \<^item> \<open>Spacing\<close>, \<open>Braces\<close>, \<open>StyleChecks\<close>: the checks of \<open>CheckStyle\<close> and this function itself.
  \<^item> \<open>Constructs\<close>, \<open>References\<close>, \<open>Casts\<close>, \<open>Language\<close>, \<open>ModernChecks\<close>: the checks of the language.
  \<^item> \<open>Includes\<close>: \<open>CheckIncludeLine\<close> over the include state; \<open>IncludeUse\<close>: \<open>CheckForIncludeWhatYouUse\<close>.
  \<^item> \<open>ProcessLines\<close> and \<open>ProcessData\<close>: \<open>ProcessLine\<close> and \<open>ProcessFileData\<close>, over the record of the three
    objects that the lines of a file update. Additional check functions are a parameter.
    \<open>FileIndependence\<close> relates two runs on one file from different states of the handler.
  \<^item> \<open>ConfigFiles\<close>: \<open>ProcessConfigOverrides\<close> and \<open>ProcessFile\<close>. The record \<open>session\<close> holds the module
    variables; the file system, the standard input (which cannot be read under Python 3), the patterns of
    \<open>exclude_files\<close> and the order of sets are the record \<open>surroundings\<close>. The datatype \<open>stop\<close> has the ways in which a run ends early. \<open>ConfigOrder\<close> says what the
    lines of the configuration files of a file mean, against a reading of them in one list.
  \<^item> \<open>CommandLine\<close>: \<open>getopt\<close>, \<open>ParseArguments\<close>, \<open>_ExpandDirectories\<close>, \<open>_FilterExcludedFiles\<close> and \<open>main\<close>.
  \<^item> \<open>ClangFormat\<close>: \<open>run_clang_format.py\<close>, with \<open>fnmatch\<close>. \<open>ClangTidy\<close>: the threads of \<open>run_clang_tidy.py\<close>, a step relation
    in which every interleaving is allowed. \<open>TidyMain\<close>: its \<open>main\<close> before and after the threads, and the
    export of fixes, with \<open>glob\<close>. The external programs, the names that \<open>tempfile\<close> chooses and the listing
    of a directory are parameters.
  \<^item> this theory: the properties of \<open>ProcessFileData\<close> as a whole.

  A value \<open>None\<close> of a check is an exception of the code (an index out of range); the lemmas named
  \<open>_returns\<close>, \<open>_total\<close> or \<open>_result\<close> prove that there is none, or under which condition there is one. The
  interfaces are locales: \<open>error_sink\<close> (what the checks may rely on of the handler), \<open>line_pass\<close> with its
  extension \<open>line_pipeline\<close> (passes over the lines that keep the line numbers), \<open>file_check\<close> (a check that
  returns on the lines of a cleansed file where its precondition holds, and reports only about this file,
  its lines and the known categories), and its instances \<open>line_check\<close> (a check that keeps no state) and
  \<open>line_check_pair\<close> (two of them in sequence). Each is interpreted on the definitions of the program, and
  \<open>ProcessLine\<close> rests on the interpretations of its checks.

  The lemmas show, per component: the results of every operation on the lines of a file; the functional
  behaviour of the string cleansing, the bracket matching (against inductive definitions of balanced
  text), the include order (against the order of the style guide), the filters, the NOLINT comments and
  the counters; the invariants that blocks have distinct identifiers and begin in order, and that the list
  of includes has no duplicates; the independence of the branches of a preprocessor conditional; that the
  counts and the output are those of the accepted errors; safety and progress of the thread pool; and the exact conditions under which the loops of the code do not end and under which the
  checks of a line, a file, or a whole run raise an exception.

  Bounds. No fuel is used: loops that end are functions with a measure. Integers of Python are
  unbounded, as \<open>int\<close> or, where they count lines and positions, \<open>nat\<close>. The logarithm in the check of
  function lengths is exact where the code computes it in floating point.

  Not modelled: the text that \<open>PrintUsage\<close>, \<open>PrintVersion\<close> and \<open>PrintCategories\<close> write (they are values of
  \<open>stop\<close>), debug output, the replacement of invalid UTF-8 when a file is read (a text is given decoded, and
  has 8-bit characters), the cache of compiled patterns, the setters and getters of the module that only
  forward to the one \<open>_CppLintState\<close>, the declarations of \<open>argparse\<close> in the two runners, and their progress
  output. The C++ sources of the repository, which these tools check, are not part of this development.
\<close>

section \<open>The checks of a file\<close>

text \<open>C27: the head of a file's checks returns whenever the repository name does and the filters are
  well-formed: no exception, no failed assertion; the cleansed lines are well-formed and number the
  lines of the file and the two markers, and the filters are still well-formed.\<close>

theorem file_head_returns:
  assumes "filters_ok w" "RepositoryName env repository (guard_filename filename) \<noteq> None"
  shows "\<exists>cl ls' w'. process_file_head opts env root repository filename ext ls w = Some (cl, ls', w') \<and>
    well_formed cl \<and> NumLines cl = length ls + 2 \<and> filters_ok w'"
  using assms by (rule file_head_result)

theorem file_head_returns_witness:
  "\<exists>cl ls' w'. process_file_head initial_extension_options bare_env None None ''a.h'' ''h'' [''int x;''] example_world =
      Some (cl, ls', w') \<and> well_formed cl \<and> NumLines cl = length [''int x;''] + 2 \<and> filters_ok w'"
proof (rule file_head_returns)
  show "filters_ok example_world" by (rule example_world_ok)
  show "RepositoryName bare_env None (guard_filename ''a.h'') \<noteq> None"
    by (simp add: RepositoryName_def bare_env_def Let_def)
qed

text \<open>C3: the checks of a file raise exactly when one of its lines is stuck; every other exception of the code,
  an index out of range or a failed assertion of the handler, is excluded.\<close>

theorem ProcessFileData_raises:
  assumes "filters_ok w" "0 \<le> verbose_level (lint w)" "names_resolve cfg" "\<And>cl. extra_sound extra cl"
    "process_file_head (extensions cfg) (paths cfg) (root_option cfg) (repository_option cfg)
      filename file_extension ls w = Some (cl, ls', w1)"
  shows "ProcessFileData cfg read_header extra filename file_extension ls w = None \<longleftrightarrow>
    (\<exists>n < NumLines cl. line_stuck cl (nesting_after filename cl (Suc n)) n)"
  using ProcessFileData_result [OF assms, of read_header] by (auto simp: file_stuck_def split: if_splits)

definition stuck_lines :: "string list" where
  "stuck_lines = [''void g() {'', ''  f(&static_cast<A*>'', ''    (x));'', ''}'', []]"

theorem ProcessFileData_raises_witness:
  "ProcessFileData example_config (\<lambda>_. None) [] ''a.cc'' ''cc'' stuck_lines example_world = None"
proof -
  let ?head = "process_file_head (extensions example_config) (paths example_config) (root_option example_config)
      (repository_option example_config) ''a.cc'' ''cc'' stuck_lines example_world"
  have "case ?head of None \<Rightarrow> False | Some (cl, ls', w1) \<Rightarrow> 2 < NumLines cl \<and> line_stuck cl (nesting_after ''a.cc'' cl (Suc 2)) 2"
    by code_simp
  then obtain cl ls' w1 where head: "?head = Some (cl, ls', w1)" "2 < NumLines cl" "line_stuck cl (nesting_after ''a.cc'' cl (Suc 2)) 2"
    by (auto split: option.splits prod.splits)
  have "0 \<le> verbose_level (lint example_world)" "\<And>cl. extra_sound [] cl"
    by (simp_all add: example_world_def CppLintState_init_def extra_sound_def)
  from ProcessFileData_raises [OF example_world_ok this(1) example_names this(2) head(1)] head(2,3) show ?thesis by blast
qed

end
